theory Spec2Isabelle
  imports Main "HOL-Library.Sublist" "HOL-Library.Char_ord" "HOL-Library.List_Lexorder"
begin

section \<open>Go runtime notions used by the recon pipeline\<close>

text \<open>
  Go strings are byte sequences, as \<^typ>\<open>string\<close> is; a rune is a code point, a
  natural number. \<open>DecodeRune\<close> is \<^verbatim>\<open>utf8.DecodeRuneInString\<close>: the first rune
  of a string and its width in bytes, \<open>RuneError\<close> with width 1 for a byte that starts
  no well-formed encoding. \<open>EncodeRune\<close> is \<^verbatim>\<open>utf8.AppendRune\<close> on an empty
  buffer.
\<close>

definition RuneError :: nat where
  "RuneError = 0xFFFD"

fun DecodeRune :: "string \<Rightarrow> nat \<times> nat" where
  "DecodeRune [] = (RuneError, 0)"
| "DecodeRune (c0 # s) =
     (let b0 = (of_char c0 :: nat);
          sz = (if b0 < 0x80 then 1 else if b0 < 0xC2 then 0 else if b0 < 0xE0 then 2
                else if b0 < 0xF0 then 3 else if b0 < 0xF5 then 4 else (0::nat));
          lo = (if b0 = 0xE0 then 0xA0 else if b0 = 0xF0 then 0x90 else (0x80::nat));
          hi = (if b0 = 0xED then 0x9F else if b0 = 0xF4 then 0x8F else (0xBF::nat));
          bs = map of_char (take 3 s)
      in if b0 < 0x80 then (b0, 1)
         else if sz = 0 \<or> length s + 1 < sz then (RuneError, 1)
         else if \<not> (lo \<le> bs ! 0 \<and> bs ! 0 \<le> hi) then (RuneError, 1)
         else if sz = 2 then (b0 mod 32 * 64 + bs ! 0 mod 64, 2)
         else if \<not> (0x80 \<le> bs ! 1 \<and> bs ! 1 \<le> 0xBF) then (RuneError, 1)
         else if sz = 3 then (b0 mod 16 * 4096 + bs ! 0 mod 64 * 64 + bs ! 1 mod 64, 3)
         else if \<not> (0x80 \<le> bs ! 2 \<and> bs ! 2 \<le> 0xBF) then (RuneError, 1)
         else (b0 mod 8 * 262144 + bs ! 0 mod 64 * 4096 + bs ! 1 mod 64 * 64 + bs ! 2 mod 64, 4))"

definition EncodeRune :: "nat \<Rightarrow> string" where
  "EncodeRune r =
     (if r < 0x80 then [char_of r]
      else if r < 0x800 then [char_of (0xC0 + r div 64), char_of (0x80 + r mod 64)]
      else if 0x10FFFF < r \<or> (0xD800 \<le> r \<and> r \<le> 0xDFFF) then [CHR 0xEF, CHR 0xBF, CHR 0xBD]
      else if r < 0x10000
      then [char_of (0xE0 + r div 4096), char_of (0x80 + r div 64 mod 64), char_of (0x80 + r mod 64)]
      else [char_of (0xF0 + r div 262144), char_of (0x80 + r div 4096 mod 64),
            char_of (0x80 + r div 64 mod 64), char_of (0x80 + r mod 64)])"

text \<open>
  \<^verbatim>\<open>strings.Map\<close> with a mapping that drops no rune: every rune of the string, a
  malformed byte as \<open>RuneError\<close>, is mapped and encoded again.
\<close>

fun strings_Map :: "(nat \<Rightarrow> nat) \<Rightarrow> string \<Rightarrow> string" where
  "strings_Map mapping [] = []"
| "strings_Map mapping (c # s) =
     EncodeRune (mapping (fst (DecodeRune (c # s)))) @
     strings_Map mapping (drop (snd (DecodeRune (c # s)) - 1) s)"

text \<open>
  The lower-case mappings of \<^verbatim>\<open>unicode.CaseRanges\<close> above \<open>U+007F\<close>. An entry
  \<open>(lo, hi, stride, target)\<close> maps the code points \<open>lo\<close>, \<open>lo + stride\<close>, ... up
  to \<open>hi\<close>; it maps \<open>lo\<close> to \<open>target\<close> and keeps the distance. A code point in no
  entry is its own lower case.
\<close>

definition lower_ranges :: "(nat \<times> nat \<times> nat \<times> nat) list" where
  "lower_ranges =
     [(0x00C0, 0x00D6, 1, 0x00E0), (0x00D8, 0x00DE, 1, 0x00F8), (0x0100, 0x012E, 2, 0x0101),
      (0x0130, 0x0130, 1, 0x0069), (0x0132, 0x0136, 2, 0x0133), (0x0139, 0x0147, 2, 0x013A),
      (0x014A, 0x0176, 2, 0x014B), (0x0178, 0x0178, 1, 0x00FF), (0x0179, 0x017D, 2, 0x017A),
      (0x0181, 0x0181, 1, 0x0253), (0x0182, 0x0184, 2, 0x0183), (0x0186, 0x0186, 1, 0x0254),
      (0x0187, 0x0187, 1, 0x0188), (0x0189, 0x018A, 1, 0x0256), (0x018B, 0x018B, 1, 0x018C),
      (0x018E, 0x018E, 1, 0x01DD), (0x018F, 0x018F, 1, 0x0259), (0x0190, 0x0190, 1, 0x025B),
      (0x0191, 0x0191, 1, 0x0192), (0x0193, 0x0193, 1, 0x0260), (0x0194, 0x0194, 1, 0x0263),
      (0x0196, 0x0196, 1, 0x0269), (0x0197, 0x0197, 1, 0x0268), (0x0198, 0x0198, 1, 0x0199),
      (0x019C, 0x019C, 1, 0x026F), (0x019D, 0x019D, 1, 0x0272), (0x019F, 0x019F, 1, 0x0275),
      (0x01A0, 0x01A4, 2, 0x01A1), (0x01A6, 0x01A6, 1, 0x0280), (0x01A7, 0x01A7, 1, 0x01A8),
      (0x01A9, 0x01A9, 1, 0x0283), (0x01AC, 0x01AC, 1, 0x01AD), (0x01AE, 0x01AE, 1, 0x0288),
      (0x01AF, 0x01AF, 1, 0x01B0), (0x01B1, 0x01B2, 1, 0x028A), (0x01B3, 0x01B5, 2, 0x01B4),
      (0x01B7, 0x01B7, 1, 0x0292), (0x01B8, 0x01B8, 1, 0x01B9), (0x01BC, 0x01BC, 1, 0x01BD),
      (0x01C4, 0x01C4, 1, 0x01C6), (0x01C5, 0x01C5, 1, 0x01C6), (0x01C7, 0x01C7, 1, 0x01C9),
      (0x01C8, 0x01C8, 1, 0x01C9), (0x01CA, 0x01CA, 1, 0x01CC), (0x01CB, 0x01DB, 2, 0x01CC),
      (0x01DE, 0x01EE, 2, 0x01DF), (0x01F1, 0x01F1, 1, 0x01F3), (0x01F2, 0x01F4, 2, 0x01F3),
      (0x01F6, 0x01F6, 1, 0x0195), (0x01F7, 0x01F7, 1, 0x01BF), (0x01F8, 0x021E, 2, 0x01F9),
      (0x0220, 0x0220, 1, 0x019E), (0x0222, 0x0232, 2, 0x0223), (0x023A, 0x023A, 1, 0x2C65),
      (0x023B, 0x023B, 1, 0x023C), (0x023D, 0x023D, 1, 0x019A), (0x023E, 0x023E, 1, 0x2C66),
      (0x0241, 0x0241, 1, 0x0242), (0x0243, 0x0243, 1, 0x0180), (0x0244, 0x0244, 1, 0x0289),
      (0x0245, 0x0245, 1, 0x028C), (0x0246, 0x024E, 2, 0x0247), (0x0370, 0x0372, 2, 0x0371),
      (0x0376, 0x0376, 1, 0x0377), (0x037F, 0x037F, 1, 0x03F3), (0x0386, 0x0386, 1, 0x03AC),
      (0x0388, 0x038A, 1, 0x03AD), (0x038C, 0x038C, 1, 0x03CC), (0x038E, 0x038F, 1, 0x03CD),
      (0x0391, 0x03A1, 1, 0x03B1), (0x03A3, 0x03AB, 1, 0x03C3), (0x03CF, 0x03CF, 1, 0x03D7),
      (0x03D8, 0x03EE, 2, 0x03D9), (0x03F4, 0x03F4, 1, 0x03B8), (0x03F7, 0x03F7, 1, 0x03F8),
      (0x03F9, 0x03F9, 1, 0x03F2), (0x03FA, 0x03FA, 1, 0x03FB), (0x03FD, 0x03FF, 1, 0x037B),
      (0x0400, 0x040F, 1, 0x0450), (0x0410, 0x042F, 1, 0x0430), (0x0460, 0x0480, 2, 0x0461),
      (0x048A, 0x04BE, 2, 0x048B), (0x04C0, 0x04C0, 1, 0x04CF), (0x04C1, 0x04CD, 2, 0x04C2),
      (0x04D0, 0x052E, 2, 0x04D1), (0x0531, 0x0556, 1, 0x0561), (0x10A0, 0x10C5, 1, 0x2D00),
      (0x10C7, 0x10C7, 1, 0x2D27), (0x10CD, 0x10CD, 1, 0x2D2D), (0x13A0, 0x13EF, 1, 0xAB70),
      (0x13F0, 0x13F5, 1, 0x13F8), (0x1C90, 0x1CBA, 1, 0x10D0), (0x1CBD, 0x1CBF, 1, 0x10FD),
      (0x1E00, 0x1E94, 2, 0x1E01), (0x1E9E, 0x1E9E, 1, 0x00DF), (0x1EA0, 0x1EFE, 2, 0x1EA1),
      (0x1F08, 0x1F0F, 1, 0x1F00), (0x1F18, 0x1F1D, 1, 0x1F10), (0x1F28, 0x1F2F, 1, 0x1F20),
      (0x1F38, 0x1F3F, 1, 0x1F30), (0x1F48, 0x1F4D, 1, 0x1F40), (0x1F59, 0x1F5F, 2, 0x1F51),
      (0x1F68, 0x1F6F, 1, 0x1F60), (0x1F88, 0x1F8F, 1, 0x1F80), (0x1F98, 0x1F9F, 1, 0x1F90),
      (0x1FA8, 0x1FAF, 1, 0x1FA0), (0x1FB8, 0x1FB9, 1, 0x1FB0), (0x1FBA, 0x1FBB, 1, 0x1F70),
      (0x1FBC, 0x1FBC, 1, 0x1FB3), (0x1FC8, 0x1FCB, 1, 0x1F72), (0x1FCC, 0x1FCC, 1, 0x1FC3),
      (0x1FD8, 0x1FD9, 1, 0x1FD0), (0x1FDA, 0x1FDB, 1, 0x1F76), (0x1FE8, 0x1FE9, 1, 0x1FE0),
      (0x1FEA, 0x1FEB, 1, 0x1F7A), (0x1FEC, 0x1FEC, 1, 0x1FE5), (0x1FF8, 0x1FF9, 1, 0x1F78),
      (0x1FFA, 0x1FFB, 1, 0x1F7C), (0x1FFC, 0x1FFC, 1, 0x1FF3), (0x2126, 0x2126, 1, 0x03C9),
      (0x212A, 0x212A, 1, 0x006B), (0x212B, 0x212B, 1, 0x00E5), (0x2132, 0x2132, 1, 0x214E),
      (0x2160, 0x216F, 1, 0x2170), (0x2183, 0x2183, 1, 0x2184), (0x24B6, 0x24CF, 1, 0x24D0),
      (0x2C00, 0x2C2F, 1, 0x2C30), (0x2C60, 0x2C60, 1, 0x2C61), (0x2C62, 0x2C62, 1, 0x026B),
      (0x2C63, 0x2C63, 1, 0x1D7D), (0x2C64, 0x2C64, 1, 0x027D), (0x2C67, 0x2C6B, 2, 0x2C68),
      (0x2C6D, 0x2C6D, 1, 0x0251), (0x2C6E, 0x2C6E, 1, 0x0271), (0x2C6F, 0x2C6F, 1, 0x0250),
      (0x2C70, 0x2C70, 1, 0x0252), (0x2C72, 0x2C72, 1, 0x2C73), (0x2C75, 0x2C75, 1, 0x2C76),
      (0x2C7E, 0x2C7F, 1, 0x023F), (0x2C80, 0x2CE2, 2, 0x2C81), (0x2CEB, 0x2CED, 2, 0x2CEC),
      (0x2CF2, 0x2CF2, 1, 0x2CF3), (0xA640, 0xA66C, 2, 0xA641), (0xA680, 0xA69A, 2, 0xA681),
      (0xA722, 0xA72E, 2, 0xA723), (0xA732, 0xA76E, 2, 0xA733), (0xA779, 0xA77B, 2, 0xA77A),
      (0xA77D, 0xA77D, 1, 0x1D79), (0xA77E, 0xA786, 2, 0xA77F), (0xA78B, 0xA78B, 1, 0xA78C),
      (0xA78D, 0xA78D, 1, 0x0265), (0xA790, 0xA792, 2, 0xA791), (0xA796, 0xA7A8, 2, 0xA797),
      (0xA7AA, 0xA7AA, 1, 0x0266), (0xA7AB, 0xA7AB, 1, 0x025C), (0xA7AC, 0xA7AC, 1, 0x0261),
      (0xA7AD, 0xA7AD, 1, 0x026C), (0xA7AE, 0xA7AE, 1, 0x026A), (0xA7B0, 0xA7B0, 1, 0x029E),
      (0xA7B1, 0xA7B1, 1, 0x0287), (0xA7B2, 0xA7B2, 1, 0x029D), (0xA7B3, 0xA7B3, 1, 0xAB53),
      (0xA7B4, 0xA7C2, 2, 0xA7B5), (0xA7C4, 0xA7C4, 1, 0xA794), (0xA7C5, 0xA7C5, 1, 0x0282),
      (0xA7C6, 0xA7C6, 1, 0x1D8E), (0xA7C7, 0xA7C9, 2, 0xA7C8), (0xA7D0, 0xA7D0, 1, 0xA7D1),
      (0xA7D6, 0xA7D8, 2, 0xA7D7), (0xA7F5, 0xA7F5, 1, 0xA7F6), (0xFF21, 0xFF3A, 1, 0xFF41),
      (0x10400, 0x10427, 1, 0x10428), (0x104B0, 0x104D3, 1, 0x104D8),
      (0x10570, 0x1057A, 1, 0x10597), (0x1057C, 0x1058A, 1, 0x105A3),
      (0x1058C, 0x10592, 1, 0x105B3), (0x10594, 0x10595, 1, 0x105BB),
      (0x10C80, 0x10CB2, 1, 0x10CC0), (0x118A0, 0x118BF, 1, 0x118C0),
      (0x16E40, 0x16E5F, 1, 0x16E60), (0x1E900, 0x1E921, 1, 0x1E922)]"

definition unicode_ToLower :: "nat \<Rightarrow> nat" where
  "unicode_ToLower r =
     (if r \<le> 0x7F then (if 0x41 \<le> r \<and> r \<le> 0x5A then r + 32 else r)
      else case find (\<lambda>(lo, hi, stride, target). lo \<le> r \<and> r \<le> hi \<and> (r - lo) mod stride = 0)
                  lower_ranges of
             None \<Rightarrow> r
           | Some (lo, hi, stride, target) \<Rightarrow> target + (r - lo))"

text \<open>
  \<^verbatim>\<open>strings.ToLower\<close>: a string of ASCII bytes has its bytes \<open>A\<close>..\<open>Z\<close> mapped
  and every other byte left alone; any other string is mapped rune by rune.
\<close>

definition lower_byte :: "char \<Rightarrow> char" where
  "lower_byte c = (if CHR ''A'' \<le> c \<and> c \<le> CHR ''Z'' then char_of (of_char c + (32::nat)) else c)"

definition ToLower :: "string \<Rightarrow> string" where
  "ToLower s =
     (if list_all (\<lambda>c. c < CHR 0x80) s then map lower_byte s else strings_Map unicode_ToLower s)"

definition HasSuffix :: "string \<Rightarrow> string \<Rightarrow> bool" where
  "HasSuffix s suf = suffix suf s"

definition HasPrefix :: "string \<Rightarrow> string \<Rightarrow> bool" where
  "HasPrefix s pre = prefix pre s"

definition TrimSuffix :: "string \<Rightarrow> string \<Rightarrow> string" where
  "TrimSuffix s suf = (if HasSuffix s suf then take (length s - length suf) s else s)"

definition TrimPrefix :: "string \<Rightarrow> string \<Rightarrow> string" where
  "TrimPrefix s pre = (if HasPrefix s pre then drop (length pre) s else s)"

fun Contains :: "string \<Rightarrow> string \<Rightarrow> bool" where
  "Contains [] sub = (sub = [])"
| "Contains (c # s) sub = (prefix sub (c # s) \<or> Contains s sub)"

text \<open>
  \<^verbatim>\<open>strings.TrimSpace\<close> removes the leading and the trailing white space of a
  string, rune by rune. \<open>space_runes\<close> lists the UTF-8 encodings of the code points for
  which \<^verbatim>\<open>unicode.IsSpace\<close> holds: \<open>U+0009\<close>..\<open>U+000D\<close>, \<open>U+0020\<close>,
  \<open>U+0085\<close>, \<open>U+00A0\<close>, \<open>U+1680\<close>, \<open>U+2000\<close>..\<open>U+200A\<close>, \<open>U+2028\<close>,
  \<open>U+2029\<close>, \<open>U+202F\<close>, \<open>U+205F\<close> and \<open>U+3000\<close>. A byte that starts no such
  encoding ends the trimming, as a malformed sequence does in Go.
\<close>

definition space_runes :: "string list" where
  "space_runes =
     [[CHR 0x09], [CHR 0x0A], [CHR 0x0B], [CHR 0x0C], [CHR 0x0D], [CHR 0x20],
      [CHR 0xC2, CHR 0x85], [CHR 0xC2, CHR 0xA0],
      [CHR 0xE1, CHR 0x9A, CHR 0x80],
      [CHR 0xE2, CHR 0x80, CHR 0x80], [CHR 0xE2, CHR 0x80, CHR 0x81], [CHR 0xE2, CHR 0x80, CHR 0x82],
      [CHR 0xE2, CHR 0x80, CHR 0x83], [CHR 0xE2, CHR 0x80, CHR 0x84], [CHR 0xE2, CHR 0x80, CHR 0x85],
      [CHR 0xE2, CHR 0x80, CHR 0x86], [CHR 0xE2, CHR 0x80, CHR 0x87], [CHR 0xE2, CHR 0x80, CHR 0x88],
      [CHR 0xE2, CHR 0x80, CHR 0x89], [CHR 0xE2, CHR 0x80, CHR 0x8A],
      [CHR 0xE2, CHR 0x80, CHR 0xA8], [CHR 0xE2, CHR 0x80, CHR 0xA9], [CHR 0xE2, CHR 0x80, CHR 0xAF],
      [CHR 0xE2, CHR 0x81, CHR 0x9F],
      [CHR 0xE3, CHR 0x80, CHR 0x80]]"

text \<open>
  \<open>trim_runes rs s\<close> removes from the front of \<open>s\<close> the byte sequences of \<open>rs\<close>, as long
  as one of them is a prefix of what is left.
\<close>

fun trim_runes :: "string list \<Rightarrow> string \<Rightarrow> string" where
  "trim_runes rs [] = []"
| "trim_runes rs (c # s) =
     (case find (\<lambda>r. r \<noteq> [] \<and> prefix r (c # s)) rs of
        None \<Rightarrow> c # s
      | Some r \<Rightarrow> trim_runes rs (drop (length r - 1) s))"

definition TrimSpace :: "string \<Rightarrow> string" where
  "TrimSpace s = rev (trim_runes (map rev space_runes) (rev (trim_runes space_runes s)))"

text \<open>
  An \<^verbatim>\<open>error\<close> value. \<open>DNSError\<close> stands for an error chain in which
  \<^verbatim>\<open>errors.As\<close> finds a \<^verbatim>\<open>*net.DNSError\<close>; it carries that error's
  \<^verbatim>\<open>IsNotFound\<close> flag and the text of \<^verbatim>\<open>Error()\<close>. \<open>OtherError\<close> is any
  other error, with its text. The \<^verbatim>\<open>nil\<close> error is \<open>None\<close> of an
  option type.
\<close>

datatype go_error = DNSError (IsNotFound: bool) string | OtherError string

fun Error :: "go_error \<Rightarrow> string" where
  "Error (DNSError nf txt) = txt"
| "Error (OtherError txt) = txt"

text \<open>
  A \<^verbatim>\<open>context.Context\<close>, as one callee sees it: the answers of
  \<^verbatim>\<open>ctx.Done()\<close> to the callee's successive polls. Cancellation is permanent, so a
  context is either never cancelled or cancelled from some poll on; \<open>CancelledFrom 0\<close> is
  a context that is cancelled before the call.
\<close>

datatype "context" = Background | CancelledFrom nat

fun ctx_Done :: "context \<Rightarrow> nat \<Rightarrow> bool" where
  "ctx_Done Background k = False"
| "ctx_Done (CancelledFrom n) k = (n \<le> k)"

text \<open>\<^verbatim>\<open>%d\<close> of \<^verbatim>\<open>fmt.Sprintf\<close>: the decimal digits of an integer.\<close>

definition digit_char :: "nat \<Rightarrow> char" where
  "digit_char d = ''0123456789'' ! d"

function Itoa_nat :: "nat \<Rightarrow> string" where
  "Itoa_nat n = (if n < 10 then [digit_char n] else Itoa_nat (n div 10) @ [digit_char (n mod 10)])"
  by pat_completeness auto
termination
  by (relation "measure (\<lambda>n. n)") auto

declare Itoa_nat.simps [simp del]

definition Itoa :: "int \<Rightarrow> string" where
  "Itoa i = (if i < 0 then CHR ''-'' # Itoa_nat (nat (- i)) else Itoa_nat (nat i))"

text \<open>\<^verbatim>\<open>fmt.Errorf("prefix: %w", err)\<close>: the text grows, the wrapped error stays reachable.\<close>

fun wrap_error :: "string \<Rightarrow> go_error \<Rightarrow> go_error" where
  "wrap_error pre (DNSError nf txt) = DNSError nf (pre @ txt)"
| "wrap_error pre (OtherError txt) = OtherError (pre @ txt)"

definition context_Canceled :: go_error where
  "context_Canceled = OtherError ''context canceled''"

text \<open>
  The worker pool every concurrent stage is built from:
  \<^verbatim>\<open>for item := range work { select { case <-ctx.Done(): return; default: }; body }\<close>
  in each of \<open>concurrency\<close> goroutines, the body's writes guarded by one mutex. It is run
  as one schedule: the items leave the queue in order and each body runs before the next
  item is taken. \<open>k\<close> counts the polls of the context. A worker that finds the context
  cancelled returns, and no later item is processed. With \<open>concurrency \<le> 0\<close> no worker is
  started and the queue is never read.
\<close>

fun worker_loop :: "context \<Rightarrow> nat \<Rightarrow> 'a list \<Rightarrow> ('a \<Rightarrow> 's \<Rightarrow> 's) \<Rightarrow> 's \<Rightarrow> 's" where
  "worker_loop ctx k [] body s = s"
| "worker_loop ctx k (item # work) body s =
     (if ctx_Done ctx k then s else worker_loop ctx (Suc k) work body (body item s))"

definition run_workers :: "int \<Rightarrow> context \<Rightarrow> 'a list \<Rightarrow> ('a \<Rightarrow> 's \<Rightarrow> 's) \<Rightarrow> 's \<Rightarrow> 's" where
  "run_workers concurrency ctx work body s =
     (if concurrency \<le> 0 then s else worker_loop ctx 0 work body s)"

section \<open>internal/engine: the result types\<close>

record Subdomain =
  sd_Host :: string
  sd_Sources :: "string list"

record DNSResult =
  dns_Host :: string
  dns_IPs :: "string list"
  dns_CNAME :: string

record PortResult =
  pr_Host :: string
  pr_IP :: string
  pr_Port :: int

record Technology =
  tech_Name :: string
  tech_Category :: string

record HTTPService =
  svc_URL :: string
  svc_Host :: string
  svc_IP :: string
  svc_Port :: int
  svc_Scheme :: string
  svc_StatusCode :: int
  svc_Title :: string
  svc_Server :: string
  svc_ContentLength :: int
  svc_Technologies :: "Technology list"

record DanglingCNAME =
  dc_Host :: string
  dc_CNAME :: string
  dc_Status :: string

record ZoneTransfer =
  zt_Nameserver :: string
  zt_Success :: bool
  zt_Records :: nat


section \<open>The environment\<close>

text \<open>
  What one response to a probe request carries: the fields of \<^verbatim>\<open>http.Response\<close> that
  \<^verbatim>\<open>probeURL\<close> reads. \<open>resp_Header\<close> lists each header name with its values,
  \<open>resp_Body\<close> is the whole body, \<open>resp_Cookies\<close> the names of \<^verbatim>\<open>resp.Cookies()\<close>.
\<close>

record http_response =
  resp_StatusCode :: int
  resp_Header :: "(string \<times> string list) list"
  resp_Body :: string
  resp_ContentLength :: int
  resp_Cookies :: "string list"

text \<open>
  The reply to one request of a subdomain source through \<^verbatim>\<open>http.DefaultClient\<close>:
  no response at all (the request could not be built or sent), or a status code together
  with the outcome of reading the body.
\<close>

datatype http_reply = TransportError go_error | Reply int "go_error + string"

record headerMatch =
  hm_Name :: string
  hm_Pattern :: string
  hm_regex :: "(string \<Rightarrow> bool) option"

record FingerprintRule =
  rule_Name :: string
  rule_Category :: string
  rule_Headers :: "headerMatch list"
  rule_Body :: "string list"
  rule_Cookies :: "string list"

text \<open>
  Everything outside the program that the stages consult, as functions of the request:
  the resolver of package \<^verbatim>\<open>net\<close> (\<open>Inl\<close> is the error of a failed lookup), the zone
  transfer of \<^verbatim>\<open>dns.Transfer\<close> (the envelopes the channel delivers for a domain and a
  nameserver, each an error or the owner names of its records), the TCP dialer (\<open>None\<close>
  is a connection), the probe client, the default HTTP client (by URL and by the number
  of earlier requests of the same fetch), the embedded word list, the decoders of
  \<^verbatim>\<open>encoding/json\<close> for the two JSON sources (giving the \<^verbatim>\<open>name_value\<close> and the
  \<^verbatim>\<open>hostname\<close> fields in order), the first submatch of \<^verbatim>\<open>titleRegex\<close> in a body,
  the decoding of \<^verbatim>\<open>fingerprints.json\<close>, and \<^verbatim>\<open>regexp.Compile\<close> (\<open>None\<close> when the
  pattern does not compile, else the compiled pattern's \<^verbatim>\<open>MatchString\<close>).
\<close>

record world =
  LookupCNAME :: "string \<Rightarrow> go_error + string"
  LookupHost :: "string \<Rightarrow> go_error + string list"
  LookupNS :: "string \<Rightarrow> go_error + string list"
  Transfer_In :: "string \<Rightarrow> string \<Rightarrow> go_error + (go_error + string list) list"
  DialContext :: "string \<Rightarrow> go_error option"
  client_Do :: "string \<Rightarrow> go_error + http_response"
  DefaultClient_Do :: "string \<Rightarrow> nat \<Rightarrow> http_reply"
  Subdomains :: "string list"
  Unmarshal_crtsh :: "string \<Rightarrow> go_error + string list"
  Unmarshal_otx :: "string \<Rightarrow> go_error + string list"
  FindTitle :: "string \<Rightarrow> string option"
  Unmarshal_rules :: "go_error option \<times> FingerprintRule list"
  regexp_Compile :: "string \<Rightarrow> (string \<Rightarrow> bool) option"

section \<open>internal/recon: dangling CNAME classification\<close>

definition danglingPatterns :: "string list" where
  "danglingPatterns =
    [''.s3.amazonaws.com'', ''.azurewebsites.net'', ''.github.io'', ''.herokuapp.com'',
     ''.cloudfront.net'', ''.elasticbeanstalk.com'', ''.trafficmanager.net'',
     ''.blob.core.windows.net'', ''.azureedge.net'', ''.pantheonsite.io'', ''.netlify.app'',
     ''.ghost.io'', ''.myshopify.com'', ''.surge.sh'']"

fun classifyDNSError :: "go_error option \<Rightarrow> string" where
  "classifyDNSError None = ''''"
| "classifyDNSError (Some (DNSError nf txt)) = (if nf then ''NXDOMAIN'' else ''SERVFAIL'')"
| "classifyDNSError (Some (OtherError txt)) =
     (let errStr = ToLower txt in
      if Contains errStr ''no such host'' then ''NXDOMAIN''
      else if Contains errStr ''server misbehaving'' then ''SERVFAIL''
      else '''')"

definition matchesPattern :: "string \<Rightarrow> bool" where
  "matchesPattern cnameLower = list_ex (\<lambda>pattern. HasSuffix cnameLower pattern) danglingPatterns"

definition checkDangling :: "string \<Rightarrow> string \<Rightarrow> go_error option \<Rightarrow> DanglingCNAME option" where
  "checkDangling host cname lookupErr =
     (let cnameLower = ToLower cname in
      if \<not> matchesPattern cnameLower then None
      else let status = classifyDNSError lookupErr in
        if status = '''' then None
        else Some \<lparr>dc_Host = host, dc_CNAME = cname, dc_Status = status\<rparr>)"



section \<open>internal/recon: DNS resolution\<close>

fun deduplicateStrings_from :: "string list \<Rightarrow> string list \<Rightarrow> string list" where
  "deduplicateStrings_from seen [] = []"
| "deduplicateStrings_from seen (s # ss) =
     (if s \<in> set seen then deduplicateStrings_from seen ss
      else s # deduplicateStrings_from (s # seen) ss)"

definition deduplicateStrings :: "string list \<Rightarrow> string list" where
  "deduplicateStrings ss = deduplicateStrings_from [] ss"

text \<open>The CNAME that the worker stores in the record of a host (empty when it stores none).\<close>

definition record_CNAME :: "world \<Rightarrow> string \<Rightarrow> string" where
  "record_CNAME w host =
     (case LookupCNAME w host of
        Inl err \<Rightarrow> ''''
      | Inr cname0 \<Rightarrow>
          (let cname = TrimSuffix (ToLower cname0) ''.'' in
           if cname \<noteq> host \<and> cname \<noteq> '''' then cname else ''''))"

text \<open>
  The body of the worker's loop for one host: what it appends to \<open>results\<close> and to
  \<open>danglings\<close>.
\<close>

definition resolve_host :: "world \<Rightarrow> string \<Rightarrow> DNSResult option \<times> DanglingCNAME option" where
  "resolve_host w host =
     (let cname = record_CNAME w host in
      case LookupHost w host of
        Inl err \<Rightarrow>
          (if cname \<noteq> '''' then (None, checkDangling host cname (Some err)) else (None, None))
      | Inr ips \<Rightarrow>
          (Some \<lparr>dns_Host = host, dns_IPs = deduplicateStrings ips, dns_CNAME = cname\<rparr>, None))"

definition resolve_body ::
  "world \<Rightarrow> string \<Rightarrow> DNSResult list \<times> DanglingCNAME list \<Rightarrow> DNSResult list \<times> DanglingCNAME list" where
  "resolve_body w host acc =
     (case resolve_host w host of
        (rec, dangling) \<Rightarrow>
          (fst acc @ (case rec of None \<Rightarrow> [] | Some r \<Rightarrow> [r]),
           snd acc @ (case dangling of None \<Rightarrow> [] | Some d \<Rightarrow> [d])))"

definition DNSResolve ::
  "world \<Rightarrow> context \<Rightarrow> string list \<Rightarrow> int
     \<Rightarrow> DNSResult list \<times> DanglingCNAME list \<times> go_error option" where
  "DNSResolve w ctx hosts concurrency =
     (case run_workers concurrency ctx hosts (resolve_body w) ([], []) of
        (results, danglings) \<Rightarrow> (results, danglings, None))"

section \<open>internal/recon: port scan\<close>

text \<open>The work items: every candidate port on the first address of every host that has one.\<close>

definition scan_targets :: "DNSResult list \<Rightarrow> int list \<Rightarrow> (string \<times> string \<times> int) list" where
  "scan_targets dnsRecords ports =
     concat (map (\<lambda>r. case dns_IPs r of
                         [] \<Rightarrow> []
                       | ip # ips \<Rightarrow> map (\<lambda>port. (dns_Host r, ip, port)) ports) dnsRecords)"

definition scan_body :: "world \<Rightarrow> string \<times> string \<times> int \<Rightarrow> PortResult list \<Rightarrow> PortResult list" where
  "scan_body w t results =
     (case t of (host, ip, port) \<Rightarrow>
        (case DialContext w (ip @ '':'' @ Itoa port) of
           Some err \<Rightarrow> results
         | None \<Rightarrow> results @ [\<lparr>pr_Host = host, pr_IP = ip, pr_Port = port\<rparr>]))"

definition PortScan ::
  "world \<Rightarrow> context \<Rightarrow> DNSResult list \<Rightarrow> int list \<Rightarrow> int \<Rightarrow> int
     \<Rightarrow> PortResult list \<times> go_error option" where
  "PortScan w ctx dnsRecords ports concurrency timeout =
     (run_workers concurrency ctx (scan_targets dnsRecords ports) (scan_body w) [], None)"

section \<open>internal/recon: HTTP probe\<close>

record probeData =
  pd_headers :: "string \<rightharpoonup> string"
  pd_body :: string
  pd_cookies :: "string list"

record HTTPProbeResult =
  hp_Services :: "HTTPService list"
  hp_ProbeData :: "string \<rightharpoonup> probeData"

definition httpProbeMaxBody :: nat where
  "httpProbeMaxBody = 1024 * 1024"

text \<open>\<^verbatim>\<open>resp.Header.Get\<close>: the first value stored under a name, or the empty string.\<close>

definition Header_Get :: "(string \<times> string list) list \<Rightarrow> string \<Rightarrow> string" where
  "Header_Get hdr name = (case map_of hdr name of Some (v # vs) \<Rightarrow> v | _ \<Rightarrow> '''')"

fun lower_headers :: "(string \<times> string list) list \<Rightarrow> (string \<rightharpoonup> string) \<Rightarrow> (string \<rightharpoonup> string)" where
  "lower_headers [] headers = headers"
| "lower_headers ((name, vals) # hdr) headers =
     lower_headers hdr (case vals of [] \<Rightarrow> headers | v # vs \<Rightarrow> headers(ToLower name \<mapsto> v))"

text \<open>
  \<open>Inl\<close> of \<open>client_Do\<close> covers both early returns of \<^verbatim>\<open>probeURL\<close>: the request could
  not be built, or the client returned an error (no response, or too many redirects).
\<close>

definition probeURL ::
  "world \<Rightarrow> string \<Rightarrow> PortResult \<Rightarrow> string \<Rightarrow> string \<Rightarrow> (HTTPService \<times> probeData) option" where
  "probeURL w url pr scheme userAgent =
     (case client_Do w url of
        Inl err \<Rightarrow> None
      | Inr resp \<Rightarrow>
          (let bodyStr = take httpProbeMaxBody (resp_Body resp);
               svc = \<lparr>svc_URL = url, svc_Host = pr_Host pr, svc_IP = pr_IP pr, svc_Port = pr_Port pr,
                      svc_Scheme = scheme, svc_StatusCode = resp_StatusCode resp,
                      svc_Title = (case FindTitle w bodyStr of None \<Rightarrow> '''' | Some t \<Rightarrow> TrimSpace t),
                      svc_Server = Header_Get (resp_Header resp) ''Server'',
                      svc_ContentLength = resp_ContentLength resp,
                      svc_Technologies = []\<rparr>;
               pd = \<lparr>pd_headers = lower_headers (resp_Header resp) Map.empty,
                     pd_body = bodyStr, pd_cookies = resp_Cookies resp\<rparr>
           in Some (svc, pd)))"

definition tlsFirstPorts :: "int \<Rightarrow> bool" where
  "tlsFirstPorts port = (port \<in> set [443, 8443, 9443, 6443, 1443, 4443])"

fun probe_schemes ::
  "world \<Rightarrow> PortResult \<Rightarrow> string \<Rightarrow> string list \<Rightarrow> (HTTPService \<times> probeData) option" where
  "probe_schemes w pr userAgent [] = None"
| "probe_schemes w pr userAgent (scheme # schemes) =
     (let url = scheme @ ''://'' @ pr_Host pr @ '':'' @ Itoa (pr_Port pr) in
      case probeURL w url pr scheme userAgent of
        Some r \<Rightarrow> Some r
      | None \<Rightarrow> probe_schemes w pr userAgent schemes)"

definition probePort :: "world \<Rightarrow> PortResult \<Rightarrow> string \<Rightarrow> (HTTPService \<times> probeData) option" where
  "probePort w pr userAgent =
     probe_schemes w pr userAgent
       (if tlsFirstPorts (pr_Port pr) then [''https'', ''http''] else [''http'', ''https''])"

definition probe_body :: "world \<Rightarrow> string \<Rightarrow> PortResult \<Rightarrow> HTTPProbeResult \<Rightarrow> HTTPProbeResult" where
  "probe_body w userAgent pr result =
     (case probePort w pr userAgent of
        None \<Rightarrow> result
      | Some (svc, pd) \<Rightarrow>
          \<lparr>hp_Services = hp_Services result @ [svc],
           hp_ProbeData = (hp_ProbeData result)(svc_URL svc \<mapsto> pd)\<rparr>)"

definition HTTPProbe ::
  "world \<Rightarrow> context \<Rightarrow> PortResult list \<Rightarrow> int \<Rightarrow> int \<Rightarrow> string
     \<Rightarrow> HTTPProbeResult \<times> go_error option" where
  "HTTPProbe w ctx openPorts concurrency timeout userAgent =
     (run_workers concurrency ctx openPorts (probe_body w userAgent)
        \<lparr>hp_Services = [], hp_ProbeData = Map.empty\<rparr>, None)"


section \<open>internal/recon: technology fingerprinting\<close>

text \<open>
  \<^verbatim>\<open>loadFingerprints\<close>: \<open>Unmarshal_rules\<close> gives the error of \<^verbatim>\<open>json.Unmarshal\<close>, if
  any, and the rules it has stored in the table. The \<open>regex\<close> field is not part of the
  JSON, so it is \<^verbatim>\<open>nil\<close> in every decoded rule; after a decoding error the function
  returns before any pattern is compiled.
\<close>

definition decoded_header :: "headerMatch \<Rightarrow> headerMatch" where
  "decoded_header h = h\<lparr>hm_regex := None\<rparr>"

definition compile_header :: "world \<Rightarrow> headerMatch \<Rightarrow> headerMatch" where
  "compile_header w h =
     (if hm_Pattern h \<noteq> [] then h\<lparr>hm_regex := regexp_Compile w (''(?i)'' @ hm_Pattern h)\<rparr>
      else h)"

definition loadFingerprints :: "world \<Rightarrow> FingerprintRule list" where
  "loadFingerprints w =
     (case Unmarshal_rules w of (err, rules0) \<Rightarrow>
        (let rules = map (\<lambda>r. r\<lparr>rule_Headers := map decoded_header (rule_Headers r)\<rparr>) rules0 in
         case err of
           Some e \<Rightarrow> rules
         | None \<Rightarrow> map (\<lambda>r. r\<lparr>rule_Headers := map (compile_header w) (rule_Headers r)\<rparr>) rules))"

text \<open>The three loops of \<^verbatim>\<open>matchesRule\<close>; \<open>True\<close> is the \<^verbatim>\<open>return true\<close> inside a loop.\<close>

fun match_headers :: "headerMatch list \<Rightarrow> probeData \<Rightarrow> bool" where
  "match_headers [] data = False"
| "match_headers (hm # hms) data =
     (case pd_headers data (ToLower (hm_Name hm)) of
        None \<Rightarrow> match_headers hms data
      | Some headerVal \<Rightarrow>
          (if (case hm_regex hm of None \<Rightarrow> False | Some re \<Rightarrow> re headerVal) then True
           else if hm_Pattern hm = '''' \<and> headerVal \<noteq> '''' then True
           else match_headers hms data))"

fun match_body :: "string list \<Rightarrow> string \<Rightarrow> bool" where
  "match_body [] bodyLower = False"
| "match_body (substr # substrs) bodyLower =
     (if Contains bodyLower (ToLower substr) then True else match_body substrs bodyLower)"

fun match_cookie :: "string \<Rightarrow> string list \<Rightarrow> bool" where
  "match_cookie cookieLower [] = False"
| "match_cookie cookieLower (c # cs) =
     (if ToLower c = cookieLower then True else match_cookie cookieLower cs)"

fun match_cookies :: "string list \<Rightarrow> string list \<Rightarrow> bool" where
  "match_cookies [] cookies = False"
| "match_cookies (cookieName # names) cookies =
     (if match_cookie (ToLower cookieName) cookies then True else match_cookies names cookies)"

definition matchesRule :: "FingerprintRule \<Rightarrow> probeData \<Rightarrow> bool" where
  "matchesRule rule data =
     (if match_headers (rule_Headers rule) data then True
      else if match_body (rule_Body rule) (ToLower (pd_body data)) then True
      else match_cookies (rule_Cookies rule) (pd_cookies data))"

fun collect_techs :: "FingerprintRule list \<Rightarrow> probeData \<Rightarrow> Technology list \<Rightarrow> Technology list" where
  "collect_techs [] data techs = techs"
| "collect_techs (rule # rules) data techs =
     collect_techs rules data
       (if matchesRule rule data
        then techs @ [\<lparr>tech_Name = rule_Name rule, tech_Category = rule_Category rule\<rparr>]
        else techs)"

text \<open>The probe data of a service: the stored bundle, or the fallback built from its record.\<close>

definition service_data :: "(string \<rightharpoonup> probeData) \<Rightarrow> HTTPService \<Rightarrow> probeData" where
  "service_data probeResults svc =
     (case probeResults (svc_URL svc) of
        Some data \<Rightarrow> data
      | None \<Rightarrow>
          \<lparr>pd_headers = (if svc_Server svc \<noteq> '''' then [''server'' \<mapsto> svc_Server svc] else Map.empty),
           pd_body = '''', pd_cookies = []\<rparr>)"

definition FingerprintServices ::
  "world \<Rightarrow> HTTPService list \<Rightarrow> (string \<rightharpoonup> probeData) \<Rightarrow> HTTPService list" where
  "FingerprintServices w services probeResults =
     map (\<lambda>svc. svc\<lparr>svc_Technologies :=
                        collect_techs (loadFingerprints w) (service_data probeResults svc) []\<rparr>)
       services"

section \<open>internal/recon: zone transfer\<close>

record ZoneTransferResult =
  ztr_Transfers :: "ZoneTransfer list"
  ztr_Hostnames :: "string list"

text \<open>
  The loops that collect names without repetition keep a \<open>seen\<close> set beside the output
  slice and add to both together, so \<open>seen\<close> holds exactly the elements of the slice.
\<close>

definition append_unseen :: "string list \<Rightarrow> string \<Rightarrow> string list" where
  "append_unseen hosts h = (if h \<in> set hosts then hosts else hosts @ [h])"

fun axfr_records :: "string \<Rightarrow> string list \<Rightarrow> string list \<Rightarrow> string list" where
  "axfr_records domain [] hostnames = hostnames"
| "axfr_records domain (rr # rrs) hostnames =
     (let name = ToLower (TrimSuffix rr ''.'') in
      if name = '''' then axfr_records domain rrs hostnames
      else if \<not> HasSuffix name (''.'' @ ToLower domain) \<and> name \<noteq> ToLower domain
        then axfr_records domain rrs hostnames
      else axfr_records domain rrs (append_unseen hostnames name))"

fun axfr_envelopes ::
  "string \<Rightarrow> string \<Rightarrow> (go_error + string list) list \<Rightarrow> string list \<Rightarrow> go_error + string list" where
  "axfr_envelopes domain nameserver [] hostnames = Inr hostnames"
| "axfr_envelopes domain nameserver (Inl err # envelopes) hostnames =
     Inl (wrap_error (''AXFR envelope from '' @ nameserver @ '': '') err)"
| "axfr_envelopes domain nameserver (Inr rrs # envelopes) hostnames =
     axfr_envelopes domain nameserver envelopes (axfr_records domain rrs hostnames)"

definition attemptAXFR :: "world \<Rightarrow> string \<Rightarrow> string \<Rightarrow> go_error + string list" where
  "attemptAXFR w domain nameserver =
     (case Transfer_In w domain nameserver of
        Inl err \<Rightarrow> Inl (wrap_error (''AXFR to '' @ nameserver @ '': '') err)
      | Inr envelopes \<Rightarrow> axfr_envelopes domain nameserver envelopes [])"

fun zone_transfer_loop ::
  "world \<Rightarrow> context \<Rightarrow> nat \<Rightarrow> string \<Rightarrow> string list \<Rightarrow> ZoneTransferResult
     \<Rightarrow> ZoneTransferResult \<times> go_error option" where
  "zone_transfer_loop w ctx k domain [] result = (result, None)"
| "zone_transfer_loop w ctx k domain (ns # nameservers) result =
     (if ctx_Done ctx k then (result, Some context_Canceled)
      else
        let nsHost = TrimSuffix ns ''.'' in
        case attemptAXFR w domain nsHost of
          Inl err \<Rightarrow>
            zone_transfer_loop w ctx (Suc k) domain nameservers
              (result\<lparr>ztr_Transfers := ztr_Transfers result @
                 [\<lparr>zt_Nameserver = nsHost, zt_Success = False, zt_Records = 0\<rparr>]\<rparr>)
        | Inr hostnames \<Rightarrow>
            zone_transfer_loop w ctx (Suc k) domain nameservers
              (result\<lparr>ztr_Transfers := ztr_Transfers result @
                 [\<lparr>zt_Nameserver = nsHost, zt_Success = True, zt_Records = length hostnames\<rparr>],
               ztr_Hostnames := foldl append_unseen (ztr_Hostnames result) hostnames\<rparr>))"

text \<open>
  \<^verbatim>\<open>(*ZoneTransferResult, error)\<close>: the result pointer is \<^verbatim>\<open>nil\<close> (\<open>None\<close>) on the
  two early returns.
\<close>

definition AttemptZoneTransfers ::
  "world \<Rightarrow> context \<Rightarrow> string \<Rightarrow> ZoneTransferResult option \<times> go_error option" where
  "AttemptZoneTransfers w ctx domain =
     (case LookupNS w domain of
        Inl err \<Rightarrow> (None, Some (wrap_error (''NS lookup for '' @ domain @ '': '') err))
      | Inr nameservers \<Rightarrow>
          if length nameservers = 0
          then (None, Some (OtherError (''no NS records for '' @ domain)))
          else (case zone_transfer_loop w ctx 0 domain nameservers
                       \<lparr>ztr_Transfers = [], ztr_Hostnames = []\<rparr> of
                  (result, err) \<Rightarrow> (Some result, err)))"


section \<open>internal/recon: the subdomain sources\<close>

text \<open>
  What a fetch does besides returning: the requests it issues (with the number of earlier
  requests of the same fetch) and the back-off it waits out, in seconds.
\<close>

datatype fetch_event = Request string nat | Backoff nat

text \<open>\<^verbatim>\<open>strings.Split(s, "\n")\<close> and the first piece of \<^verbatim>\<open>strings.SplitN(s, ",", 2)\<close>.\<close>

fun Split_byte :: "char \<Rightarrow> string \<Rightarrow> string list" where
  "Split_byte sep [] = [[]]"
| "Split_byte sep (c # s) =
     (if c = sep then [] # Split_byte sep s
      else (case Split_byte sep s of [] \<Rightarrow> [[c]] | p # ps \<Rightarrow> (c # p) # ps))"

definition before_comma :: "string \<Rightarrow> string" where
  "before_comma line = takeWhile (\<lambda>c. c \<noteq> CHR '','') line"

subsection \<open>crt.sh\<close>

definition crtshMaxBody :: nat where
  "crtshMaxBody = 50 * 1024 * 1024"

definition crtshRetryDelay :: nat where
  "crtshRetryDelay = 3"

definition crtshDoRequest :: "http_reply \<Rightarrow> go_error + string" where
  "crtshDoRequest reply =
     (case reply of
        TransportError err \<Rightarrow> Inl err
      | Reply status read \<Rightarrow>
          if status = 429 then Inl (OtherError ''crt.sh rate limited (429)'')
          else if status \<noteq> 200 then Inl (OtherError (''crt.sh returned status '' @ Itoa status))
          else (case read of
                  Inl err \<Rightarrow> Inl (wrap_error ''crt.sh read body: '' err)
                | Inr body \<Rightarrow> Inr (take crtshMaxBody body)))"

text \<open>
  In the \<^verbatim>\<open>select\<close> of a fetch the context is polled once: it is cancelled before the
  back-off has elapsed, or the back-off is waited out.
\<close>

definition crtshFetch ::
  "world \<Rightarrow> context \<Rightarrow> string \<Rightarrow> string \<Rightarrow> (go_error + string) \<times> fetch_event list" where
  "crtshFetch w ctx url userAgent =
     (case crtshDoRequest (DefaultClient_Do w url 0) of
        Inr body \<Rightarrow> (Inr body, [Request url 0])
      | Inl err \<Rightarrow>
          if Contains (Error err) ''429'' then (Inl err, [Request url 0])
          else if ctx_Done ctx 0 then (Inl context_Canceled, [Request url 0])
          else (crtshDoRequest (DefaultClient_Do w url 1),
                [Request url 0, Backoff crtshRetryDelay, Request url 1]))"

fun crtsh_names :: "string \<Rightarrow> string list \<Rightarrow> string list \<Rightarrow> string list" where
  "crtsh_names domain [] hosts = hosts"
| "crtsh_names domain (name0 # names) hosts =
     (let name1 = TrimSpace (ToLower name0) in
      if name1 = '''' then crtsh_names domain names hosts
      else
        let name = (if HasPrefix name1 ''*.'' then TrimPrefix name1 ''*.'' else name1) in
        if \<not> HasSuffix name (''.'' @ domain) \<and> name \<noteq> domain then crtsh_names domain names hosts
        else crtsh_names domain names (append_unseen hosts name))"

fun crtsh_entries :: "string \<Rightarrow> string list \<Rightarrow> string list \<Rightarrow> string list" where
  "crtsh_entries domain [] hosts = hosts"
| "crtsh_entries domain (nameValue # entries) hosts =
     crtsh_entries domain entries (crtsh_names domain (Split_byte CHR 0x0A nameValue) hosts)"

definition CrtshEnumerate ::
  "world \<Rightarrow> context \<Rightarrow> string \<Rightarrow> string \<Rightarrow> (go_error + string list) \<times> fetch_event list" where
  "CrtshEnumerate w ctx domain userAgent =
     (let url = ''https://crt.sh/?q=%25.'' @ domain @ ''&output=json'' in
      case crtshFetch w ctx url userAgent of
        (Inl err, evs) \<Rightarrow> (Inl (wrap_error (''crt.sh fetch for '' @ domain @ '': '') err), evs)
      | (Inr body, evs) \<Rightarrow>
          (case Unmarshal_crtsh w body of
             Inl err \<Rightarrow> (Inl (wrap_error (''crt.sh JSON parse for '' @ domain @ '': '') err), evs)
           | Inr entries \<Rightarrow> (Inr (crtsh_entries domain entries []), evs)))"

subsection \<open>HackerTarget\<close>

definition hackertargetMaxBody :: nat where
  "hackertargetMaxBody = 5 * 1024 * 1024"

definition hackertargetRetryDelay :: nat where
  "hackertargetRetryDelay = 2"

definition hackertargetRateMsg :: string where
  "hackertargetRateMsg = ''API count exceeded''"

definition hackertargetDoRequest :: "http_reply \<Rightarrow> go_error + string" where
  "hackertargetDoRequest reply =
     (case reply of
        TransportError err \<Rightarrow> Inl err
      | Reply status read \<Rightarrow>
          if status = 429 then Inl (OtherError ''hackertarget rate limited (429)'')
          else if status \<ge> 500 then Inl (OtherError (''hackertarget returned status '' @ Itoa status))
          else if status \<noteq> 200 then Inl (OtherError (''hackertarget returned status '' @ Itoa status))
          else (case read of
                  Inl err \<Rightarrow> Inl (wrap_error ''hackertarget read body: '' err)
                | Inr raw \<Rightarrow>
                    (let body = take hackertargetMaxBody raw in
                     if Contains body hackertargetRateMsg
                     then Inl (OtherError (''hackertarget: '' @ hackertargetRateMsg))
                     else Inr body)))"

definition hackertargetFetch ::
  "world \<Rightarrow> context \<Rightarrow> string \<Rightarrow> string \<Rightarrow> (go_error + string) \<times> fetch_event list" where
  "hackertargetFetch w ctx url userAgent =
     (case hackertargetDoRequest (DefaultClient_Do w url 0) of
        Inr body \<Rightarrow> (Inr body, [Request url 0])
      | Inl err \<Rightarrow>
          if Contains (Error err) ''429'' \<or> Contains (Error err) hackertargetRateMsg
          then (Inl err, [Request url 0])
          else if ctx_Done ctx 0 then (Inl context_Canceled, [Request url 0])
          else (hackertargetDoRequest (DefaultClient_Do w url 1),
                [Request url 0, Backoff hackertargetRetryDelay, Request url 1]))"

fun hackertarget_lines :: "string \<Rightarrow> string list \<Rightarrow> string list \<Rightarrow> string list" where
  "hackertarget_lines domain [] hosts = hosts"
| "hackertarget_lines domain (line0 # lines) hosts =
     (let line = TrimSpace line0 in
      if line = '''' then hackertarget_lines domain lines hosts
      else
        let host = ToLower (TrimSpace (before_comma line)) in
        if host = '''' then hackertarget_lines domain lines hosts
        else if \<not> HasSuffix host (''.'' @ domain) \<and> host \<noteq> domain
          then hackertarget_lines domain lines hosts
        else hackertarget_lines domain lines (append_unseen hosts host))"

definition parseHackertargetResponse :: "string \<Rightarrow> string \<Rightarrow> string list" where
  "parseHackertargetResponse body domain = hackertarget_lines domain (Split_byte CHR 0x0A body) []"

definition HackertargetEnumerate ::
  "world \<Rightarrow> context \<Rightarrow> string \<Rightarrow> string \<Rightarrow> (go_error + string list) \<times> fetch_event list" where
  "HackertargetEnumerate w ctx domain userAgent =
     (let url = ''https://api.hackertarget.com/hostsearch/?q='' @ domain in
      case hackertargetFetch w ctx url userAgent of
        (Inl err, evs) \<Rightarrow> (Inl (wrap_error (''hackertarget fetch for '' @ domain @ '': '') err), evs)
      | (Inr body, evs) \<Rightarrow> (Inr (parseHackertargetResponse body domain), evs))"

subsection \<open>AlienVault OTX\<close>

definition otxMaxBody :: nat where
  "otxMaxBody = 10 * 1024 * 1024"

definition otxRetryDelay :: nat where
  "otxRetryDelay = 3"

definition otxDoRequest :: "http_reply \<Rightarrow> go_error + string" where
  "otxDoRequest reply =
     (case reply of
        TransportError err \<Rightarrow> Inl err
      | Reply status read \<Rightarrow>
          if status = 429 then Inl (OtherError ''otx rate limited (429)'')
          else if status \<ge> 500 then Inl (OtherError (''otx returned status '' @ Itoa status))
          else if status \<noteq> 200 then Inl (OtherError (''otx returned status '' @ Itoa status))
          else (case read of
                  Inl err \<Rightarrow> Inl (wrap_error ''otx read body: '' err)
                | Inr body \<Rightarrow> Inr (take otxMaxBody body)))"

definition otxFetch ::
  "world \<Rightarrow> context \<Rightarrow> string \<Rightarrow> string \<Rightarrow> (go_error + string) \<times> fetch_event list" where
  "otxFetch w ctx url userAgent =
     (case otxDoRequest (DefaultClient_Do w url 0) of
        Inr body \<Rightarrow> (Inr body, [Request url 0])
      | Inl err \<Rightarrow>
          if Contains (Error err) ''429'' then (Inl err, [Request url 0])
          else if ctx_Done ctx 0 then (Inl context_Canceled, [Request url 0])
          else (otxDoRequest (DefaultClient_Do w url 1),
                [Request url 0, Backoff otxRetryDelay, Request url 1]))"

fun otx_entries :: "string \<Rightarrow> string list \<Rightarrow> string list \<Rightarrow> string list" where
  "otx_entries domain [] hosts = hosts"
| "otx_entries domain (hostname # entries) hosts =
     (let host = ToLower (TrimSpace hostname) in
      if host = '''' then otx_entries domain entries hosts
      else if \<not> HasSuffix host (''.'' @ domain) \<and> host \<noteq> domain
        then otx_entries domain entries hosts
      else otx_entries domain entries (append_unseen hosts host))"

definition parseOTXResponse :: "world \<Rightarrow> string \<Rightarrow> string \<Rightarrow> go_error + string list" where
  "parseOTXResponse w body domain =
     (case Unmarshal_otx w body of
        Inl err \<Rightarrow> Inl (wrap_error ''otx JSON parse: '' err)
      | Inr entries \<Rightarrow> Inr (otx_entries domain entries []))"

definition OTXEnumerate ::
  "world \<Rightarrow> context \<Rightarrow> string \<Rightarrow> string \<Rightarrow> (go_error + string list) \<times> fetch_event list" where
  "OTXEnumerate w ctx domain userAgent =
     (let url = ''https://otx.alienvault.com/api/v1/indicators/domain/'' @ domain @ ''/passive_dns'' in
      case otxFetch w ctx url userAgent of
        (Inl err, evs) \<Rightarrow> (Inl (wrap_error (''otx fetch for '' @ domain @ '': '') err), evs)
      | (Inr body, evs) \<Rightarrow> (parseOTXResponse w body domain, evs))"

subsection \<open>DNS brute force\<close>

definition brute_body :: "world \<Rightarrow> string \<Rightarrow> string list \<Rightarrow> string list" where
  "brute_body w subdomain found =
     (case LookupHost w subdomain of
        Inl err \<Rightarrow> found
      | Inr ips \<Rightarrow> if length ips = 0 then found else found @ [ToLower subdomain])"

definition BruteEnumerate :: "world \<Rightarrow> context \<Rightarrow> string \<Rightarrow> int \<Rightarrow> go_error + string list" where
  "BruteEnumerate w ctx domain concurrency =
     (let words = Subdomains w in
      if length words = 0 then Inl (OtherError ''empty subdomain wordlist'')
      else Inr (run_workers concurrency ctx (map (\<lambda>word. word @ ''.'' @ domain) words)
                  (brute_body w) []))"


section \<open>internal/recon: the subdomain aggregator\<close>

text \<open>The calls a \<^verbatim>\<open>ProgressReporter\<close> receives, and the stage calls of the orchestrator.\<close>

datatype stage_name = Enumerator | Resolver | Scanner | Prober | Fingerprinter

datatype run_event = Stage nat nat string | Detail string | Warn string | Invoke stage_name

text \<open>
  The \<^verbatim>\<open>Enumerator\<close> struct. \<open>en_Progress\<close> tells whether its reporter is set (not
  \<^verbatim>\<open>nil\<close>).
\<close>

record Enumerator =
  en_UserAgent :: string
  en_Progress :: bool
  en_AXFR :: bool
  en_zoneTransfers :: "ZoneTransfer list"
  en_warnings :: "string list"

text \<open>
  The state the source goroutines share under the mutex: the map \<open>hostSources\<close> (an
  association list with distinct keys), the enumerator's fields, and the calls its
  reporter has received.
\<close>

record enum_state =
  es_hostSources :: "(string \<times> string list) list"
  es_zoneTransfers :: "ZoneTransfer list"
  es_warnings :: "string list"
  es_reported :: "run_event list"

text \<open>\<^verbatim>\<open>hostSources[h] = append(hostSources[h], name)\<close>\<close>

fun add_source :: "string \<Rightarrow> string \<Rightarrow> (string \<times> string list) list \<Rightarrow> (string \<times> string list) list" where
  "add_source name h [] = [(h, [name])]"
| "add_source name h ((k, sources) # m) =
     (if k = h then (k, sources @ [name]) # m else (k, sources) # add_source name h m)"

definition add_hosts ::
  "string \<Rightarrow> string list \<Rightarrow> (string \<times> string list) list \<Rightarrow> (string \<times> string list) list" where
  "add_hosts name hosts m = foldl (\<lambda>m h. add_source name h m) m hosts"

definition report :: "Enumerator \<Rightarrow> run_event \<Rightarrow> enum_state \<Rightarrow> enum_state" where
  "report e ev st = (if en_Progress e then st\<lparr>es_reported := es_reported st @ [ev]\<rparr> else st)"

definition count_success :: "ZoneTransfer list \<Rightarrow> nat" where
  "count_success transfers = length (filter zt_Success transfers)"

text \<open>\<^verbatim>\<open>a / b\<close> on Go integers truncates toward zero.\<close>

definition Quo :: "int \<Rightarrow> int \<Rightarrow> int" where
  "Quo a b = sgn a * sgn b * (\<bar>a\<bar> div \<bar>b\<bar>)"

datatype source = Crtsh | Brute | Hackertarget | OTX | Axfr

text \<open>One source goroutine, from its start to its last call of the reporter.\<close>

fun run_source ::
  "world \<Rightarrow> Enumerator \<Rightarrow> context \<Rightarrow> string \<Rightarrow> int \<Rightarrow> source \<Rightarrow> enum_state \<Rightarrow> enum_state" where
  "run_source w e ctx domain concurrency Crtsh st =
     (case fst (CrtshEnumerate w ctx domain (en_UserAgent e)) of
        Inl err \<Rightarrow> report e (Warn (''crt.sh: '' @ Error err)) st
      | Inr hosts \<Rightarrow>
          report e (Detail (''crt.sh: '' @ Itoa (int (length hosts)) @ '' subdomains''))
            (st\<lparr>es_hostSources := add_hosts ''crt.sh'' hosts (es_hostSources st)\<rparr>))"
| "run_source w e ctx domain concurrency Brute st =
     (let bruteConcurrency = (if Quo concurrency 2 < 1 then 1 else Quo concurrency 2) in
      case BruteEnumerate w ctx domain bruteConcurrency of
        Inl err \<Rightarrow> report e (Warn (''brute-force: '' @ Error err)) st
      | Inr hosts \<Rightarrow>
          report e (Detail (''brute-force: '' @ Itoa (int (length hosts)) @ '' subdomains''))
            (st\<lparr>es_hostSources := add_hosts ''brute'' hosts (es_hostSources st)\<rparr>))"
| "run_source w e ctx domain concurrency Hackertarget st =
     (case fst (HackertargetEnumerate w ctx domain (en_UserAgent e)) of
        Inl err \<Rightarrow>
          (let st1 = report e (Warn (''hackertarget: '' @ Error err)) st in
           st1\<lparr>es_warnings := es_warnings st1 @ [''hackertarget: '' @ Error err]\<rparr>)
      | Inr hosts \<Rightarrow>
          report e (Detail (''hackertarget: '' @ Itoa (int (length hosts)) @ '' subdomains''))
            (st\<lparr>es_hostSources := add_hosts ''hackertarget'' hosts (es_hostSources st)\<rparr>))"
| "run_source w e ctx domain concurrency OTX st =
     (case fst (OTXEnumerate w ctx domain (en_UserAgent e)) of
        Inl err \<Rightarrow>
          (let st1 = report e (Warn (''otx: '' @ Error err)) st in
           st1\<lparr>es_warnings := es_warnings st1 @ [''otx: '' @ Error err]\<rparr>)
      | Inr hosts \<Rightarrow>
          report e (Detail (''otx: '' @ Itoa (int (length hosts)) @ '' subdomains''))
            (st\<lparr>es_hostSources := add_hosts ''otx'' hosts (es_hostSources st)\<rparr>))"
| "run_source w e ctx domain concurrency Axfr st =
     (case AttemptZoneTransfers w ctx domain of
        (ztResult, Some err) \<Rightarrow>
          (let st1 = report e (Warn (''zone transfer: '' @ Error err)) st in
           st1\<lparr>es_warnings := es_warnings st1 @ [''zone transfer: '' @ Error err]\<rparr>)
      | (None, None) \<Rightarrow> st
      | (Some ztResult, None) \<Rightarrow>
          (let transfers = ztr_Transfers ztResult;
               successCount = count_success transfers;
               st1 = st\<lparr>es_zoneTransfers := transfers,
                        es_hostSources := add_hosts ''axfr'' (ztr_Hostnames ztResult) (es_hostSources st)\<rparr>;
               st2 = (if successCount > 0
                      then st1\<lparr>es_warnings := es_warnings st1 @
                             [''zone transfer enabled on '' @ Itoa (int successCount) @ '' of '' @
                              Itoa (int (length transfers)) @ '' nameservers'']\<rparr>
                      else st1)
           in report e (Detail (''zone transfer: '' @ Itoa (int (length transfers)) @
                                 '' nameservers tested, '' @ Itoa (int successCount) @ '' vulnerable''))
                st2))"

text \<open>The goroutines that \<^verbatim>\<open>Enumerate\<close> starts.\<close>

definition launched :: "Enumerator \<Rightarrow> source list" where
  "launched e = [Crtsh, Brute, Hackertarget, OTX] @ (if en_AXFR e then [Axfr] else [])"

fun deduplicateSources_from :: "string list \<Rightarrow> string list \<Rightarrow> string list" where
  "deduplicateSources_from seen [] = []"
| "deduplicateSources_from seen (s # ss) =
     (if s \<in> set seen then deduplicateSources_from seen ss
      else s # deduplicateSources_from (s # seen) ss)"

definition deduplicateSources :: "string list \<Rightarrow> string list" where
  "deduplicateSources ss = deduplicateSources_from [] ss"

text \<open>
  \<^verbatim>\<open>Enumerate\<close>. The goroutines run in parallel; \<open>sched\<close> is the order in which they
  take their turn, an arrangement of \<open>launched e\<close>. The conversion of the map sorts the
  entries by host, in the byte order of Go strings.
\<close>

definition Enumerate ::
  "world \<Rightarrow> Enumerator \<Rightarrow> context \<Rightarrow> string \<Rightarrow> int \<Rightarrow> source list
     \<Rightarrow> (Subdomain list \<times> go_error option) \<times> Enumerator \<times> run_event list" where
  "Enumerate w e ctx domain concurrency sched =
     (let st0 = \<lparr>es_hostSources = [(ToLower domain, [''root''])],
                 es_zoneTransfers = en_zoneTransfers e, es_warnings = en_warnings e,
                 es_reported = []\<rparr>;
          st = foldl (\<lambda>st src. run_source w e ctx domain concurrency src st) st0 sched;
          e' = e\<lparr>en_zoneTransfers := es_zoneTransfers st, en_warnings := es_warnings st\<rparr>;
          hostSources = es_hostSources st
      in if length hostSources = 0
         then ((([], Some (OtherError (''all subdomain sources failed for '' @ domain))), e', es_reported st))
         else ((sort_key sd_Host
                  (map (\<lambda>(host, sources). \<lparr>sd_Host = host, sd_Sources = deduplicateSources sources\<rparr>)
                     hostSources), None),
               e', es_reported st))"


section \<open>internal/engine: the orchestrator\<close>

record Summary =
  sum_SubdomainsFound :: nat
  sum_LiveHosts :: nat
  sum_OpenPortCount :: nat
  sum_HTTPServiceCount :: nat
  sum_TechCount :: nat
  sum_DanglingCNAMEs :: nat
  sum_ZoneTransferCount :: nat

text \<open>
  \<^verbatim>\<open>ScanResult\<close>. Times are instants in nanoseconds; \<open>res_Duration\<close> is the exact
  difference \<^verbatim>\<open>CompletedAt.Sub(StartedAt)\<close>, which the program stores converted to
  seconds in a \<^verbatim>\<open>float64\<close>.
\<close>

record ScanResult =
  res_Target :: string
  res_StartedAt :: int
  res_CompletedAt :: int
  res_Duration :: int
  res_Subdomains :: "Subdomain list"
  res_DNSRecords :: "DNSResult list"
  res_OpenPorts :: "PortResult list"
  res_HTTPServices :: "HTTPService list"
  res_DanglingCNAMEs :: "DanglingCNAME list"
  res_ZoneTransfers :: "ZoneTransfer list"
  res_Warnings :: "string list"
  res_Summary :: Summary

record Config =
  cfg_Target :: string
  cfg_Ports :: "int list"
  cfg_Timeout :: int
  cfg_Concurrency :: int
  cfg_UserAgent :: string

text \<open>
  The stage implementations handed to \<^verbatim>\<open>Run\<close>. They are objects with state of their
  own; \<open>'s\<close> is the joint state of the five, which every call may read and change. The two
  optional interfaces of the enumerator are \<open>None\<close> when its type does not implement them.
  A fingerprinter updates the elements of the slice in place: it returns the slice after
  the updates.
\<close>

record 's Stages =
  Enumerator_Enumerate :: "'s \<Rightarrow> context \<Rightarrow> string \<Rightarrow> int \<Rightarrow> (Subdomain list \<times> go_error option) \<times> 's"
  Enumerator_GetZoneTransfers :: "('s \<Rightarrow> ZoneTransfer list) option"
  Enumerator_GetWarnings :: "('s \<Rightarrow> string list) option"
  Resolver_Resolve ::
    "'s \<Rightarrow> context \<Rightarrow> string list \<Rightarrow> int \<Rightarrow> (DNSResult list \<times> DanglingCNAME list \<times> go_error option) \<times> 's"
  Scanner_Scan ::
    "'s \<Rightarrow> context \<Rightarrow> DNSResult list \<Rightarrow> int list \<Rightarrow> int \<Rightarrow> int \<Rightarrow> (PortResult list \<times> go_error option) \<times> 's"
  Prober_Probe ::
    "'s \<Rightarrow> context \<Rightarrow> PortResult list \<Rightarrow> int \<Rightarrow> int \<Rightarrow> (HTTPService list \<times> go_error option) \<times> 's"
  Fingerprinter_Fingerprint :: "'s \<Rightarrow> HTTPService list \<Rightarrow> HTTPService list \<times> 's"

definition totalStages :: nat where
  "totalStages = 5"

definition liveHostCount :: "DNSResult list \<Rightarrow> nat" where
  "liveHostCount dnsRecords = length (filter (\<lambda>r. length (dns_IPs r) > 0) dnsRecords)"

text \<open>\<^verbatim>\<open>buildSummary\<close>; the two sets are counted through their distinct elements.\<close>

definition buildSummary :: "ScanResult \<Rightarrow> Summary" where
  "buildSummary result =
     \<lparr>sum_SubdomainsFound = length (res_Subdomains result),
      sum_LiveHosts =
        length (remdups (map dns_Host (filter (\<lambda>r. length (dns_IPs r) > 0) (res_DNSRecords result)))),
      sum_OpenPortCount = length (res_OpenPorts result),
      sum_HTTPServiceCount = length (res_HTTPServices result),
      sum_TechCount =
        length (remdups (map tech_Name (concat (map svc_Technologies (res_HTTPServices result))))),
      sum_DanglingCNAMEs = length (res_DanglingCNAMEs result),
      sum_ZoneTransferCount = length (filter zt_Success (res_ZoneTransfers result))\<rparr>"

text \<open>The three statements before each successful \<^verbatim>\<open>return result, nil\<close>.\<close>

definition complete :: "int \<Rightarrow> ScanResult \<Rightarrow> ScanResult" where
  "complete now result =
     (let r1 = result\<lparr>res_CompletedAt := now\<rparr>;
          r2 = r1\<lparr>res_Duration := res_CompletedAt r1 - res_StartedAt r1\<rparr>
      in r2\<lparr>res_Summary := buildSummary r2\<rparr>)"

text \<open>
  \<^verbatim>\<open>Run\<close>, cut at the stage calls. Beside the result and the error it returns the calls
  it has made, in order, on the reporter and on the stages, and the stages' final state.
  \<open>started\<close> and \<open>now\<close> are the two readings of the clock a run takes.
\<close>

definition run_probe ::
  "context \<Rightarrow> Config \<Rightarrow> 's Stages \<Rightarrow> int \<Rightarrow> ScanResult \<Rightarrow> PortResult list \<Rightarrow> run_event list \<Rightarrow> 's
     \<Rightarrow> (ScanResult option \<times> go_error option) \<times> run_event list \<times> 's" where
  "run_probe ctx cfg stages now result openPorts evs s =
     (let httpConcurrency = (if Quo (cfg_Concurrency cfg) 2 < 1 then 1 else Quo (cfg_Concurrency cfg) 2);
          evs1 = evs @ [Stage 4 totalStages (''Probing '' @ Itoa (int (length openPorts)) @
                          '' open ports for HTTP services...''), Invoke Prober]
      in case Prober_Probe stages s ctx openPorts httpConcurrency (cfg_Timeout cfg) of
        ((services, err), s1) \<Rightarrow>
          (let evs2 = evs1 @ (case err of None \<Rightarrow> []
                               | Some e \<Rightarrow> [Warn (''HTTP probe error: '' @ Error e)]);
               result1 = result\<lparr>res_HTTPServices := services\<rparr>;
               evs3 = evs2 @ [Detail (''Found '' @ Itoa (int (length services)) @ '' HTTP services'')]
           in if length services > 0
              then (case Fingerprinter_Fingerprint stages s1 services of
                      (services', s2) \<Rightarrow>
                        (let techCount = sum_list (map (\<lambda>svc. length (svc_Technologies svc)) services')
                         in ((Some (complete now (result1\<lparr>res_HTTPServices := services'\<rparr>)), None),
                             evs3 @ [Stage 5 totalStages ''Fingerprinting technologies...'',
                                     Invoke Fingerprinter,
                                     Detail (''Identified '' @ Itoa (int techCount) @
                                             '' technology instances'')],
                             s2)))
              else ((Some (complete now result1), None), evs3, s1)))"

definition run_scan ::
  "context \<Rightarrow> Config \<Rightarrow> 's Stages \<Rightarrow> int \<Rightarrow> ScanResult \<Rightarrow> DNSResult list \<Rightarrow> run_event list \<Rightarrow> 's
     \<Rightarrow> (ScanResult option \<times> go_error option) \<times> run_event list \<times> 's" where
  "run_scan ctx cfg stages now result dnsRecords evs s =
     (let evs1 = evs @ [Stage 3 totalStages (''Scanning '' @ Itoa (int (length (cfg_Ports cfg))) @
                          '' ports across '' @ Itoa (int (liveHostCount dnsRecords)) @ '' hosts...''),
                        Invoke Scanner]
      in case Scanner_Scan stages s ctx dnsRecords (cfg_Ports cfg) (cfg_Concurrency cfg) (cfg_Timeout cfg) of
        ((openPorts, err), s1) \<Rightarrow>
          (let evs2 = evs1 @ (case err of None \<Rightarrow> []
                               | Some e \<Rightarrow> [Warn (''Port scan error: '' @ Error e)]);
               result1 = result\<lparr>res_OpenPorts := openPorts\<rparr>;
               evs3 = evs2 @ [Detail (''Found '' @ Itoa (int (length openPorts)) @ '' open ports'')]
           in if length openPorts = 0
              then ((Some (complete now result1), None),
                    evs3 @ [Warn ''No open ports found, skipping HTTP probe''], s1)
              else run_probe ctx cfg stages now result1 openPorts evs3 s1))"

definition run_resolve ::
  "context \<Rightarrow> Config \<Rightarrow> 's Stages \<Rightarrow> int \<Rightarrow> ScanResult \<Rightarrow> Subdomain list \<Rightarrow> run_event list \<Rightarrow> 's
     \<Rightarrow> (ScanResult option \<times> go_error option) \<times> run_event list \<times> 's" where
  "run_resolve ctx cfg stages now result subdomains evs s =
     (let hosts = map sd_Host subdomains;
          evs1 = evs @ [Stage 2 totalStages ''Resolving DNS records...'', Invoke Resolver]
      in case Resolver_Resolve stages s ctx hosts (cfg_Concurrency cfg) of
        ((dnsRecords, danglingCNAMEs, err), s1) \<Rightarrow>
          (let evs2 = evs1 @ (case err of None \<Rightarrow> []
                               | Some e \<Rightarrow> [Warn (''DNS resolution error: '' @ Error e)]);
               result1 = result\<lparr>res_DNSRecords := dnsRecords, res_DanglingCNAMEs := danglingCNAMEs\<rparr>;
               evs3 = evs2 @ [Detail (Itoa (int (liveHostCount dnsRecords)) @ '' hosts resolved, '' @
                                Itoa (int (length danglingCNAMEs)) @ '' dangling CNAMEs detected'')]
           in if liveHostCount dnsRecords = 0
              then ((Some (complete now result1), None),
                    evs3 @ [Warn ''No live hosts found, skipping port scan and HTTP probe''], s1)
              else run_scan ctx cfg stages now result1 dnsRecords evs3 s1))"

definition Run ::
  "context \<Rightarrow> Config \<Rightarrow> 's Stages \<Rightarrow> 's \<Rightarrow> int \<Rightarrow> int
     \<Rightarrow> (ScanResult option \<times> go_error option) \<times> run_event list \<times> 's" where
  "Run ctx cfg stages s started now =
     (let result = \<lparr>res_Target = cfg_Target cfg, res_StartedAt = started, res_CompletedAt = 0,
                     res_Duration = 0, res_Subdomains = [], res_DNSRecords = [], res_OpenPorts = [],
                     res_HTTPServices = [], res_DanglingCNAMEs = [], res_ZoneTransfers = [],
                     res_Warnings = [],
                     res_Summary = \<lparr>sum_SubdomainsFound = 0, sum_LiveHosts = 0, sum_OpenPortCount = 0,
                                     sum_HTTPServiceCount = 0, sum_TechCount = 0, sum_DanglingCNAMEs = 0,
                                     sum_ZoneTransferCount = 0\<rparr>\<rparr>;
          evs = [Stage 1 totalStages ''Enumerating subdomains...'', Invoke Enumerator]
      in case Enumerator_Enumerate stages s ctx (cfg_Target cfg) (cfg_Concurrency cfg) of
        ((subdomains, err), s1) \<Rightarrow>
          (case err of
             Some e \<Rightarrow> ((None, Some (wrap_error ''subdomain enumeration failed: '' e)), evs, s1)
           | None \<Rightarrow>
               if length subdomains = 0
               then ((None, Some (OtherError (''no subdomains discovered for '' @ cfg_Target cfg))), evs, s1)
               else
                 (let result1 = result\<lparr>res_Subdomains := subdomains\<rparr>;
                      evs1 = evs @ [Detail (''Found '' @ Itoa (int (length subdomains)) @ '' unique subdomains'')];
                      result2 = (case Enumerator_GetZoneTransfers stages of
                                   None \<Rightarrow> result1
                                 | Some get \<Rightarrow> result1\<lparr>res_ZoneTransfers := get s1\<rparr>);
                      result3 = (case Enumerator_GetWarnings stages of
                                   None \<Rightarrow> result2
                                 | Some get \<Rightarrow> result2\<lparr>res_Warnings := get s1\<rparr>)
                  in run_resolve ctx cfg stages now result3 subdomains evs1 s1)))"

section \<open>cmd/sweep: the stages of package recon\<close>

text \<open>
  The state of the stage objects that \<^verbatim>\<open>main\<close> wires up: the enumerator, the calls its
  reporter has received, and the prober with its user agent and the probe data that the
  fingerprinter reads through its reference to the prober.
\<close>

record recon_state =
  rs_Enumerator :: Enumerator
  rs_reported :: "run_event list"
  rs_Prober_UserAgent :: string
  rs_Prober_ProbeData :: "string \<rightharpoonup> probeData"

definition recon_Probe ::
  "world \<Rightarrow> recon_state \<Rightarrow> context \<Rightarrow> PortResult list \<Rightarrow> int \<Rightarrow> int
     \<Rightarrow> (HTTPService list \<times> go_error option) \<times> recon_state" where
  "recon_Probe w s ctx targets concurrency timeout =
     (case HTTPProbe w ctx targets concurrency timeout (rs_Prober_UserAgent s) of
        (result, Some err) \<Rightarrow> (([], Some err), s)
      | (result, None) \<Rightarrow>
          ((hp_Services result, None), s\<lparr>rs_Prober_ProbeData := hp_ProbeData result\<rparr>))"

definition recon_stages :: "world \<Rightarrow> source list \<Rightarrow> recon_state Stages" where
  "recon_stages w sched =
     \<lparr>Enumerator_Enumerate = (\<lambda>s ctx domain concurrency.
         case Enumerate w (rs_Enumerator s) ctx domain concurrency sched of
           (r, e', reported) \<Rightarrow> (r, s\<lparr>rs_Enumerator := e', rs_reported := rs_reported s @ reported\<rparr>)),
      Enumerator_GetZoneTransfers = Some (\<lambda>s. en_zoneTransfers (rs_Enumerator s)),
      Enumerator_GetWarnings = Some (\<lambda>s. en_warnings (rs_Enumerator s)),
      Resolver_Resolve = (\<lambda>s ctx hosts concurrency. (DNSResolve w ctx hosts concurrency, s)),
      Scanner_Scan = (\<lambda>s ctx dnsRecords ports concurrency timeout.
         (PortScan w ctx dnsRecords ports concurrency timeout, s)),
      Prober_Probe = recon_Probe w,
      Fingerprinter_Fingerprint = (\<lambda>s services.
         (FingerprintServices w services (rs_Prober_ProbeData s), s))\<rparr>"


section \<open>A concrete environment\<close>

text \<open>
  One small world on which the statements below are run: the zone \<open>example.com\<close> with a
  live apex, a live \<open>www\<close>, three aliases whose targets are gone, two nameservers of
  which the first allows a transfer, an HTTPS listener on the apex and a plain listener
  on \<open>www\<close>.
\<close>

definition example_nginx_rule :: FingerprintRule where
  "example_nginx_rule =
     \<lparr>rule_Name = ''nginx'', rule_Category = ''web-server'',
      rule_Headers = [\<lparr>hm_Name = ''Server'', hm_Pattern = ''nginx'', hm_regex = None\<rparr>],
      rule_Body = [], rule_Cookies = []\<rparr>"

definition example_cloudflare_rule :: FingerprintRule where
  "example_cloudflare_rule =
     \<lparr>rule_Name = ''Cloudflare'', rule_Category = ''cdn-waf'',
      rule_Headers = [\<lparr>hm_Name = ''CF-RAY'', hm_Pattern = '''', hm_regex = None\<rparr>],
      rule_Body = [], rule_Cookies = [''__cfduid'']\<rparr>"

definition example_wordpress_rule :: FingerprintRule where
  "example_wordpress_rule =
     \<lparr>rule_Name = ''WordPress'', rule_Category = ''cms'',
      rule_Headers = [], rule_Body = [''/wp-content/'', ''/WP-includes/''], rule_Cookies = []\<rparr>"

definition example_world :: world where
  "example_world =
     \<lparr>LookupCNAME = (\<lambda>host.
        if host = ''old.example.com'' then Inr ''Old-App.herokuapp.com.''
        else if host = ''docs.example.com'' then Inr ''example.github.io.''
        else if host = ''cdn.example.com'' then Inr ''cdn.someother.net.''
        else if host = ''example.com'' then Inr ''example.com.''
        else Inl (DNSError True (''lookup '' @ host @ '': no such host''))),
      LookupHost = (\<lambda>host.
        if host = ''example.com'' then Inr [''93.184.216.34'', ''93.184.216.34'']
        else if host = ''www.example.com'' then Inr [''93.184.216.35'']
        else if host = ''docs.example.com''
          then Inl (DNSError False (''lookup '' @ host @ '': server misbehaving''))
        else Inl (DNSError True (''lookup '' @ host @ '': no such host''))),
      LookupNS = (\<lambda>domain.
        if domain = ''example.com'' then Inr [''ns1.example.com.'', ''ns2.example.com.'']
        else Inl (DNSError True (''lookup '' @ domain @ '': no such host''))),
      Transfer_In = (\<lambda>domain nameserver.
        if nameserver = ''ns1.example.com''
        then Inr [Inr [''example.com.'', ''WWW.example.com.'', ''mail.example.com.'', ''www.example.com.'']]
        else Inl (OtherError ''dns: bad xfr rcode: 5'')),
      DialContext = (\<lambda>addr.
        if addr = ''93.184.216.34:443'' \<or> addr = ''93.184.216.35:80'' then None
        else Some (OtherError (''dial tcp '' @ addr @ '': connect: connection refused''))),
      client_Do = (\<lambda>url.
        if url = ''https://example.com:443''
        then Inr \<lparr>resp_StatusCode = 200,
                  resp_Header = [(''Server'', [''nginx/1.24.0'']), (''Cf-Ray'', [''''])],
                  resp_Body = ''<html><title> Example </title></html>'',
                  resp_ContentLength = 37, resp_Cookies = []\<rparr>
        else if url = ''http://example.com:443''
        then Inr \<lparr>resp_StatusCode = 400, resp_Header = [], resp_Body = ''plain HTTP sent to HTTPS port'',
                  resp_ContentLength = 29, resp_Cookies = []\<rparr>
        else if url = ''http://www.example.com:80''
        then Inr \<lparr>resp_StatusCode = 400, resp_Header = [(''Cf-Ray'', [''8a1b2c3d''])],
                  resp_Body = ''Bad Request /wp-content/'', resp_ContentLength = 24,
                  resp_Cookies = [''PHPSESSID'']\<rparr>
        else Inl (OtherError ''EOF'')),
      DefaultClient_Do = (\<lambda>url n.
        if url = ''https://crt.sh/?q=%25.example.com&output=json''
        then (if n = 0 then Reply 404 (Inr '''') else Reply 200 (Inr ''crt.sh body''))
        else if url = ''https://api.hackertarget.com/hostsearch/?q=example.com''
        then Reply 200 (Inr (''www.example.com,93.184.216.35'' @ [CHR 0x0A] @
                             ''API.example.com,93.184.216.36'' @ [CHR 0x0A]))
        else Reply 429 (Inr '''')),
      Subdomains = [''www'', ''mail''],
      Unmarshal_crtsh = (\<lambda>body.
        if body = ''crt.sh body''
        then Inr [''www.example.com'', ''*.example.com'' @ [CHR 0x0A] @ ''Dev.Example.com'']
        else Inl (OtherError ''unexpected end of JSON input'')),
      Unmarshal_otx = (\<lambda>body. Inl (OtherError ''unexpected end of JSON input'')),
      FindTitle = (\<lambda>body. if body = ''<html><title> Example </title></html>'' then Some ''Example '' else None),
      Unmarshal_rules = (None, [example_nginx_rule, example_cloudflare_rule, example_wordpress_rule]),
      regexp_Compile = (\<lambda>pattern.
        if pattern = ''(?i)nginx'' then Some (\<lambda>s. Contains (ToLower s) ''nginx'') else None)\<rparr>"

definition example_hosts :: "string list" where
  "example_hosts = [''cdn.example.com'', ''docs.example.com'', ''example.com'', ''old.example.com'']"

text \<open>The candidates reported for one host, in a result of \<open>DNSResolve\<close>.\<close>

definition danglings_of ::
  "DNSResult list \<times> DanglingCNAME list \<times> go_error option \<Rightarrow> string \<Rightarrow> DanglingCNAME list" where
  "danglings_of out host = filter (\<lambda>d. dc_Host d = host) (fst (snd out))"


text \<open>The URL that \<open>probePort\<close> builds for a scheme and an open port.\<close>

definition probe_url :: "string \<Rightarrow> PortResult \<Rightarrow> string" where
  "probe_url scheme pr = scheme @ ''://'' @ pr_Host pr @ '':'' @ Itoa (pr_Port pr)"

text \<open>The services of an \<open>HTTPProbe\<close> outcome.\<close>

definition services_of :: "HTTPProbeResult \<times> go_error option \<Rightarrow> HTTPService list" where
  "services_of out = hp_Services (fst out)"

definition example_port_tls :: PortResult where
  "example_port_tls = \<lparr>pr_Host = ''example.com'', pr_IP = ''93.184.216.34'', pr_Port = 443\<rparr>"

definition example_port_plain :: PortResult where
  "example_port_plain = \<lparr>pr_Host = ''www.example.com'', pr_IP = ''93.184.216.35'', pr_Port = 80\<rparr>"

definition example_port_silent :: PortResult where
  "example_port_silent = \<lparr>pr_Host = ''www.example.com'', pr_IP = ''93.184.216.35'', pr_Port = 8443\<rparr>"

definition example_ports :: "PortResult list" where
  "example_ports = [example_port_tls, example_port_plain, example_port_silent]"

text \<open>
  The warnings by which \<open>Run\<close> reports that a later stage returned an error (the
  stage-degraded path).
\<close>

definition stage_error_warning :: "run_event \<Rightarrow> bool" where
  "stage_error_warning ev =
     (case ev of
        Warn m \<Rightarrow> prefix ''DNS resolution error: '' m \<or> prefix ''Port scan error: '' m \<or>
                  prefix ''HTTP probe error: '' m
      | _ \<Rightarrow> False)"

text \<open>The address a scan target is dialled at, and whether the dialer connects to it.\<close>

definition dial_addr :: "string \<Rightarrow> int \<Rightarrow> string" where
  "dial_addr ip port = ip @ '':'' @ Itoa port"

definition connects :: "world \<Rightarrow> string \<times> string \<times> int \<Rightarrow> bool" where
  "connects w t = (case t of (host, ip, port) \<Rightarrow> DialContext w (dial_addr ip port) = None)"

definition resolves :: "world \<Rightarrow> string \<Rightarrow> bool" where
  "resolves w host = (case LookupHost w host of Inl err \<Rightarrow> False | Inr ips \<Rightarrow> True)"

definition example_config :: Config where
  "example_config =
     \<lparr>cfg_Target = ''Example.com'', cfg_Ports = [80, 443], cfg_Timeout = 2000000000,
      cfg_Concurrency = 10, cfg_UserAgent = ''sweep''\<rparr>"

definition example_state :: recon_state where
  "example_state =
     \<lparr>rs_Enumerator = \<lparr>en_UserAgent = ''sweep'', en_Progress = True, en_AXFR = True,
                        en_zoneTransfers = [], en_warnings = []\<rparr>,
      rs_reported = [], rs_Prober_UserAgent = ''sweep'', rs_Prober_ProbeData = Map.empty\<rparr>"

definition example_sched :: "source list" where
  "example_sched = [Brute, OTX, Crtsh, Axfr, Hackertarget]"

definition example_records :: "DNSResult list" where
  "example_records =
     [\<lparr>dns_Host = ''example.com'', dns_IPs = [''93.184.216.34''], dns_CNAME = ''''\<rparr>,
      \<lparr>dns_Host = ''gone.example.com'', dns_IPs = [], dns_CNAME = ''''\<rparr>,
      \<lparr>dns_Host = ''www.example.com'', dns_IPs = [''93.184.216.35'', ''93.184.216.36''], dns_CNAME = ''''\<rparr>]"

text \<open>The open port recorded for a scan target.\<close>

definition open_port :: "string \<times> string \<times> int \<Rightarrow> PortResult" where
  "open_port t = (case t of (host, ip, port) \<Rightarrow> \<lparr>pr_Host = host, pr_IP = ip, pr_Port = port\<rparr>)"

text \<open>
  Stages as the tests of package engine mock them: each call returns fixed values. Here
  the enumerator finds one host, the resolver resolves none, and the scanner would
  report a port if it were called.
\<close>

definition mock_stages :: "unit Stages" where
  "mock_stages =
     \<lparr>Enumerator_Enumerate = (\<lambda>s ctx domain concurrency.
         (([\<lparr>sd_Host = ''dead.example.com'', sd_Sources = [''brute'']\<rparr>], None), s)),
      Enumerator_GetZoneTransfers = Some (\<lambda>s. []),
      Enumerator_GetWarnings = Some (\<lambda>s. [''otx: otx rate limited (429)'']),
      Resolver_Resolve = (\<lambda>s ctx hosts concurrency.
         (([\<lparr>dns_Host = ''dead.example.com'', dns_IPs = [], dns_CNAME = ''dead.herokuapp.com''\<rparr>],
           [\<lparr>dc_Host = ''dead.example.com'', dc_CNAME = ''dead.herokuapp.com'', dc_Status = ''NXDOMAIN''\<rparr>],
           None), s)),
      Scanner_Scan = (\<lambda>s ctx dnsRecords ports concurrency timeout.
         (([\<lparr>pr_Host = ''should-not-be-called'', pr_IP = ''0.0.0.0'', pr_Port = 80\<rparr>], None), s)),
      Prober_Probe = (\<lambda>s ctx targets concurrency timeout. (([], None), s)),
      Fingerprinter_Fingerprint = (\<lambda>s services. (services, s))\<rparr>"

text \<open>
  The name under which a source is recorded, and the hosts a source contributes in one
  invocation of \<open>Enumerate\<close> (\<open>None\<close> when it returns an error and contributes none).
\<close>

fun source_name :: "source \<Rightarrow> string" where
  "source_name Crtsh = ''crt.sh''"
| "source_name Brute = ''brute''"
| "source_name Hackertarget = ''hackertarget''"
| "source_name OTX = ''otx''"
| "source_name Axfr = ''axfr''"

fun source_hosts ::
  "world \<Rightarrow> Enumerator \<Rightarrow> context \<Rightarrow> string \<Rightarrow> int \<Rightarrow> source \<Rightarrow> string list option" where
  "source_hosts w e ctx domain concurrency Crtsh =
     (case fst (CrtshEnumerate w ctx domain (en_UserAgent e)) of
        Inl err \<Rightarrow> None | Inr hosts \<Rightarrow> Some hosts)"
| "source_hosts w e ctx domain concurrency Brute =
     (case BruteEnumerate w ctx domain (if Quo concurrency 2 < 1 then 1 else Quo concurrency 2) of
        Inl err \<Rightarrow> None | Inr hosts \<Rightarrow> Some hosts)"
| "source_hosts w e ctx domain concurrency Hackertarget =
     (case fst (HackertargetEnumerate w ctx domain (en_UserAgent e)) of
        Inl err \<Rightarrow> None | Inr hosts \<Rightarrow> Some hosts)"
| "source_hosts w e ctx domain concurrency OTX =
     (case fst (OTXEnumerate w ctx domain (en_UserAgent e)) of
        Inl err \<Rightarrow> None | Inr hosts \<Rightarrow> Some hosts)"
| "source_hosts w e ctx domain concurrency Axfr =
     (case AttemptZoneTransfers w ctx domain of
        (Some ztResult, None) \<Rightarrow> Some (ztr_Hostnames ztResult)
      | _ \<Rightarrow> None)"

text \<open>The subdomains of an \<open>Enumerate\<close> outcome.\<close>

definition subdomains_of ::
  "(Subdomain list \<times> go_error option) \<times> Enumerator \<times> run_event list \<Rightarrow> Subdomain list" where
  "subdomains_of out = fst (fst out)"

text \<open>
  The invariant of the map \<open>hostSources\<close> (distinct keys, no empty source list) and the
  sources recorded for a host.
\<close>

definition host_map_ok :: "(string \<times> string list) list \<Rightarrow> bool" where
  "host_map_ok m \<longleftrightarrow> distinct (map fst m) \<and> (\<forall>kv \<in> set m. snd kv \<noteq> [])"

definition sources_of :: "(string \<times> string list) list \<Rightarrow> string \<Rightarrow> string set" where
  "sources_of m h = (case map_of m h of None \<Rightarrow> {} | Some ss \<Rightarrow> set ss)"

text \<open>The map with which \<open>Enumerate\<close> ends, and its conversion.\<close>

definition final_hostSources ::
  "world \<Rightarrow> Enumerator \<Rightarrow> context \<Rightarrow> string \<Rightarrow> int \<Rightarrow> source list \<Rightarrow> (string \<times> string list) list" where
  "final_hostSources w e ctx domain concurrency sched =
     es_hostSources (foldl (\<lambda>st src. run_source w e ctx domain concurrency src st)
        \<lparr>es_hostSources = [(ToLower domain, [''root''])],
         es_zoneTransfers = en_zoneTransfers e, es_warnings = en_warnings e,
         es_reported = []\<rparr> sched)"

text \<open>
  A world in which nothing answers, as under a cancelled context: every lookup, transfer,
  connection and request fails.
\<close>

definition failing_world :: world where
  "failing_world =
     \<lparr>LookupCNAME = (\<lambda>host. Inl (DNSError False (''lookup '' @ host @ '': operation was canceled''))),
      LookupHost = (\<lambda>host. Inl (DNSError False (''lookup '' @ host @ '': operation was canceled''))),
      LookupNS = (\<lambda>domain. Inl (DNSError False (''lookup '' @ domain @ '': operation was canceled''))),
      Transfer_In = (\<lambda>domain nameserver. Inl (OtherError ''dial tcp: operation was canceled'')),
      DialContext = (\<lambda>addr. Some (OtherError (''dial tcp '' @ addr @ '': operation was canceled''))),
      client_Do = (\<lambda>url. Inl (OtherError ''context canceled'')),
      DefaultClient_Do = (\<lambda>url n. TransportError (OtherError ''context canceled'')),
      Subdomains = [''www'', ''mail''],
      Unmarshal_crtsh = (\<lambda>body. Inl (OtherError ''unexpected end of JSON input'')),
      Unmarshal_otx = (\<lambda>body. Inl (OtherError ''unexpected end of JSON input'')),
      FindTitle = (\<lambda>body. None),
      Unmarshal_rules = (None, []),
      regexp_Compile = (\<lambda>pattern. None)\<rparr>"

text \<open>The mock of the engine's cancellation test: the enumerator reports the cancellation.\<close>

definition cancelled_mock_stages :: "unit Stages" where
  "cancelled_mock_stages =
     mock_stages\<lparr>Enumerator_Enumerate := (\<lambda>s ctx domain concurrency. (([], Some context_Canceled), s))\<rparr>"

text \<open>A string without an upper-case letter: none of its bytes lies in \<open>A\<close>..\<open>Z\<close>.\<close>

definition lower_cased :: "string \<Rightarrow> bool" where
  "lower_cased s \<longleftrightarrow> (\<forall>c \<in> set s. \<not> (CHR ''A'' \<le> c \<and> c \<le> CHR ''Z''))"

text \<open>The example world with a server that answers every request of a source with 404.\<close>

definition not_found_world :: world where
  "not_found_world = example_world\<lparr>DefaultClient_Do := (\<lambda>url n. Reply 404 (Inr ''''))\<rparr>"

text \<open>The technology record of a rule.\<close>

definition technology_of :: "FingerprintRule \<Rightarrow> Technology" where
  "technology_of r = \<lparr>tech_Name = rule_Name r, tech_Category = rule_Category r\<rparr>"

text \<open>
  The probe data that \<open>probeURL\<close> builds from the two responses of the example world:
  the first carries the header \<open>Cf-Ray\<close> with an empty value.
\<close>

definition example_tls_data :: probeData where
  "example_tls_data =
     \<lparr>pd_headers = [''server'' \<mapsto> ''nginx/1.24.0'', ''cf-ray'' \<mapsto> ''''],
      pd_body = ''<html><title> Example </title></html>'', pd_cookies = []\<rparr>"

definition example_plain_data :: probeData where
  "example_plain_data =
     \<lparr>pd_headers = [''cf-ray'' \<mapsto> ''8a1b2c3d''],
      pd_body = ''Bad Request /wp-content/'', pd_cookies = [''PHPSESSID'']\<rparr>"

definition example_plain_service :: HTTPService where
  "example_plain_service =
     \<lparr>svc_URL = ''http://www.example.com:80'', svc_Host = ''www.example.com'',
      svc_IP = ''93.184.216.35'', svc_Port = 80, svc_Scheme = ''http'', svc_StatusCode = 400,
      svc_Title = '''', svc_Server = '''', svc_ContentLength = 24, svc_Technologies = []\<rparr>"

text \<open>
  The entry that \<open>AttemptZoneTransfers\<close> records for a nameserver it attempts, and the
  number of nameservers it attempts before it finds the context cancelled.
\<close>

definition transfer_entry :: "world \<Rightarrow> string \<Rightarrow> string \<Rightarrow> ZoneTransfer" where
  "transfer_entry w domain ns =
     (case attemptAXFR w domain (TrimSuffix ns ''.'') of
        Inl err \<Rightarrow> \<lparr>zt_Nameserver = TrimSuffix ns ''.'', zt_Success = False, zt_Records = 0\<rparr>
      | Inr hostnames \<Rightarrow>
          \<lparr>zt_Nameserver = TrimSuffix ns ''.'', zt_Success = True, zt_Records = length hostnames\<rparr>)"

fun attempted_from :: "context \<Rightarrow> nat \<Rightarrow> string list \<Rightarrow> nat" where
  "attempted_from Background k nameservers = length nameservers"
| "attempted_from (CancelledFrom n) k nameservers = min (n - k) (length nameservers)"

definition attempted :: "context \<Rightarrow> string list \<Rightarrow> nat" where
  "attempted ctx nameservers = attempted_from ctx 0 nameservers"


section \<open>Properties\<close>


subsection \<open>The worker pool and the resolver\<close>


lemma worker_loop_take:
  "\<exists>n. worker_loop ctx k work body s = fold body (take n work) s"
proof (induction work arbitrary: k s)
  case Nil
  show ?case by simp
next
  case (Cons item work)
  show ?case
  proof (cases "ctx_Done ctx k")
    case True
    then have "worker_loop ctx k (item # work) body s = fold body (take 0 (item # work)) s" by simp
    then show ?thesis by blast
  next
    case False
    from Cons.IH [of "Suc k" "body item s"] obtain n
      where "worker_loop ctx (Suc k) work body (body item s) = fold body (take n work) (body item s)"
      by blast
    with False have "worker_loop ctx k (item # work) body s = fold body (take (Suc n) (item # work)) s"
      by simp
    then show ?thesis by blast
  qed
qed

lemma worker_loop_Background: "worker_loop Background k work body s = fold body work s"
  by (induction work arbitrary: k s) simp_all

lemma run_workers_take:
  "\<exists>n. run_workers concurrency ctx work body s = fold body (take n work) s"
proof (cases "concurrency \<le> 0")
  case True
  then have "run_workers concurrency ctx work body s = fold body (take 0 work) s"
    by (simp add: run_workers_def)
  then show ?thesis by blast
next
  case False
  then show ?thesis using worker_loop_take [of ctx 0 work body s] by (simp add: run_workers_def)
qed

lemma run_workers_Background:
  "0 < concurrency \<Longrightarrow> run_workers concurrency Background work body s = fold body work s"
  by (simp add: run_workers_def worker_loop_Background)

lemma run_workers_cancelled:
  "run_workers concurrency (CancelledFrom 0) work body s = s"
  by (cases work) (simp_all add: run_workers_def)

lemma fold_resolve_body:
  "fold (resolve_body w) hosts acc =
     (fst acc @ List.map_filter (\<lambda>h. fst (resolve_host w h)) hosts,
      snd acc @ List.map_filter (\<lambda>h. snd (resolve_host w h)) hosts)"
  by (induction hosts arbitrary: acc)
     (auto simp: resolve_body_def List.map_filter_simps split: prod.splits option.splits)

lemma DNSResolve_take:
  "\<exists>n. DNSResolve w ctx hosts concurrency =
     (List.map_filter (\<lambda>h. fst (resolve_host w h)) (take n hosts),
      List.map_filter (\<lambda>h. snd (resolve_host w h)) (take n hosts), None)"
proof -
  obtain n where "run_workers concurrency ctx hosts (resolve_body w) ([], []) =
      fold (resolve_body w) (take n hosts) ([], [])"
    using run_workers_take [of concurrency ctx hosts "resolve_body w" "([], [])"] by blast
  then have "DNSResolve w ctx hosts concurrency =
     (List.map_filter (\<lambda>h. fst (resolve_host w h)) (take n hosts),
      List.map_filter (\<lambda>h. snd (resolve_host w h)) (take n hosts), None)"
    by (simp add: DNSResolve_def fold_resolve_body)
  then show ?thesis by blast
qed

lemma DNSResolve_Background:
  "0 < concurrency \<Longrightarrow> DNSResolve w Background hosts concurrency =
     (List.map_filter (\<lambda>h. fst (resolve_host w h)) hosts,
      List.map_filter (\<lambda>h. snd (resolve_host w h)) hosts, None)"
  by (simp add: DNSResolve_def run_workers_Background fold_resolve_body)

lemma resolve_host_dangling_Host:
  "snd (resolve_host w h) = Some d \<Longrightarrow> dc_Host d = h"
  by (auto simp: resolve_host_def checkDangling_def Let_def split: sum.splits if_splits)

lemma filter_key_map_filter_none:
  assumes key: "\<And>x d. f x = Some d \<Longrightarrow> key d = x"
    and h: "h \<notin> set xs \<or> f h = None"
  shows "filter (\<lambda>d. key d = h) (List.map_filter f xs) = []"
proof (rule filter_empty_conv [THEN iffD2], rule ballI)
  fix d assume "d \<in> set (List.map_filter f xs)"
  then obtain y where y: "y \<in> set xs" "f y = Some d" by (auto simp: List.map_filter_def)
  with key have "key d = y" by simp
  with y h show "\<not> key d = h" by auto
qed

lemma filter_key_map_filter_one:
  assumes key: "\<And>x d. f x = Some d \<Longrightarrow> key d = x"
  shows "distinct xs \<Longrightarrow> h \<in> set xs \<Longrightarrow> f h = Some d0 \<Longrightarrow>
    filter (\<lambda>d. key d = h) (List.map_filter f xs) = [d0]"
proof (induction xs)
  case Nil then show ?case by simp
next
  case (Cons x xs)
  show ?case
  proof (cases "x = h")
    case True
    with Cons.prems have "h \<notin> set xs" by simp
    then have "filter (\<lambda>d. key d = h) (List.map_filter f xs) = []"
      using filter_key_map_filter_none [of f key h xs] key by blast
    moreover from key Cons.prems have "key d0 = h" by simp
    ultimately show ?thesis using True Cons.prems by (simp add: List.map_filter_simps)
  next
    case False
    with Cons have "filter (\<lambda>d. key d = h) (List.map_filter f xs) = [d0]" by auto
    moreover have "\<And>d. f x = Some d \<Longrightarrow> key d \<noteq> h" using key False by auto
    ultimately show ?thesis by (auto simp add: List.map_filter_simps split: option.splits)
  qed
qed

lemma checkDangling_DNSError:
  "matchesPattern (ToLower cname) \<Longrightarrow>
   checkDangling host cname (Some (DNSError nf txt)) =
     Some \<lparr>dc_Host = host, dc_CNAME = cname, dc_Status = (if nf then ''NXDOMAIN'' else ''SERVFAIL'')\<rparr>"
  by (simp add: checkDangling_def)

lemma checkDangling_no_match: "\<not> matchesPattern (ToLower cname) \<Longrightarrow> checkDangling host cname err = None"
  by (simp add: checkDangling_def)

lemma checkDangling_nil: "checkDangling host cname None = None"
  by (simp add: checkDangling_def)

lemma matchesPattern_empty: "\<not> matchesPattern (ToLower [])"
  by (simp add: matchesPattern_def danglingPatterns_def HasSuffix_def ToLower_def)

lemma resolve_host_failed:
  "LookupHost w host = Inl err \<Longrightarrow> record_CNAME w host = cname \<Longrightarrow> cname \<noteq> [] \<Longrightarrow>
   resolve_host w host = (None, checkDangling host cname (Some err))"
  by (simp add: resolve_host_def)

lemma resolve_host_no_match:
  "\<not> matchesPattern (ToLower (record_CNAME w host)) \<Longrightarrow> snd (resolve_host w host) = None"
  by (auto simp: resolve_host_def Let_def checkDangling_no_match split: sum.splits)

lemma resolve_host_resolved:
  "LookupHost w host = Inr ips \<Longrightarrow> snd (resolve_host w host) = None"
  by (simp add: resolve_host_def)

lemma danglings_of_none:
  assumes "snd (resolve_host w host) = None"
  shows "danglings_of (DNSResolve w ctx hosts concurrency) host = []"
proof -
  obtain n where "DNSResolve w ctx hosts concurrency =
     (List.map_filter (\<lambda>h. fst (resolve_host w h)) (take n hosts),
      List.map_filter (\<lambda>h. snd (resolve_host w h)) (take n hosts), None)"
    using DNSResolve_take [of w ctx hosts concurrency] by blast
  then show ?thesis
    using filter_key_map_filter_none [of "\<lambda>h. snd (resolve_host w h)" dc_Host host "take n hosts"]
      resolve_host_dangling_Host assms
    by (simp add: danglings_of_def)
qed

lemma danglings_of_one:
  assumes "0 < concurrency" "distinct hosts" "host \<in> set hosts" "snd (resolve_host w host) = Some d"
  shows "danglings_of (DNSResolve w Background hosts concurrency) host = [d]"
  using filter_key_map_filter_one [of "\<lambda>h. snd (resolve_host w h)" dc_Host hosts host d]
    resolve_host_dangling_Host assms
  by (simp add: danglings_of_def DNSResolve_Background)


lemmas Itoa_eval = Itoa_def Itoa_nat.simps digit_char_def

subsection \<open>The HTTP prober\<close>


lemma fold_probe_body_services:
  "hp_Services (fold (probe_body w ua) prs acc) =
     hp_Services acc @ List.map_filter (\<lambda>pr. map_option fst (probePort w pr ua)) prs"
  by (induction prs arbitrary: acc)
     (auto simp: probe_body_def List.map_filter_simps split: option.splits prod.splits)

lemma HTTPProbe_take:
  "\<exists>n. services_of (HTTPProbe w ctx openPorts concurrency timeout ua) =
     List.map_filter (\<lambda>pr. map_option fst (probePort w pr ua)) (take n openPorts)"
proof -
  obtain n where "run_workers concurrency ctx openPorts (probe_body w ua)
        \<lparr>hp_Services = [], hp_ProbeData = Map.empty\<rparr> =
      fold (probe_body w ua) (take n openPorts) \<lparr>hp_Services = [], hp_ProbeData = Map.empty\<rparr>"
    using run_workers_take [of concurrency ctx openPorts "probe_body w ua"
        "\<lparr>hp_Services = [], hp_ProbeData = Map.empty\<rparr>"] by blast
  then have "services_of (HTTPProbe w ctx openPorts concurrency timeout ua) =
     List.map_filter (\<lambda>pr. map_option fst (probePort w pr ua)) (take n openPorts)"
    by (simp add: services_of_def HTTPProbe_def fold_probe_body_services)
  then show ?thesis by blast
qed

lemma HTTPProbe_Background:
  "0 < concurrency \<Longrightarrow> services_of (HTTPProbe w Background openPorts concurrency timeout ua) =
     List.map_filter (\<lambda>pr. map_option fst (probePort w pr ua)) openPorts"
  by (simp add: services_of_def HTTPProbe_def run_workers_Background fold_probe_body_services)

lemma length_map_filter_le: "length (List.map_filter f xs) \<le> length xs"
  by (induction xs) (auto simp: List.map_filter_simps split: option.splits)

lemma probeURL_response:
  "client_Do w url = Inr resp \<Longrightarrow>
   \<exists>svc pd. probeURL w url pr scheme ua = Some (svc, pd) \<and> svc_URL svc = url \<and>
     svc_Scheme svc = scheme \<and> svc_StatusCode svc = resp_StatusCode resp \<and>
     svc_Host svc = pr_Host pr \<and> svc_IP svc = pr_IP pr \<and> svc_Port svc = pr_Port pr"
  by (simp add: probeURL_def Let_def)

lemma probeURL_no_response: "client_Do w url = Inl err \<Longrightarrow> probeURL w url pr scheme ua = None"
  by (simp add: probeURL_def)

lemma probePort_tls:
  "tlsFirstPorts (pr_Port pr) \<Longrightarrow> probePort w pr ua =
     (case probeURL w (probe_url ''https'' pr) pr ''https'' ua of
        Some r \<Rightarrow> Some r
      | None \<Rightarrow> probeURL w (probe_url ''http'' pr) pr ''http'' ua)"
  by (simp add: probePort_def probe_url_def split: option.splits)

lemma probePort_plain:
  "\<not> tlsFirstPorts (pr_Port pr) \<Longrightarrow> probePort w pr ua =
     (case probeURL w (probe_url ''http'' pr) pr ''http'' ua of
        Some r \<Rightarrow> Some r
      | None \<Rightarrow> probeURL w (probe_url ''https'' pr) pr ''https'' ua)"
  by (simp add: probePort_def probe_url_def split: option.splits)


subsection \<open>What the three later stages return\<close>


lemma fold_scan_body:
  "fold (scan_body w) ts acc =
     acc @ map (\<lambda>(host, ip, port). \<lparr>pr_Host = host, pr_IP = ip, pr_Port = port\<rparr>) (filter (connects w) ts)"
  by (induction ts arbitrary: acc)
     (auto simp: scan_body_def connects_def dial_addr_def split: option.splits)

lemma PortScan_take:
  "\<exists>n. fst (PortScan w ctx dnsRecords ports concurrency timeout) =
     map (\<lambda>(host, ip, port). \<lparr>pr_Host = host, pr_IP = ip, pr_Port = port\<rparr>)
       (filter (connects w) (take n (scan_targets dnsRecords ports)))"
proof -
  obtain n where "run_workers concurrency ctx (scan_targets dnsRecords ports) (scan_body w) [] =
      fold (scan_body w) (take n (scan_targets dnsRecords ports)) []"
    using run_workers_take [of concurrency ctx "scan_targets dnsRecords ports" "scan_body w" "[]"]
    by blast
  then have "fst (PortScan w ctx dnsRecords ports concurrency timeout) =
     map (\<lambda>(host, ip, port). \<lparr>pr_Host = host, pr_IP = ip, pr_Port = port\<rparr>)
       (filter (connects w) (take n (scan_targets dnsRecords ports)))"
    by (simp add: PortScan_def fold_scan_body)
  then show ?thesis by blast
qed

lemma PortScan_Background:
  "0 < concurrency \<Longrightarrow> fst (PortScan w Background dnsRecords ports concurrency timeout) =
     map (\<lambda>(host, ip, port). \<lparr>pr_Host = host, pr_IP = ip, pr_Port = port\<rparr>)
       (filter (connects w) (scan_targets dnsRecords ports))"
  by (simp add: PortScan_def run_workers_Background fold_scan_body)

lemma PortScan_sound:
  assumes "p \<in> set (fst (PortScan w ctx dnsRecords ports concurrency timeout))"
  shows "(pr_Host p, pr_IP p, pr_Port p) \<in> set (scan_targets dnsRecords ports) \<and>
         DialContext w (dial_addr (pr_IP p) (pr_Port p)) = None"
proof -
  obtain n where "fst (PortScan w ctx dnsRecords ports concurrency timeout) =
     map (\<lambda>(host, ip, port). \<lparr>pr_Host = host, pr_IP = ip, pr_Port = port\<rparr>)
       (filter (connects w) (take n (scan_targets dnsRecords ports)))"
    using PortScan_take [of w ctx dnsRecords ports concurrency timeout] by blast
  with assms obtain t where t: "t \<in> set (take n (scan_targets dnsRecords ports))" "connects w t"
    "p = (case t of (host, ip, port) \<Rightarrow> \<lparr>pr_Host = host, pr_IP = ip, pr_Port = port\<rparr>)"
    by auto
  from t(1) have "t \<in> set (scan_targets dnsRecords ports)" by (rule in_set_takeD)
  with t(2,3) show ?thesis by (auto simp: connects_def split: prod.splits)
qed

lemma resolve_host_record:
  "fst (resolve_host w h) = Some r \<Longrightarrow> dns_Host r = h \<and> (\<exists>ips. LookupHost w h = Inr ips)"
  by (auto simp: resolve_host_def Let_def split: sum.splits if_splits)

lemma resolve_host_resolves:
  "fst (resolve_host w h) \<noteq> None \<longleftrightarrow> resolves w h"
  by (auto simp: resolve_host_def resolves_def Let_def split: sum.splits if_splits)

lemma DNSResolve_sound:
  assumes "r \<in> set (fst (DNSResolve w ctx hosts concurrency))"
  shows "dns_Host r \<in> set hosts \<and> (\<exists>ips. LookupHost w (dns_Host r) = Inr ips)"
proof -
  obtain n where "DNSResolve w ctx hosts concurrency =
     (List.map_filter (\<lambda>h. fst (resolve_host w h)) (take n hosts),
      List.map_filter (\<lambda>h. snd (resolve_host w h)) (take n hosts), None)"
    using DNSResolve_take [of w ctx hosts concurrency] by blast
  with assms obtain h where h: "h \<in> set (take n hosts)" "fst (resolve_host w h) = Some r"
    by (auto simp: List.map_filter_def)
  from h(1) have "h \<in> set hosts" by (rule in_set_takeD)
  with resolve_host_record [OF h(2)] show ?thesis by simp
qed

lemma map_filter_hosts:
  "map dns_Host (List.map_filter (\<lambda>h. fst (resolve_host w h)) hosts) = filter (resolves w) hosts"
proof (induction hosts)
  case Nil show ?case by (simp add: List.map_filter_simps)
next
  case (Cons h hosts)
  show ?case
  proof (cases "fst (resolve_host w h)")
    case None
    with resolve_host_resolves [of w h] have "\<not> resolves w h" by simp
    with None Cons show ?thesis by (simp add: List.map_filter_simps)
  next
    case (Some r)
    with resolve_host_resolves [of w h] have "resolves w h" by simp
    with Some Cons resolve_host_record [OF Some] show ?thesis by (simp add: List.map_filter_simps)
  qed
qed

lemma HTTPProbe_sound:
  assumes "svc \<in> set (services_of (HTTPProbe w ctx openPorts concurrency timeout ua))"
  shows "\<exists>pr \<in> set openPorts. \<exists>pd. probePort w pr ua = Some (svc, pd)"
proof -
  obtain n where "services_of (HTTPProbe w ctx openPorts concurrency timeout ua) =
      List.map_filter (\<lambda>pr. map_option fst (probePort w pr ua)) (take n openPorts)"
    using HTTPProbe_take [of w ctx openPorts concurrency timeout ua] by blast
  with assms obtain pr where pr: "pr \<in> set (take n openPorts)"
    "map_option fst (probePort w pr ua) = Some svc"
    by (auto simp: List.map_filter_def)
  from pr(1) have "pr \<in> set openPorts" by (rule in_set_takeD)
  with pr(2) show ?thesis by auto
qed

lemma DNSResolve_no_error: "snd (snd (DNSResolve w ctx hosts concurrency)) = None"
  by (simp add: DNSResolve_def split: prod.splits)

lemma PortScan_no_error: "snd (PortScan w ctx dnsRecords ports concurrency timeout) = None"
  by (simp add: PortScan_def)

lemma HTTPProbe_no_error: "snd (HTTPProbe w ctx openPorts concurrency timeout ua) = None"
  by (simp add: HTTPProbe_def)



subsection \<open>The map of hosts to sources\<close>

lemma map_of_add_source:
  "map_of (add_source name h m) =
     (map_of m)(h \<mapsto> (case map_of m h of None \<Rightarrow> [] | Some ss \<Rightarrow> ss) @ [name])"
  by (induction m) (auto simp: fun_eq_iff)

lemma keys_add_source: "fst ` set (add_source name h m) = insert h (fst ` set m)"
proof (induction m)
  case Nil show ?case by simp
next
  case (Cons kv m)
  obtain k v where kv: "kv = (k, v)" by (cases kv)
  show ?case
  proof (cases "k = h")
    case True with kv show ?thesis by simp
  next
    case False with kv Cons show ?thesis by (simp add: insert_commute)
  qed
qed

lemma distinct_add_source:
  "distinct (map fst m) \<Longrightarrow> distinct (map fst (add_source name h m))"
proof (induction m)
  case Nil show ?case by simp
next
  case (Cons kv m)
  obtain k v where kv: "kv = (k, v)" by (cases kv)
  have "fst ` set (add_source name h m) = insert h (fst ` set m)" by (rule keys_add_source)
  with Cons kv show ?case by (auto simp: image_iff)
qed

lemma values_add_source:
  "\<forall>kv \<in> set m. snd kv \<noteq> [] \<Longrightarrow> \<forall>kv \<in> set (add_source name h m). snd kv \<noteq> []"
  by (induction m) (fastforce split: if_splits)+

lemma sources_of_add_source:
  "sources_of (add_source name h m) h' = sources_of m h' \<union> (if h' = h then {name} else {})"
  by (auto simp: sources_of_def map_of_add_source split: option.splits)

lemma host_map_ok_add_source: "host_map_ok m \<Longrightarrow> host_map_ok (add_source name h m)"
  using distinct_add_source [of m name h] values_add_source [of m name h]
  by (simp add: host_map_ok_def)

lemma host_map_ok_add_hosts: "host_map_ok m \<Longrightarrow> host_map_ok (add_hosts name hosts m)"
  unfolding add_hosts_def
  by (induction hosts arbitrary: m) (simp_all add: host_map_ok_add_source)

lemma keys_add_hosts: "fst ` set (add_hosts name hosts m) = fst ` set m \<union> set hosts"
  unfolding add_hosts_def
  by (induction hosts arbitrary: m) (auto simp: keys_add_source)

lemma sources_of_add_hosts:
  "sources_of (add_hosts name hosts m) h = sources_of m h \<union> (if h \<in> set hosts then {name} else {})"
  unfolding add_hosts_def
  by (induction hosts arbitrary: m) (auto simp: sources_of_add_source split: if_splits)

lemma hostSources_report [simp]: "es_hostSources (report e ev st) = es_hostSources st"
  by (simp add: report_def)

lemma hostSources_run_source:
  "es_hostSources (run_source w e ctx domain concurrency src st) =
     (case source_hosts w e ctx domain concurrency src of
        None \<Rightarrow> es_hostSources st
      | Some hosts \<Rightarrow> add_hosts (source_name src) hosts (es_hostSources st))"
proof (cases src)
  case Crtsh
  then show ?thesis by (simp split: sum.splits)
next
  case Brute
  then show ?thesis by (simp add: Let_def split: sum.splits)
next
  case Hackertarget
  then show ?thesis by (simp add: Let_def split: sum.splits)
next
  case OTX
  then show ?thesis by (simp add: Let_def split: sum.splits)
next
  case Axfr
  obtain r err where a: "AttemptZoneTransfers w ctx domain = (r, err)"
    by (cases "AttemptZoneTransfers w ctx domain")
  show ?thesis
  proof (cases err)
    case (Some x)
    with Axfr a show ?thesis by (simp add: Let_def split: option.splits)
  next
    case None
    with Axfr a show ?thesis by (cases r) (simp_all add: Let_def)
  qed
qed



lemma host_map_ok_run_source:
  "host_map_ok (es_hostSources st) \<Longrightarrow>
   host_map_ok (es_hostSources (run_source w e ctx domain concurrency src st))"
  by (simp add: hostSources_run_source host_map_ok_add_hosts split: option.splits)

lemma host_map_ok_foldl:
  "host_map_ok (es_hostSources st) \<Longrightarrow>
   host_map_ok (es_hostSources (foldl (\<lambda>st src. run_source w e ctx domain concurrency src st) st sched))"
  by (induction sched arbitrary: st) (simp_all add: host_map_ok_run_source)

lemma sources_of_foldl:
  "sources_of (es_hostSources (foldl (\<lambda>st src. run_source w e ctx domain concurrency src st) st sched)) h =
     sources_of (es_hostSources st) h \<union>
     {source_name src | src. src \<in> set sched \<and>
        (\<exists>hosts. source_hosts w e ctx domain concurrency src = Some hosts \<and> h \<in> set hosts)}"
proof (induction sched arbitrary: st)
  case Nil show ?case by simp
next
  case (Cons src sched)
  have step: "sources_of (es_hostSources (run_source w e ctx domain concurrency src st)) h =
      sources_of (es_hostSources st) h \<union>
      {n. n = source_name src \<and>
         (\<exists>hosts. source_hosts w e ctx domain concurrency src = Some hosts \<and> h \<in> set hosts)}"
    by (auto simp: hostSources_run_source sources_of_add_hosts split: option.splits if_splits)
  show ?case
    unfolding foldl_Cons Cons.IH step by auto
qed

lemma keys_foldl:
  "fst ` set (es_hostSources (foldl (\<lambda>st src. run_source w e ctx domain concurrency src st) st sched)) =
     fst ` set (es_hostSources st) \<union>
     {h. \<exists>src \<in> set sched. \<exists>hosts. source_hosts w e ctx domain concurrency src = Some hosts \<and> h \<in> set hosts}"
proof (induction sched arbitrary: st)
  case Nil show ?case by simp
next
  case (Cons src sched)
  have step: "fst ` set (es_hostSources (run_source w e ctx domain concurrency src st)) =
      fst ` set (es_hostSources st) \<union>
      {h. \<exists>hosts. source_hosts w e ctx domain concurrency src = Some hosts \<and> h \<in> set hosts}"
    by (auto simp: hostSources_run_source keys_add_hosts split: option.splits)
  show ?case
    unfolding foldl_Cons Cons.IH step by auto
qed

lemma deduplicateSources_from_set:
  "set (deduplicateSources_from seen ss) = set ss - set seen"
  by (induction ss arbitrary: seen) auto

lemma deduplicateSources_from_distinct:
  "distinct (deduplicateSources_from seen ss)"
  by (induction ss arbitrary: seen) (auto simp: deduplicateSources_from_set)

lemma set_deduplicateSources [simp]: "set (deduplicateSources ss) = set ss"
  by (simp add: deduplicateSources_def deduplicateSources_from_set)

lemma distinct_deduplicateSources [simp]: "distinct (deduplicateSources ss)"
  by (simp add: deduplicateSources_def deduplicateSources_from_distinct)

lemma sources_of_member:
  "distinct (map fst m) \<Longrightarrow> (k, ss) \<in> set m \<Longrightarrow> sources_of m k = set ss"
  by (simp add: sources_of_def)

lemma final_hostSources_ok: "host_map_ok (final_hostSources w e ctx domain concurrency sched)"
  unfolding final_hostSources_def
  by (rule host_map_ok_foldl) (simp add: host_map_ok_def)

lemma final_hostSources_sources:
  "sources_of (final_hostSources w e ctx domain concurrency sched) h =
     (if h = ToLower domain then {''root''} else {}) \<union>
     {source_name src | src. src \<in> set sched \<and>
        (\<exists>hosts. source_hosts w e ctx domain concurrency src = Some hosts \<and> h \<in> set hosts)}"
  unfolding final_hostSources_def sources_of_foldl by (simp add: sources_of_def)

lemma final_hostSources_keys:
  "fst ` set (final_hostSources w e ctx domain concurrency sched) =
     insert (ToLower domain)
     {h. \<exists>src \<in> set sched. \<exists>hosts. source_hosts w e ctx domain concurrency src = Some hosts \<and> h \<in> set hosts}"
  unfolding final_hostSources_def keys_foldl by simp

lemma final_hostSources_nonempty: "final_hostSources w e ctx domain concurrency sched \<noteq> []"
  using final_hostSources_keys [of w e ctx domain concurrency sched] by auto

lemma Enumerate_subdomains:
  "subdomains_of (Enumerate w e ctx domain concurrency sched) =
     sort_key sd_Host
       (map (\<lambda>(host, sources). \<lparr>sd_Host = host, sd_Sources = deduplicateSources sources\<rparr>)
          (final_hostSources w e ctx domain concurrency sched))"
  using final_hostSources_nonempty [of w e ctx domain concurrency sched]
  by (simp add: subdomains_of_def Enumerate_def Let_def final_hostSources_def)

lemma Enumerate_no_error: "snd (fst (Enumerate w e ctx domain concurrency sched)) = None"
  using final_hostSources_nonempty [of w e ctx domain concurrency sched]
  by (simp add: Enumerate_def Let_def final_hostSources_def)

lemma Enumerate_member:
  "sd \<in> set (subdomains_of (Enumerate w e ctx domain concurrency sched)) \<longleftrightarrow>
     (\<exists>k ss. (k, ss) \<in> set (final_hostSources w e ctx domain concurrency sched) \<and>
           sd = \<lparr>sd_Host = k, sd_Sources = deduplicateSources ss\<rparr>)"
  by (force simp: Enumerate_subdomains image_iff)

lemma Enumerate_sources:
  assumes "sd \<in> set (subdomains_of (Enumerate w e ctx domain concurrency sched))"
  shows "set (sd_Sources sd) =
     (if sd_Host sd = ToLower domain then {''root''} else {}) \<union>
     {source_name src | src. src \<in> set sched \<and>
        (\<exists>hosts. source_hosts w e ctx domain concurrency src = Some hosts \<and> sd_Host sd \<in> set hosts)}"
proof -
  from assms obtain k ss where ss: "(k, ss) \<in> set (final_hostSources w e ctx domain concurrency sched)"
    "sd = \<lparr>sd_Host = k, sd_Sources = deduplicateSources ss\<rparr>"
    unfolding Enumerate_member by blast
  from ss(2) have k: "sd_Host sd = k" by simp
  from ss(2) have "set (sd_Sources sd) = set ss" by simp
  also have "set ss = sources_of (final_hostSources w e ctx domain concurrency sched) k"
    using final_hostSources_ok [of w e ctx domain concurrency sched] ss(1)
    by (simp add: host_map_ok_def sources_of_member)
  finally show ?thesis by (simp only: final_hostSources_sources k)
qed

lemma Enumerate_hosts:
  "sd_Host ` set (subdomains_of (Enumerate w e ctx domain concurrency sched)) =
     insert (ToLower domain)
     {h. \<exists>src \<in> set sched. \<exists>hosts. source_hosts w e ctx domain concurrency src = Some hosts \<and> h \<in> set hosts}"
proof -
  have "sd_Host ` set (subdomains_of (Enumerate w e ctx domain concurrency sched)) =
      fst ` set (final_hostSources w e ctx domain concurrency sched)"
    by (force simp: Enumerate_subdomains image_iff)
  then show ?thesis by (simp only: final_hostSources_keys)
qed

lemma distinct_map_sort_key: "distinct (map f (sort_key f xs)) = distinct (map f xs)"
  by (induction xs) (simp_all add: distinct_insort_key)

lemma Enumerate_distinct:
  "distinct (map sd_Host (subdomains_of (Enumerate w e ctx domain concurrency sched)))"
proof -
  have "map sd_Host (map (\<lambda>(host, sources). \<lparr>sd_Host = host, sd_Sources = deduplicateSources sources\<rparr>)
          (final_hostSources w e ctx domain concurrency sched)) =
        map fst (final_hostSources w e ctx domain concurrency sched)"
    by (simp add: case_prod_beta)
  with final_hostSources_ok [of w e ctx domain concurrency sched] show ?thesis
    by (simp add: Enumerate_subdomains distinct_map_sort_key host_map_ok_def del: map_map)
qed

lemma Enumerate_sorted:
  "sorted (map sd_Host (subdomains_of (Enumerate w e ctx domain concurrency sched)))"
  by (simp add: Enumerate_subdomains)


subsection \<open>The warnings of the orchestrator\<close>


lemma stage_error_warning_simps [simp]:
  "\<not> stage_error_warning (Stage a b m)"
  "\<not> stage_error_warning (Detail m)"
  "\<not> stage_error_warning (Invoke st)"
  "\<not> stage_error_warning (Warn ''No live hosts found, skipping port scan and HTTP probe'')"
  "\<not> stage_error_warning (Warn ''No open ports found, skipping HTTP probe'')"
  by (simp_all add: stage_error_warning_def)

lemma run_probe_warnings:
  assumes "snd (fst (Prober_Probe stages s ctx openPorts
      (if Quo (cfg_Concurrency cfg) 2 < 1 then 1 else Quo (cfg_Concurrency cfg) 2) (cfg_Timeout cfg))) = None"
  shows "filter stage_error_warning (fst (snd (run_probe ctx cfg stages now result openPorts evs s))) =
         filter stage_error_warning evs"
proof -
  obtain services s1 where eq: "Prober_Probe stages s ctx openPorts
      (if Quo (cfg_Concurrency cfg) 2 < 1 then 1 else Quo (cfg_Concurrency cfg) 2) (cfg_Timeout cfg) =
      ((services, None), s1)"
    using assms
    by (cases "Prober_Probe stages s ctx openPorts
      (if Quo (cfg_Concurrency cfg) 2 < 1 then 1 else Quo (cfg_Concurrency cfg) 2) (cfg_Timeout cfg)") auto
  show ?thesis
    by (simp add: run_probe_def Let_def eq split: prod.splits)
qed

lemma run_scan_warnings:
  assumes "\<And>s' ctx' ps c t. snd (fst (Prober_Probe stages s' ctx' ps c t)) = None"
    and "snd (fst (Scanner_Scan stages s ctx dnsRecords (cfg_Ports cfg) (cfg_Concurrency cfg) (cfg_Timeout cfg))) = None"
  shows "filter stage_error_warning (fst (snd (run_scan ctx cfg stages now result dnsRecords evs s))) =
         filter stage_error_warning evs"
proof -
  obtain openPorts s1 where eq: "Scanner_Scan stages s ctx dnsRecords (cfg_Ports cfg)
      (cfg_Concurrency cfg) (cfg_Timeout cfg) = ((openPorts, None), s1)"
    using assms(2)
    by (cases "Scanner_Scan stages s ctx dnsRecords (cfg_Ports cfg) (cfg_Concurrency cfg) (cfg_Timeout cfg)")
       auto
  show ?thesis
    by (simp add: run_scan_def Let_def eq run_probe_warnings assms(1))
qed

lemma run_resolve_warnings:
  assumes "\<And>s' ctx' ps c t. snd (fst (Prober_Probe stages s' ctx' ps c t)) = None"
    and "\<And>s' ctx' rs ps c t. snd (fst (Scanner_Scan stages s' ctx' rs ps c t)) = None"
    and "snd (snd (fst (Resolver_Resolve stages s ctx (map sd_Host subdomains) (cfg_Concurrency cfg)))) = None"
  shows "filter stage_error_warning (fst (snd (run_resolve ctx cfg stages now result subdomains evs s))) =
         filter stage_error_warning evs"
proof -
  obtain dnsRecords danglings s1 where eq: "Resolver_Resolve stages s ctx (map sd_Host subdomains)
      (cfg_Concurrency cfg) = ((dnsRecords, danglings, None), s1)"
    using assms(3)
    by (cases "Resolver_Resolve stages s ctx (map sd_Host subdomains) (cfg_Concurrency cfg)") auto
  show ?thesis
    by (simp add: run_resolve_def Let_def eq run_scan_warnings assms(1,2))
qed

lemma Run_warnings:
  assumes "\<And>s' ctx' ps c t. snd (fst (Prober_Probe stages s' ctx' ps c t)) = None"
    and "\<And>s' ctx' rs ps c t. snd (fst (Scanner_Scan stages s' ctx' rs ps c t)) = None"
    and "\<And>s' ctx' hs c. snd (snd (fst (Resolver_Resolve stages s' ctx' hs c))) = None"
  shows "filter stage_error_warning (fst (snd (Run ctx cfg stages s started now))) = []"
  by (simp add: Run_def Let_def run_resolve_warnings assms split: prod.splits option.splits)

lemma recon_Probe_no_error: "snd (fst (recon_Probe w s ctx ps c t)) = None"
  by (simp add: recon_Probe_def HTTPProbe_def)

lemma Run_recon_warnings:
  "filter stage_error_warning (fst (snd (Run ctx cfg (recon_stages w sched) s started now))) = []"
  by (rule Run_warnings)
     (simp_all add: recon_stages_def recon_Probe_no_error PortScan_no_error DNSResolve_no_error)



lemma liveHostCount_zero: "liveHostCount dnsRecords = 0 \<longleftrightarrow> (\<forall>r \<in> set dnsRecords. dns_IPs r = [])"
  by (auto simp: liveHostCount_def filter_empty_conv)

lemma complete_Summary: "res_Summary (complete now result) = buildSummary (complete now result)"
  by (simp add: complete_def Let_def buildSummary_def)

lemma complete_fields:
  "res_Subdomains (complete now result) = res_Subdomains result"
  "res_DNSRecords (complete now result) = res_DNSRecords result"
  "res_OpenPorts (complete now result) = res_OpenPorts result"
  "res_HTTPServices (complete now result) = res_HTTPServices result"
  "res_DanglingCNAMEs (complete now result) = res_DanglingCNAMEs result"
  "res_ZoneTransfers (complete now result) = res_ZoneTransfers result"
  "res_Warnings (complete now result) = res_Warnings result"
  "res_Target (complete now result) = res_Target result"
  "res_StartedAt (complete now result) = res_StartedAt result"
  "res_CompletedAt (complete now result) = now"
  by (simp_all add: complete_def Let_def)

text \<open>The result and the trace of a run that finds no live host.\<close>

lemma run_resolve_no_live:
  assumes "Resolver_Resolve stages s ctx (map sd_Host subdomains) (cfg_Concurrency cfg) =
      ((dnsRecords, danglings, err), s1)"
    and "liveHostCount dnsRecords = 0"
  shows "run_resolve ctx cfg stages now result subdomains evs s =
     ((Some (complete now (result\<lparr>res_DNSRecords := dnsRecords, res_DanglingCNAMEs := danglings\<rparr>)), None),
      evs @ [Stage 2 totalStages ''Resolving DNS records...'', Invoke Resolver] @
        (case err of None \<Rightarrow> [] | Some e \<Rightarrow> [Warn (''DNS resolution error: '' @ Error e)]) @
        [Detail (Itoa 0 @ '' hosts resolved, '' @ Itoa (int (length danglings)) @ '' dangling CNAMEs detected''),
         Warn ''No live hosts found, skipping port scan and HTTP probe''],
      s1)"
  using assms by (simp add: run_resolve_def Let_def)



lemma run_probe_succeeds:
  "\<exists>result. fst (run_probe ctx cfg stages now result0 openPorts evs s) = (Some result, None)"
  by (simp add: run_probe_def Let_def split: prod.splits)

lemma run_scan_succeeds:
  "\<exists>result. fst (run_scan ctx cfg stages now result0 dnsRecords evs s) = (Some result, None)"
  by (simp add: run_scan_def Let_def run_probe_succeeds split: prod.splits)

lemma run_resolve_succeeds:
  "\<exists>result. fst (run_resolve ctx cfg stages now result0 subdomains evs s) = (Some result, None)"
  by (simp add: run_resolve_def Let_def run_scan_succeeds split: prod.splits)

lemma Run_outcome:
  "(\<exists>err. fst (Run ctx cfg stages s started now) = (None, Some err)) \<and>
     (snd (fst (Enumerator_Enumerate stages s ctx (cfg_Target cfg) (cfg_Concurrency cfg))) \<noteq> None \<or>
      fst (fst (Enumerator_Enumerate stages s ctx (cfg_Target cfg) (cfg_Concurrency cfg))) = []) \<or>
   (\<exists>result. fst (Run ctx cfg stages s started now) = (Some result, None)) \<and>
     snd (fst (Enumerator_Enumerate stages s ctx (cfg_Target cfg) (cfg_Concurrency cfg))) = None \<and>
     fst (fst (Enumerator_Enumerate stages s ctx (cfg_Target cfg) (cfg_Concurrency cfg))) \<noteq> []"
proof -
  obtain subdomains err s1 where e: "Enumerator_Enumerate stages s ctx (cfg_Target cfg)
      (cfg_Concurrency cfg) = ((subdomains, err), s1)"
    by (metis surj_pair)
  show ?thesis
  proof (cases err)
    case (Some x)
    with e show ?thesis by (simp add: Run_def)
  next
    case None
    show ?thesis
    proof (cases "subdomains = []")
      case True
      with e None show ?thesis by (simp add: Run_def)
    next
      case False
      with e None show ?thesis by (simp add: Run_def Let_def run_resolve_succeeds)
    qed
  qed
qed

lemma Run_no_live:
  assumes enum: "Enumerator_Enumerate stages s ctx (cfg_Target cfg) (cfg_Concurrency cfg) =
      ((subdomains, None), s1)"
    and nonempty: "subdomains \<noteq> []"
    and resolve: "Resolver_Resolve stages s1 ctx (map sd_Host subdomains) (cfg_Concurrency cfg) =
      ((dnsRecords, danglings, err), s2)"
    and live: "liveHostCount dnsRecords = 0"
  shows "\<exists>result evs.
     Run ctx cfg stages s started now = ((Some result, None), evs, s2) \<and>
     res_Subdomains result = subdomains \<and> res_DNSRecords result = dnsRecords \<and>
     res_DanglingCNAMEs result = danglings \<and> res_OpenPorts result = [] \<and>
     res_HTTPServices result = []"
proof -
  let ?r0 = "\<lparr>res_Target = cfg_Target cfg, res_StartedAt = started, res_CompletedAt = 0,
                     res_Duration = 0, res_Subdomains = [], res_DNSRecords = [], res_OpenPorts = [],
                     res_HTTPServices = [], res_DanglingCNAMEs = [], res_ZoneTransfers = [],
                     res_Warnings = [],
                     res_Summary = \<lparr>sum_SubdomainsFound = 0, sum_LiveHosts = 0, sum_OpenPortCount = 0,
                                     sum_HTTPServiceCount = 0, sum_TechCount = 0, sum_DanglingCNAMEs = 0,
                                     sum_ZoneTransferCount = 0\<rparr>\<rparr>"
  let ?r1 = "?r0\<lparr>res_Subdomains := subdomains\<rparr>"
  let ?r2 = "(case Enumerator_GetZoneTransfers stages of
                None \<Rightarrow> ?r1 | Some get \<Rightarrow> ?r1\<lparr>res_ZoneTransfers := get s1\<rparr>)"
  let ?r3 = "(case Enumerator_GetWarnings stages of
                None \<Rightarrow> ?r2 | Some get \<Rightarrow> ?r2\<lparr>res_Warnings := get s1\<rparr>)"
  let ?evs1 = "[Stage 1 totalStages ''Enumerating subdomains...'', Invoke Enumerator,
                Detail (''Found '' @ Itoa (int (length subdomains)) @ '' unique subdomains'')]"
  let ?result = "complete now (?r3\<lparr>res_DNSRecords := dnsRecords, res_DanglingCNAMEs := danglings\<rparr>)"
  let ?evs = "?evs1 @ [Stage 2 totalStages ''Resolving DNS records...'', Invoke Resolver] @
        (case err of None \<Rightarrow> [] | Some e \<Rightarrow> [Warn (''DNS resolution error: '' @ Error e)]) @
        [Detail (Itoa 0 @ '' hosts resolved, '' @ Itoa (int (length danglings)) @ '' dangling CNAMEs detected''),
         Warn ''No live hosts found, skipping port scan and HTTP probe'']"
  have run: "Run ctx cfg stages s started now = ((Some ?result, None), ?evs, s2)"
    using enum nonempty run_resolve_no_live [OF resolve live, of now ?r3 ?evs1]
    by (simp add: Run_def Let_def)
  have f1: "res_Subdomains ?result = subdomains" "res_DNSRecords ?result = dnsRecords"
    "res_DanglingCNAMEs ?result = danglings" "res_OpenPorts ?result = []" "res_HTTPServices ?result = []"
    by (simp_all add: complete_fields split: option.splits)
  show ?thesis
    by (rule exI [where x = ?result], rule exI [where x = ?evs]) (intro conjI run f1)
qed

lemma Run_recon_cancelled:
  "\<exists>result evs s'.
     Run (CancelledFrom 0) cfg (recon_stages w sched) s started now = ((Some result, None), evs, s') \<and>
     res_Subdomains result =
       subdomains_of (Enumerate w (rs_Enumerator s) (CancelledFrom 0) (cfg_Target cfg)
                        (cfg_Concurrency cfg) sched) \<and>
     res_DNSRecords result = [] \<and> res_DanglingCNAMEs result = [] \<and>
     res_OpenPorts result = [] \<and> res_HTTPServices result = []"
proof -
  let ?E = "Enumerate w (rs_Enumerator s) (CancelledFrom 0) (cfg_Target cfg) (cfg_Concurrency cfg) sched"
  let ?s1 = "s\<lparr>rs_Enumerator := fst (snd ?E), rs_reported := rs_reported s @ snd (snd ?E)\<rparr>"
  have "fst ?E = (subdomains_of ?E, None)"
    using Enumerate_no_error [of w "rs_Enumerator s" "CancelledFrom 0" "cfg_Target cfg" "cfg_Concurrency cfg" sched]
    by (simp add: subdomains_of_def prod_eq_iff)
  then have enum: "Enumerator_Enumerate (recon_stages w sched) s (CancelledFrom 0) (cfg_Target cfg)
      (cfg_Concurrency cfg) = ((subdomains_of ?E, None), ?s1)"
    by (cases ?E) (auto simp add: recon_stages_def subdomains_of_def)
  have "ToLower (cfg_Target cfg) \<in> sd_Host ` set (subdomains_of ?E)"
    unfolding Enumerate_hosts by simp
  then have nonempty: "subdomains_of ?E \<noteq> []" by auto
  have resolve: "Resolver_Resolve (recon_stages w sched) ?s1 (CancelledFrom 0)
      (map sd_Host (subdomains_of ?E)) (cfg_Concurrency cfg) = (([], [], None), ?s1)"
    by (simp add: recon_stages_def DNSResolve_def run_workers_cancelled)
  have live: "liveHostCount [] = 0" by (simp add: liveHostCount_def)
  from Run_no_live [OF enum nonempty resolve live, of started now] show ?thesis by blast
qed



lemma failing_sources:
  "source_hosts failing_world e (CancelledFrom 0) domain concurrency src =
     (if src = Brute then Some [] else None)"
proof (cases src)
  case Crtsh
  then show ?thesis
    by (simp add: CrtshEnumerate_def crtshFetch_def crtshDoRequest_def failing_world_def)
next
  case Brute
  then show ?thesis
    by (simp add: BruteEnumerate_def run_workers_cancelled failing_world_def)
next
  case Hackertarget
  then show ?thesis
    by (simp add: HackertargetEnumerate_def hackertargetFetch_def hackertargetDoRequest_def
        hackertargetRateMsg_def failing_world_def)
next
  case OTX
  then show ?thesis
    by (simp add: OTXEnumerate_def otxFetch_def otxDoRequest_def failing_world_def)
next
  case Axfr
  then show ?thesis by (simp add: AttemptZoneTransfers_def failing_world_def)
qed

lemma failing_hostSources:
  "final_hostSources failing_world e (CancelledFrom 0) domain concurrency sched =
     [(ToLower domain, [''root''])]"
proof -
  have step: "es_hostSources (run_source failing_world e (CancelledFrom 0) domain concurrency src st) =
      es_hostSources st" for src st
    by (simp add: hostSources_run_source failing_sources add_hosts_def)
  have "es_hostSources (foldl (\<lambda>st src. run_source failing_world e (CancelledFrom 0) domain concurrency src st)
      st sched) = es_hostSources st" for st
    by (induction sched arbitrary: st) (simp_all add: step)
  then show ?thesis by (simp add: final_hostSources_def)
qed

lemma failing_subdomains:
  "subdomains_of (Enumerate failing_world e (CancelledFrom 0) domain concurrency sched) =
     [\<lparr>sd_Host = ToLower domain, sd_Sources = [''root'']\<rparr>]"
  by (simp add: Enumerate_subdomains failing_hostSources deduplicateSources_def)



subsection \<open>Lower case\<close>

lemma upper_byte_iff:
  "CHR ''A'' \<le> c \<and> c \<le> CHR ''Z'' \<longleftrightarrow> 65 \<le> (of_char c :: nat) \<and> (of_char c :: nat) \<le> 90"
  by (simp add: less_eq_char_def)

lemma lower_byte_not_upper: "\<not> (CHR ''A'' \<le> lower_byte c \<and> lower_byte c \<le> CHR ''Z'')"
proof (cases "CHR ''A'' \<le> c \<and> c \<le> CHR ''Z''")
  case True
  then have eq: "lower_byte c = char_of (of_char c + (32::nat))" by (simp add: lower_byte_def)
  from True have "of_char c + (32::nat) < 256" by (simp add: less_eq_char_def)
  then have "(of_char (char_of (of_char c + (32::nat)) :: char) :: nat) = of_char c + (32::nat)" by simp
  moreover from True have "(90::nat) < of_char c + 32" by (simp add: less_eq_char_def)
  ultimately have "\<not> (char_of (of_char c + (32::nat)) :: char) \<le> CHR ''Z''"
    by (simp add: less_eq_char_def)
  then show ?thesis unfolding eq by blast
next
  case False
  then have "lower_byte c = c" by (auto simp: lower_byte_def)
  with False show ?thesis by simp
qed

lemma char_of_not_upper:
  "n < 256 \<Longrightarrow> \<not> (65 \<le> n \<and> n \<le> 90) \<Longrightarrow> \<not> (CHR ''A'' \<le> char_of (n::nat) \<and> char_of n \<le> CHR ''Z'')"
  unfolding upper_byte_iff by simp

lemma EncodeRune_not_upper:
  assumes "\<not> (65 \<le> r \<and> r \<le> 90)" and "c \<in> set (EncodeRune r)"
  shows "\<not> (CHR ''A'' \<le> c \<and> c \<le> CHR ''Z'')"
proof -
  have cont: "\<And>n. \<not> (CHR ''A'' \<le> char_of (0x80 + n mod 64 :: nat) \<and> char_of (0x80 + n mod 64 :: nat) \<le> CHR ''Z'')"
  proof -
    fix n :: nat
    have "n mod 64 < 64" by simp
    then have "128 + n mod 64 < 256" "\<not> (65 \<le> 128 + n mod 64 \<and> 128 + n mod 64 \<le> 90)" by linarith+
    then show "\<not> (CHR ''A'' \<le> char_of (0x80 + n mod 64 :: nat) \<and> char_of (0x80 + n mod 64 :: nat) \<le> CHR ''Z'')"
      by (rule char_of_not_upper)
  qed
  have lead: "\<And>b n. 0x80 \<le> b \<Longrightarrow> b + n < 256 \<Longrightarrow>
      \<not> (CHR ''A'' \<le> char_of (b + n :: nat) \<and> char_of (b + n :: nat) \<le> CHR ''Z'')"
    by (rule char_of_not_upper) linarith+
  have fixed: "\<not> (CHR ''A'' \<le> CHR 0xEF \<and> CHR 0xEF \<le> CHR ''Z'')"
    "\<not> (CHR ''A'' \<le> CHR 0xBF \<and> CHR 0xBF \<le> CHR ''Z'')"
    "\<not> (CHR ''A'' \<le> CHR 0xBD \<and> CHR 0xBD \<le> CHR ''Z'')"
    by (simp_all add: less_eq_char_def)
  consider (a) "r < 0x80"
    | (b) "\<not> r < 0x80" "r < 0x800"
    | (c) "\<not> r < 0x800" "0x10FFFF < r \<or> (0xD800 \<le> r \<and> r \<le> 0xDFFF)"
    | (d) "\<not> r < 0x800" "\<not> (0x10FFFF < r \<or> (0xD800 \<le> r \<and> r \<le> 0xDFFF))" "r < 0x10000"
    | (e) "\<not> r < 0x10000" "\<not> (0x10FFFF < r \<or> (0xD800 \<le> r \<and> r \<le> 0xDFFF))"
    by linarith
  then show ?thesis
  proof cases
    case a
    with assms(2) have "c = char_of r" by (simp add: EncodeRune_def)
    moreover from a have "r < 256" by simp
    ultimately show ?thesis using assms(1) char_of_not_upper by blast
  next
    case b
    then have "r div 64 < 32" by simp
    then have "\<not> (CHR ''A'' \<le> char_of (0xC0 + r div 64 :: nat) \<and> char_of (0xC0 + r div 64 :: nat) \<le> CHR ''Z'')"
      by (intro lead) simp_all
    moreover from b assms(2) have "c = char_of (0xC0 + r div 64) \<or> c = char_of (0x80 + r mod 64)"
      by (simp add: EncodeRune_def)
    ultimately show ?thesis using cont [of r] by blast
  next
    case c
    with assms(2) have "c = CHR 0xEF \<or> c = CHR 0xBF \<or> c = CHR 0xBD"
      by (simp add: EncodeRune_def del: One_nat_def)
    then show ?thesis using fixed by blast
  next
    case d
    then have "r div 4096 < 16" by simp
    then have "\<not> (CHR ''A'' \<le> char_of (0xE0 + r div 4096 :: nat) \<and> char_of (0xE0 + r div 4096 :: nat) \<le> CHR ''Z'')"
      by (intro lead) simp_all
    moreover from d assms(2) have "c = char_of (0xE0 + r div 4096) \<or>
        c = char_of (0x80 + r div 64 mod 64) \<or> c = char_of (0x80 + r mod 64)"
      by (auto simp: EncodeRune_def)
    ultimately show ?thesis using cont [of r] cont [of "r div 64"] by blast
  next
    case e
    then have "r div 262144 < 5" by simp
    then have "\<not> (CHR ''A'' \<le> char_of (0xF0 + r div 262144 :: nat) \<and> char_of (0xF0 + r div 262144 :: nat) \<le> CHR ''Z'')"
      by (intro lead) simp_all
    moreover from e assms(2) have "c = char_of (0xF0 + r div 262144) \<or>
        c = char_of (0x80 + r div 4096 mod 64) \<or>
        c = char_of (0x80 + r div 64 mod 64) \<or> c = char_of (0x80 + r mod 64)"
      by (auto simp: EncodeRune_def)
    ultimately show ?thesis using cont [of r] cont [of "r div 64"] cont [of "r div 4096"] by blast
  qed
qed

lemma find_Some_set: "find P xs = Some x \<Longrightarrow> x \<in> set xs"
  by (induction xs) (auto split: if_splits)

lemma lower_ranges_targets: "\<forall>(lo, hi, stride, target) \<in> set lower_ranges. 90 < target"
  by (simp add: lower_ranges_def)

lemma unicode_ToLower_not_upper: "\<not> (65 \<le> unicode_ToLower r \<and> unicode_ToLower r \<le> 90)"
proof (cases "r \<le> 0x7F")
  case True
  then show ?thesis by (simp add: unicode_ToLower_def)
next
  case False
  let ?found = "find (\<lambda>(lo, hi, stride, target). lo \<le> r \<and> r \<le> hi \<and> (r - lo) mod stride = 0) lower_ranges"
  from False have eq: "unicode_ToLower r =
      (case ?found of None \<Rightarrow> r | Some (lo, hi, stride, target) \<Rightarrow> target + (r - lo))"
    by (simp only: unicode_ToLower_def if_False)
  show ?thesis
  proof (cases ?found)
    case None
    with False show ?thesis unfolding eq by simp
  next
    case (Some e)
    obtain lo hi stride target where e: "e = (lo, hi, stride, target)" by (cases e)
    from Some have "e \<in> set lower_ranges" by (rule find_Some_set)
    with lower_ranges_targets e have "90 < target" by auto
    then show ?thesis unfolding eq Some e by simp
  qed
qed

lemma strings_Map_not_upper:
  "(\<forall>r. \<not> (65 \<le> f r \<and> f r \<le> 90)) \<Longrightarrow> c \<in> set (strings_Map f s) \<Longrightarrow>
     \<not> (CHR ''A'' \<le> c \<and> c \<le> CHR ''Z'')"
proof (induction f s rule: strings_Map.induct)
  case (1 mapping)
  then show ?case by simp
next
  case (2 mapping c0 s)
  from "2.prems"(2) have "c \<in> set (EncodeRune (mapping (fst (DecodeRune (c0 # s))))) \<or>
      c \<in> set (strings_Map mapping (drop (snd (DecodeRune (c0 # s)) - 1) s))"
    by (simp del: DecodeRune.simps)
  then show ?case
  proof
    assume "c \<in> set (EncodeRune (mapping (fst (DecodeRune (c0 # s)))))"
    with "2.prems"(1) [rule_format] show ?thesis by (rule EncodeRune_not_upper)
  next
    assume "c \<in> set (strings_Map mapping (drop (snd (DecodeRune (c0 # s)) - 1) s))"
    with "2.prems"(1) show ?thesis by (rule "2.IH")
  qed
qed

lemma lower_cased_ToLower [simp]: "lower_cased (ToLower s)"
proof (cases "list_all (\<lambda>c. c < CHR 0x80) s")
  case True
  then have "ToLower s = map lower_byte s" by (simp add: ToLower_def)
  then show ?thesis using lower_byte_not_upper by (auto simp: lower_cased_def)
next
  case False
  then have "ToLower s = strings_Map unicode_ToLower s" by (simp add: ToLower_def)
  then show ?thesis
    using strings_Map_not_upper [of unicode_ToLower _ s] unicode_ToLower_not_upper
    by (auto simp: lower_cased_def)
qed

lemma lower_cased_subset: "lower_cased s \<Longrightarrow> set t \<subseteq> set s \<Longrightarrow> lower_cased t"
  by (auto simp: lower_cased_def)

lemma set_trim_runes: "set (trim_runes rs s) \<subseteq> set s"
proof (induction rs s rule: trim_runes.induct)
  case (1 rs)
  then show ?case by simp
next
  case (2 rs c s)
  show ?case
  proof (cases "find (\<lambda>r. r \<noteq> [] \<and> prefix r (c # s)) rs")
    case None
    then show ?thesis by simp
  next
    case (Some r)
    with 2 have "set (trim_runes rs (drop (length r - 1) s)) \<subseteq> set (drop (length r - 1) s)"
      by simp
    also have "\<dots> \<subseteq> set (c # s)" by (auto dest: in_set_dropD)
    finally show ?thesis using Some by simp
  qed
qed

lemma set_TrimSpace: "set (TrimSpace s) \<subseteq> set s"
proof -
  have "set (TrimSpace s) \<subseteq> set (rev (trim_runes space_runes s))"
    unfolding TrimSpace_def set_rev
    using set_trim_runes [of "map rev space_runes" "rev (trim_runes space_runes s)"] by simp
  also have "\<dots> \<subseteq> set s" unfolding set_rev by (rule set_trim_runes)
  finally show ?thesis .
qed

lemma set_TrimPrefix: "set (TrimPrefix s p) \<subseteq> set s"
  by (auto simp: TrimPrefix_def dest: in_set_dropD)

lemma set_TrimSuffix: "set (TrimSuffix s p) \<subseteq> set s"
  by (auto simp: TrimSuffix_def dest: in_set_takeD)

lemma lower_cased_TrimSpace: "lower_cased s \<Longrightarrow> lower_cased (TrimSpace s)"
  using lower_cased_subset set_TrimSpace by blast

lemma lower_cased_TrimPrefix: "lower_cased s \<Longrightarrow> lower_cased (TrimPrefix s p)"
  using lower_cased_subset set_TrimPrefix by blast

lemma lower_cased_append_unseen:
  "\<forall>h \<in> set hosts. lower_cased h \<Longrightarrow> lower_cased x \<Longrightarrow> \<forall>h \<in> set (append_unseen hosts x). lower_cased h"
  by (simp add: append_unseen_def)

lemma lower_cased_crtsh_names:
  "\<forall>h \<in> set hosts. lower_cased h \<Longrightarrow> \<forall>h \<in> set (crtsh_names domain names hosts). lower_cased h"
proof (induction names arbitrary: hosts)
  case Nil then show ?case by simp
next
  case (Cons name0 names)
  let ?name1 = "TrimSpace (ToLower name0)"
  let ?name = "if HasPrefix ?name1 ''*.'' then TrimPrefix ?name1 ''*.'' else ?name1"
  have "lower_cased ?name1" by (simp add: lower_cased_TrimSpace)
  then have "lower_cased ?name" by (simp add: lower_cased_TrimPrefix)
  with Cons.prems have "\<forall>h \<in> set (append_unseen hosts ?name). lower_cased h"
    by (rule lower_cased_append_unseen)
  from Cons.IH [OF this] Cons.IH [OF Cons.prems] show ?case
    by (simp add: Let_def)
qed

lemma lower_cased_crtsh_entries:
  "\<forall>h \<in> set hosts. lower_cased h \<Longrightarrow> \<forall>h \<in> set (crtsh_entries domain entries hosts). lower_cased h"
proof (induction entries arbitrary: hosts)
  case Nil then show ?case by simp
next
  case (Cons nameValue entries)
  from Cons.prems have "\<forall>h \<in> set (crtsh_names domain (Split_byte CHR 0x0A nameValue) hosts). lower_cased h"
    by (rule lower_cased_crtsh_names)
  from Cons.IH [OF this] show ?case by simp
qed

lemma lower_cased_hackertarget_lines:
  "\<forall>h \<in> set hosts. lower_cased h \<Longrightarrow> \<forall>h \<in> set (hackertarget_lines domain lines hosts). lower_cased h"
proof (induction lines arbitrary: hosts)
  case Nil then show ?case by simp
next
  case (Cons line0 lines)
  let ?host = "ToLower (TrimSpace (before_comma (TrimSpace line0)))"
  from Cons.prems have "\<forall>h \<in> set (append_unseen hosts ?host). lower_cased h"
    by (rule lower_cased_append_unseen) simp
  from Cons.IH [OF this] Cons.IH [OF Cons.prems] show ?case
    by (simp add: Let_def)
qed

lemma lower_cased_otx_entries:
  "\<forall>h \<in> set hosts. lower_cased h \<Longrightarrow> \<forall>h \<in> set (otx_entries domain entries hosts). lower_cased h"
proof (induction entries arbitrary: hosts)
  case Nil then show ?case by simp
next
  case (Cons hostname entries)
  let ?host = "ToLower (TrimSpace hostname)"
  from Cons.prems have "\<forall>h \<in> set (append_unseen hosts ?host). lower_cased h"
    by (rule lower_cased_append_unseen) simp
  from Cons.IH [OF this] Cons.IH [OF Cons.prems] show ?case
    by (simp add: Let_def)
qed

lemma lower_cased_fold_brute:
  "\<forall>h \<in> set found. lower_cased h \<Longrightarrow> \<forall>h \<in> set (fold (brute_body w) items found). lower_cased h"
proof (induction items arbitrary: found)
  case Nil then show ?case by simp
next
  case (Cons item items)
  from Cons.prems have "\<forall>h \<in> set (brute_body w item found). lower_cased h"
    by (simp add: brute_body_def split: sum.splits)
  from Cons.IH [OF this] show ?case by simp
qed

lemma lower_cased_axfr_records:
  "\<forall>h \<in> set hosts. lower_cased h \<Longrightarrow> \<forall>h \<in> set (axfr_records domain rrs hosts). lower_cased h"
proof (induction rrs arbitrary: hosts)
  case Nil then show ?case by simp
next
  case (Cons rr rrs)
  let ?name = "ToLower (TrimSuffix rr ''.'')"
  from Cons.prems have "\<forall>h \<in> set (append_unseen hosts ?name). lower_cased h"
    by (rule lower_cased_append_unseen) simp
  from Cons.IH [OF this] Cons.IH [OF Cons.prems] show ?case
    by (simp add: Let_def)
qed

lemma lower_cased_axfr_envelopes:
  "\<forall>h \<in> set hosts. lower_cased h \<Longrightarrow> axfr_envelopes domain ns envelopes hosts = Inr names \<Longrightarrow>
   \<forall>h \<in> set names. lower_cased h"
proof (induction envelopes arbitrary: hosts)
  case Nil then show ?case by simp
next
  case (Cons env envelopes)
  show ?case
  proof (cases env)
    case (Inl err)
    with Cons.prems show ?thesis by simp
  next
    case (Inr rrs)
    with Cons.prems have "axfr_envelopes domain ns envelopes (axfr_records domain rrs hosts) = Inr names"
      by simp
    moreover from Cons.prems have "\<forall>h \<in> set (axfr_records domain rrs hosts). lower_cased h"
      by (simp add: lower_cased_axfr_records)
    ultimately show ?thesis by (rule Cons.IH [rotated])
  qed
qed

lemma lower_cased_attemptAXFR:
  "attemptAXFR w domain ns = Inr names \<Longrightarrow> \<forall>h \<in> set names. lower_cased h"
  using lower_cased_axfr_envelopes [of "[]" domain ns _ names]
  by (auto simp: attemptAXFR_def split: sum.splits)

lemma lower_cased_foldl_append_unseen:
  "\<forall>h \<in> set hosts. lower_cased h \<Longrightarrow> \<forall>h \<in> set names. lower_cased h \<Longrightarrow>
   \<forall>h \<in> set (foldl append_unseen hosts names). lower_cased h"
proof (induction names arbitrary: hosts)
  case Nil then show ?case by simp
next
  case (Cons name names)
  from Cons.prems have "\<forall>h \<in> set (append_unseen hosts name). lower_cased h"
    by (intro lower_cased_append_unseen) simp_all
  moreover from Cons.prems have "\<forall>h \<in> set names. lower_cased h" by simp
  ultimately show ?case using Cons.IH by simp
qed

lemma lower_cased_zone_transfer_loop:
  "\<forall>h \<in> set (ztr_Hostnames result). lower_cased h \<Longrightarrow>
   \<forall>h \<in> set (ztr_Hostnames (fst (zone_transfer_loop w ctx k domain nameservers result))). lower_cased h"
proof (induction nameservers arbitrary: k result)
  case Nil then show ?case by simp
next
  case (Cons ns nameservers)
  show ?case
  proof (cases "ctx_Done ctx k")
    case True
    with Cons.prems show ?thesis by simp
  next
    case False
    show ?thesis
    proof (cases "attemptAXFR w domain (TrimSuffix ns ''.'')")
      case (Inl err)
      with False Cons.IH [of "result\<lparr>ztr_Transfers := ztr_Transfers result @
            [\<lparr>zt_Nameserver = TrimSuffix ns ''.'', zt_Success = False, zt_Records = 0\<rparr>]\<rparr>" "Suc k"]
        Cons.prems
      show ?thesis by (simp add: Let_def)
    next
      case (Inr names)
      have "\<forall>h \<in> set (foldl append_unseen (ztr_Hostnames result) names). lower_cased h"
        by (rule lower_cased_foldl_append_unseen [OF Cons.prems lower_cased_attemptAXFR [OF Inr]])
      with False Inr Cons.IH [of "result\<lparr>ztr_Transfers := ztr_Transfers result @
            [\<lparr>zt_Nameserver = TrimSuffix ns ''.'', zt_Success = True, zt_Records = length names\<rparr>],
            ztr_Hostnames := foldl append_unseen (ztr_Hostnames result) names\<rparr>" "Suc k"]
      show ?thesis by (simp add: Let_def)
    qed
  qed
qed

lemma lower_cased_source_hosts:
  assumes "source_hosts w e ctx domain concurrency src = Some hosts"
  shows "\<forall>h \<in> set hosts. lower_cased h"
proof (cases src)
  case Crtsh
  with assms have "fst (CrtshEnumerate w ctx domain (en_UserAgent e)) = Inr hosts"
    by (simp split: sum.splits)
  then obtain entries where "hosts = crtsh_entries domain entries []"
    by (auto simp: CrtshEnumerate_def Let_def split: sum.splits prod.splits)
  then show ?thesis using lower_cased_crtsh_entries [of "[]" domain entries] by simp
next
  case Brute
  let ?c = "if Quo concurrency 2 < 1 then 1 else Quo concurrency 2"
  let ?items = "map (\<lambda>word. word @ ''.'' @ domain) (Subdomains w)"
  obtain n where "run_workers ?c ctx ?items (brute_body w) [] = fold (brute_body w) (take n ?items) []"
    using run_workers_take [of ?c ctx ?items "brute_body w" "[]"] by blast
  moreover from Brute assms have "BruteEnumerate w ctx domain ?c = Inr hosts"
    by (simp split: sum.splits split del: if_split)
  ultimately have "hosts = fold (brute_body w) (take n ?items) []"
    by (simp add: BruteEnumerate_def Let_def split: if_splits split del: if_split)
  then show ?thesis using lower_cased_fold_brute [of "[]" w "take n ?items"] by simp
next
  case Hackertarget
  with assms have "fst (HackertargetEnumerate w ctx domain (en_UserAgent e)) = Inr hosts"
    by (simp split: sum.splits)
  then obtain body where "hosts = hackertarget_lines domain (Split_byte CHR 0x0A body) []"
    by (auto simp: HackertargetEnumerate_def parseHackertargetResponse_def Let_def
        split: sum.splits prod.splits)
  then show ?thesis
    using lower_cased_hackertarget_lines [of "[]" domain "Split_byte CHR 0x0A body"] by simp
next
  case OTX
  with assms have "fst (OTXEnumerate w ctx domain (en_UserAgent e)) = Inr hosts"
    by (simp split: sum.splits)
  then obtain entries where "hosts = otx_entries domain entries []"
    by (auto simp: OTXEnumerate_def parseOTXResponse_def Let_def split: sum.splits prod.splits)
  then show ?thesis using lower_cased_otx_entries [of "[]" domain entries] by simp
next
  case Axfr
  with assms obtain r where r: "AttemptZoneTransfers w ctx domain = (Some r, None)"
    "hosts = ztr_Hostnames r"
    by (auto split: prod.splits option.splits)
  have "\<exists>nameservers. r = fst (zone_transfer_loop w ctx 0 domain nameservers
      \<lparr>ztr_Transfers = [], ztr_Hostnames = []\<rparr>)"
  proof (cases "LookupNS w domain")
    case (Inl err)
    with r(1) show ?thesis by (simp add: AttemptZoneTransfers_def)
  next
    case (Inr nss)
    with r(1) have "r = fst (zone_transfer_loop w ctx 0 domain nss
        \<lparr>ztr_Transfers = [], ztr_Hostnames = []\<rparr>)"
      by (cases "nss = []") (auto simp: AttemptZoneTransfers_def split: prod.splits)
    then show ?thesis by blast
  qed
  then obtain nameservers where "r = fst (zone_transfer_loop w ctx 0 domain nameservers
      \<lparr>ztr_Transfers = [], ztr_Hostnames = []\<rparr>)"
    by blast
  with r(2) show ?thesis
    using lower_cased_zone_transfer_loop [of "\<lparr>ztr_Transfers = [], ztr_Hostnames = []\<rparr>"
        w ctx 0 domain nameservers]
    by simp
qed


text \<open>Evaluating \<open>ToLower\<close> on literals.\<close>

lemma lower_byte_upper:
  "lower_byte CHR ''A'' = CHR ''a''"
  "lower_byte CHR ''B'' = CHR ''b''"
  "lower_byte CHR ''C'' = CHR ''c''"
  "lower_byte CHR ''D'' = CHR ''d''"
  "lower_byte CHR ''E'' = CHR ''e''"
  "lower_byte CHR ''F'' = CHR ''f''"
  "lower_byte CHR ''G'' = CHR ''g''"
  "lower_byte CHR ''H'' = CHR ''h''"
  "lower_byte CHR ''I'' = CHR ''i''"
  "lower_byte CHR ''J'' = CHR ''j''"
  "lower_byte CHR ''K'' = CHR ''k''"
  "lower_byte CHR ''L'' = CHR ''l''"
  "lower_byte CHR ''M'' = CHR ''m''"
  "lower_byte CHR ''N'' = CHR ''n''"
  "lower_byte CHR ''O'' = CHR ''o''"
  "lower_byte CHR ''P'' = CHR ''p''"
  "lower_byte CHR ''Q'' = CHR ''q''"
  "lower_byte CHR ''R'' = CHR ''r''"
  "lower_byte CHR ''S'' = CHR ''s''"
  "lower_byte CHR ''T'' = CHR ''t''"
  "lower_byte CHR ''U'' = CHR ''u''"
  "lower_byte CHR ''V'' = CHR ''v''"
  "lower_byte CHR ''W'' = CHR ''w''"
  "lower_byte CHR ''X'' = CHR ''x''"
  "lower_byte CHR ''Y'' = CHR ''y''"
  "lower_byte CHR ''Z'' = CHR ''z''"
  by code_simp+

lemma lower_byte_other: "\<not> (CHR ''A'' \<le> c \<and> c \<le> CHR ''Z'') \<Longrightarrow> lower_byte c = c"
  by (auto simp: lower_byte_def)

lemmas ToLower_eval = ToLower_def lower_byte_upper lower_byte_other


subsection \<open>Fingerprint rules\<close>


lemma Contains_sublist: "Contains s sub \<longleftrightarrow> sublist sub s"
  by (induction s) (auto simp: sublist_Cons_right)

lemma match_headers_iff:
  "match_headers hms data \<longleftrightarrow>
     (\<exists>hm \<in> set hms. \<exists>v. pd_headers data (ToLower (hm_Name hm)) = Some v \<and>
        ((\<exists>re. hm_regex hm = Some re \<and> re v) \<or> (hm_Pattern hm = '''' \<and> v \<noteq> '''')))"
  by (induction hms) (auto split: option.splits)

lemma match_body_iff:
  "match_body substrs bodyLower \<longleftrightarrow> (\<exists>substr \<in> set substrs. Contains bodyLower (ToLower substr))"
  by (induction substrs) auto

lemma match_cookie_iff:
  "match_cookie cookieLower cookies \<longleftrightarrow> (\<exists>c \<in> set cookies. ToLower c = cookieLower)"
  by (induction cookies) auto

lemma match_cookies_iff:
  "match_cookies names cookies \<longleftrightarrow>
     (\<exists>cookieName \<in> set names. \<exists>c \<in> set cookies. ToLower c = ToLower cookieName)"
  by (induction names) (auto simp: match_cookie_iff)

lemma collect_techs_filter:
  "collect_techs rules data techs =
     techs @ map (\<lambda>r. \<lparr>tech_Name = rule_Name r, tech_Category = rule_Category r\<rparr>)
               (filter (\<lambda>r. matchesRule r data) rules)"
  by (induction rules arbitrary: techs) simp_all

lemma loadFingerprints_regex:
  assumes "fst (Unmarshal_rules w) = None" "rule \<in> set (loadFingerprints w)"
    "hm \<in> set (rule_Headers rule)"
  shows "hm_regex hm = (if hm_Pattern hm \<noteq> '''' then regexp_Compile w (''(?i)'' @ hm_Pattern hm) else None)"
  using assms
  by (cases "Unmarshal_rules w")
     (auto simp: loadFingerprints_def compile_header_def decoded_header_def Let_def)


subsection \<open>Zone transfers\<close>


lemma zone_transfer_loop_transfers:
  "ztr_Transfers (fst (zone_transfer_loop w ctx k domain nss result)) =
     ztr_Transfers result @ map (transfer_entry w domain) (take (attempted_from ctx k nss) nss) \<and>
   snd (zone_transfer_loop w ctx k domain nss result) =
     (if attempted_from ctx k nss < length nss then Some context_Canceled else None)"
proof (induction nss arbitrary: k result)
  case Nil
  show ?case by (cases ctx) simp_all
next
  case (Cons ns nss)
  show ?case
  proof (cases "ctx_Done ctx k")
    case True
    then have "attempted_from ctx k (ns # nss) = 0" by (cases ctx) simp_all
    with True show ?thesis by simp
  next
    case False
    then have n: "attempted_from ctx k (ns # nss) = Suc (attempted_from ctx (Suc k) nss)"
      by (cases ctx) (auto simp add: min_def)
    show ?thesis
    proof (cases "attemptAXFR w domain (TrimSuffix ns ''.'')")
      case (Inl err)
      with False Cons.IH [of "Suc k" "result\<lparr>ztr_Transfers := ztr_Transfers result @
            [\<lparr>zt_Nameserver = TrimSuffix ns ''.'', zt_Success = False, zt_Records = 0\<rparr>]\<rparr>"]
      show ?thesis by (simp add: Let_def n transfer_entry_def)
    next
      case (Inr names)
      with False Cons.IH [of "Suc k" "result\<lparr>ztr_Transfers := ztr_Transfers result @
            [\<lparr>zt_Nameserver = TrimSuffix ns ''.'', zt_Success = True, zt_Records = length names\<rparr>],
            ztr_Hostnames := foldl append_unseen (ztr_Hostnames result) names\<rparr>"]
      show ?thesis by (simp add: Let_def n transfer_entry_def)
    qed
  qed
qed

lemma attempted_less_iff:
  "attempted ctx nss < length nss \<longleftrightarrow> (\<exists>k < length nss. ctx_Done ctx k)"
proof (cases ctx)
  case Background
  then show ?thesis by (simp add: attempted_def)
next
  case (CancelledFrom n)
  then show ?thesis by (auto simp: attempted_def min_def)
qed

lemma attempted_le: "attempted ctx nss \<le> length nss"
  by (cases ctx) (simp_all add: attempted_def)

lemma AttemptZoneTransfers_run:
  assumes "LookupNS w domain = Inr nss" "nss \<noteq> []"
  shows "\<exists>r. AttemptZoneTransfers w ctx domain =
           (Some r, if attempted ctx nss < length nss then Some context_Canceled else None) \<and>
         ztr_Transfers r = map (transfer_entry w domain) (take (attempted ctx nss) nss)"
proof -
  let ?loop = "zone_transfer_loop w ctx 0 domain nss \<lparr>ztr_Transfers = [], ztr_Hostnames = []\<rparr>"
  from assms have "AttemptZoneTransfers w ctx domain = (Some (fst ?loop), snd ?loop)"
    by (simp add: AttemptZoneTransfers_def split: prod.splits)
  with zone_transfer_loop_transfers [of w ctx 0 domain nss "\<lparr>ztr_Transfers = [], ztr_Hostnames = []\<rparr>"]
  show ?thesis by (simp add: attempted_def)
qed

lemma AttemptZoneTransfers_error_iff:
  "snd (AttemptZoneTransfers w ctx domain) \<noteq> None \<longleftrightarrow>
     (\<exists>err. LookupNS w domain = Inl err) \<or> LookupNS w domain = Inr [] \<or>
     (\<exists>nss. LookupNS w domain = Inr nss \<and> (\<exists>k < length nss. ctx_Done ctx k))"
proof (cases "LookupNS w domain")
  case (Inl err)
  then show ?thesis by (simp add: AttemptZoneTransfers_def)
next
  case (Inr nss)
  show ?thesis
  proof (cases "nss = []")
    case True
    with Inr show ?thesis by (simp add: AttemptZoneTransfers_def)
  next
    case False
    from AttemptZoneTransfers_run [OF Inr False, of ctx]
    have "snd (AttemptZoneTransfers w ctx domain) \<noteq> None \<longleftrightarrow> attempted ctx nss < length nss"
      by (auto split: if_splits)
    with Inr False show ?thesis by (simp add: attempted_less_iff)
  qed
qed


lemma example_axfr_ns1:
  "attemptAXFR example_world ''example.com'' ''ns1.example.com'' =
     Inr [''example.com'', ''www.example.com'', ''mail.example.com'']"
  by (simp add: attemptAXFR_def example_world_def TrimSuffix_def HasSuffix_def suffix_to_prefix
      ToLower_eval append_unseen_def Let_def)

lemma example_axfr_ns2:
  "attemptAXFR example_world ''example.com'' ''ns2.example.com'' =
     Inl (OtherError ''AXFR to ns2.example.com: dns: bad xfr rcode: 5'')"
  by (simp add: attemptAXFR_def example_world_def)

lemma example_trim:
  "TrimSuffix ''ns1.example.com.'' ''.'' = ''ns1.example.com''"
  "TrimSuffix ''ns2.example.com.'' ''.'' = ''ns2.example.com''"
  by (simp_all add: TrimSuffix_def HasSuffix_def suffix_to_prefix)


subsection \<open>C1: a run on a cancelled context\<close>

text \<open>
  C1, as the code has it. \<open>Run\<close> never looks at the context. It returns an error exactly
  when the enumerator returns an error or an empty list, and it returns no result exactly
  when it returns an error. The enumerator of package recon does neither, whatever the
  context: on a context that is cancelled before the run starts, \<open>Run\<close> on the stages of
  package recon returns a result and no error; the result holds the lower-cased target
  with the source \<open>root\<close> and has no DNS records, dangling CNAMEs, open ports or HTTP
  services.
\<close>

theorem run_fails_only_without_subdomains:
  "(snd (fst (Run ctx cfg stages s started now)) \<noteq> None \<longleftrightarrow>
      snd (fst (Enumerator_Enumerate stages s ctx (cfg_Target cfg) (cfg_Concurrency cfg))) \<noteq> None \<or>
      fst (fst (Enumerator_Enumerate stages s ctx (cfg_Target cfg) (cfg_Concurrency cfg))) = []) \<and>
   (fst (fst (Run ctx cfg stages s started now)) = None \<longleftrightarrow>
      snd (fst (Run ctx cfg stages s started now)) \<noteq> None) \<and>
   (\<exists>result.
      fst (Run (CancelledFrom 0) cfg (recon_stages w sched) rs started now) = (Some result, None) \<and>
      (\<exists>sd \<in> set (res_Subdomains result).
         sd_Host sd = ToLower (cfg_Target cfg) \<and> ''root'' \<in> set (sd_Sources sd)) \<and>
      res_DNSRecords result = [] \<and> res_DanglingCNAMEs result = [] \<and>
      res_OpenPorts result = [] \<and> res_HTTPServices result = [])"
proof (intro conjI)
  from Run_outcome [of ctx cfg stages s started now]
  show "snd (fst (Run ctx cfg stages s started now)) \<noteq> None \<longleftrightarrow>
      snd (fst (Enumerator_Enumerate stages s ctx (cfg_Target cfg) (cfg_Concurrency cfg))) \<noteq> None \<or>
      fst (fst (Enumerator_Enumerate stages s ctx (cfg_Target cfg) (cfg_Concurrency cfg))) = []"
    by auto
  from Run_outcome [of ctx cfg stages s started now]
  show "fst (fst (Run ctx cfg stages s started now)) = None \<longleftrightarrow>
      snd (fst (Run ctx cfg stages s started now)) \<noteq> None"
    by auto
  let ?E = "Enumerate w (rs_Enumerator rs) (CancelledFrom 0) (cfg_Target cfg) (cfg_Concurrency cfg) sched"
  from Run_recon_cancelled [of cfg w sched rs started now]
  obtain result where r: "fst (Run (CancelledFrom 0) cfg (recon_stages w sched) rs started now) =
      (Some result, None)"
    "res_Subdomains result = subdomains_of ?E"
    "res_DNSRecords result = []" "res_DanglingCNAMEs result = []"
    "res_OpenPorts result = []" "res_HTTPServices result = []"
    by fastforce
  have "ToLower (cfg_Target cfg) \<in> sd_Host ` set (subdomains_of ?E)"
    unfolding Enumerate_hosts by simp
  then obtain sd where sd: "sd \<in> set (subdomains_of ?E)" "sd_Host sd = ToLower (cfg_Target cfg)"
    by auto
  from Enumerate_sources [OF sd(1)] sd(2) have "''root'' \<in> set (sd_Sources sd)" by simp
  with sd r(2) have "\<exists>sd \<in> set (res_Subdomains result).
         sd_Host sd = ToLower (cfg_Target cfg) \<and> ''root'' \<in> set (sd_Sources sd)"
    by auto
  with r show "\<exists>result.
      fst (Run (CancelledFrom 0) cfg (recon_stages w sched) rs started now) = (Some result, None) \<and>
      (\<exists>sd \<in> set (res_Subdomains result).
         sd_Host sd = ToLower (cfg_Target cfg) \<and> ''root'' \<in> set (sd_Sources sd)) \<and>
      res_DNSRecords result = [] \<and> res_DanglingCNAMEs result = [] \<and>
      res_OpenPorts result = [] \<and> res_HTTPServices result = []"
    by blast
qed

theorem run_fails_only_without_subdomains_witness:
  "snd (fst (Run (CancelledFrom 0) example_config cancelled_mock_stages () 0 1)) \<noteq> None \<and>
   fst (fst (Run (CancelledFrom 0) example_config cancelled_mock_stages () 0 1)) = None \<and>
   snd (fst (Run (CancelledFrom 0) example_config mock_stages () 0 1)) = None"
proof -
  have a: "snd (fst (Enumerator_Enumerate cancelled_mock_stages () (CancelledFrom 0)
      (cfg_Target example_config) (cfg_Concurrency example_config))) \<noteq> None"
    by (simp add: cancelled_mock_stages_def)
  have b: "\<not> (snd (fst (Enumerator_Enumerate mock_stages () (CancelledFrom 0)
      (cfg_Target example_config) (cfg_Concurrency example_config))) \<noteq> None \<or>
      fst (fst (Enumerator_Enumerate mock_stages () (CancelledFrom 0)
      (cfg_Target example_config) (cfg_Concurrency example_config))) = [])"
    by (simp add: mock_stages_def)
  note T = run_fails_only_without_subdomains [where ctx = "CancelledFrom 0" and cfg = example_config
      and stages = cancelled_mock_stages and s = "()" and started = "0" and now = "1"]
  from T [THEN conjunct1] a
  have c1: "snd (fst (Run (CancelledFrom 0) example_config cancelled_mock_stages () 0 1)) \<noteq> None"
    by blast
  with T [THEN conjunct2, THEN conjunct1]
  have c2: "fst (fst (Run (CancelledFrom 0) example_config cancelled_mock_stages () 0 1)) = None"
    by blast
  from run_fails_only_without_subdomains [where ctx = "CancelledFrom 0" and cfg = example_config
      and stages = mock_stages and s = "()" and started = "0" and now = "1", THEN conjunct1] b
  have c3: "snd (fst (Run (CancelledFrom 0) example_config mock_stages () 0 1)) = None"
    by blast
  from c1 c2 c3 show ?thesis by (intro conjI)
qed

text \<open>
  C1 as stated fails: on a context cancelled before the run, in a world where every
  lookup and request fails, the run on the stages of package recon returns the root
  domain and no error.
\<close>

theorem cancelled_run_counterexample:
  "map_option res_Subdomains
     (fst (fst (Run (CancelledFrom 0) example_config (recon_stages failing_world example_sched)
                  example_state 0 1))) =
     Some [\<lparr>sd_Host = ''example.com'', sd_Sources = [''root'']\<rparr>] \<and>
   snd (fst (Run (CancelledFrom 0) example_config (recon_stages failing_world example_sched)
               example_state 0 1)) = None"
proof -
  have lower: "ToLower (cfg_Target example_config) = ''example.com''"
    by (simp add: example_config_def ToLower_def lower_byte_def) code_simp
  from Run_recon_cancelled [of example_config failing_world example_sched example_state 0 1]
  obtain result where "fst (Run (CancelledFrom 0) example_config
        (recon_stages failing_world example_sched) example_state 0 1) = (Some result, None)"
    "res_Subdomains result = subdomains_of (Enumerate failing_world (rs_Enumerator example_state)
        (CancelledFrom 0) (cfg_Target example_config) (cfg_Concurrency example_config) example_sched)"
    by fastforce
  then show ?thesis by (simp add: failing_subdomains lower)
qed


subsection \<open>C2: the root domain\<close>

text \<open>
  C2. For every domain, environment, context, concurrency and order of the source
  goroutines, \<open>Enumerate\<close> returns no error, and the list it returns has an entry whose
  host is the lower-cased domain and whose sources contain \<open>root\<close>. Nothing is assumed
  of the sources: they may all fail.
\<close>

theorem root_domain_always_present:
  "snd (fst (Enumerate w e ctx domain concurrency sched)) = None \<and>
   (\<exists>sd \<in> set (subdomains_of (Enumerate w e ctx domain concurrency sched)).
      sd_Host sd = ToLower domain \<and> ''root'' \<in> set (sd_Sources sd))"
proof
  show "snd (fst (Enumerate w e ctx domain concurrency sched)) = None"
    by (rule Enumerate_no_error)
next
  have "ToLower domain \<in> sd_Host ` set (subdomains_of (Enumerate w e ctx domain concurrency sched))"
    unfolding Enumerate_hosts by simp
  then obtain sd where sd: "sd \<in> set (subdomains_of (Enumerate w e ctx domain concurrency sched))"
    "sd_Host sd = ToLower domain"
    by auto
  from Enumerate_sources [OF sd(1)] sd(2) have "''root'' \<in> set (sd_Sources sd)" by simp
  with sd show "\<exists>sd \<in> set (subdomains_of (Enumerate w e ctx domain concurrency sched)).
      sd_Host sd = ToLower domain \<and> ''root'' \<in> set (sd_Sources sd)"
    by blast
qed

theorem root_domain_always_present_witness:
  "(\<exists>sd \<in> set (subdomains_of (Enumerate example_world (rs_Enumerator example_state) Background
                     ''Example.com'' 10 example_sched)).
      sd_Host sd = ''example.com'' \<and> ''root'' \<in> set (sd_Sources sd)) \<and>
   (\<exists>sd \<in> set (subdomains_of (Enumerate failing_world (rs_Enumerator example_state) (CancelledFrom 0)
                     ''Example.com'' 10 example_sched)).
      sd_Host sd = ''example.com'' \<and> ''root'' \<in> set (sd_Sources sd)) \<and>
   source_hosts failing_world (rs_Enumerator example_state) (CancelledFrom 0) ''Example.com'' 10 Crtsh = None \<and>
   source_hosts failing_world (rs_Enumerator example_state) (CancelledFrom 0) ''Example.com'' 10 Hackertarget = None \<and>
   source_hosts failing_world (rs_Enumerator example_state) (CancelledFrom 0) ''Example.com'' 10 OTX = None \<and>
   source_hosts failing_world (rs_Enumerator example_state) (CancelledFrom 0) ''Example.com'' 10 Axfr = None"
proof -
  have lower: "ToLower ''Example.com'' = ''example.com''" by code_simp
  have "\<exists>sd \<in> set (subdomains_of (Enumerate example_world (rs_Enumerator example_state) Background
                     ''Example.com'' 10 example_sched)).
      sd_Host sd = ToLower ''Example.com'' \<and> ''root'' \<in> set (sd_Sources sd)"
    using root_domain_always_present [of example_world "rs_Enumerator example_state" Background
        "''Example.com''" 10 example_sched]
    by (rule conjunct2)
  moreover
  have "\<exists>sd \<in> set (subdomains_of (Enumerate failing_world (rs_Enumerator example_state) (CancelledFrom 0)
                     ''Example.com'' 10 example_sched)).
      sd_Host sd = ToLower ''Example.com'' \<and> ''root'' \<in> set (sd_Sources sd)"
    using root_domain_always_present [of failing_world "rs_Enumerator example_state" "CancelledFrom 0"
        "''Example.com''" 10 example_sched]
    by (rule conjunct2)
  moreover
  have "source_hosts failing_world (rs_Enumerator example_state) (CancelledFrom 0) ''Example.com'' 10 Crtsh = None"
    by (simp add: CrtshEnumerate_def crtshFetch_def crtshDoRequest_def failing_world_def)
  moreover
  have "source_hosts failing_world (rs_Enumerator example_state) (CancelledFrom 0) ''Example.com'' 10 Hackertarget = None"
    by (simp add: HackertargetEnumerate_def hackertargetFetch_def hackertargetDoRequest_def
        hackertargetRateMsg_def failing_world_def)
  moreover
  have "source_hosts failing_world (rs_Enumerator example_state) (CancelledFrom 0) ''Example.com'' 10 OTX = None"
    by (simp add: OTXEnumerate_def otxFetch_def otxDoRequest_def failing_world_def)
  moreover
  have "source_hosts failing_world (rs_Enumerator example_state) (CancelledFrom 0) ''Example.com'' 10 Axfr = None"
    by (simp add: AttemptZoneTransfers_def failing_world_def)
  ultimately show ?thesis by (simp only: lower)
qed


subsection \<open>C3: takeover candidates\<close>

text \<open>
  C3. \<open>checkDangling\<close> on a CNAME target whose lower-cased name ends in one of
  \<open>danglingPatterns\<close>: a lookup error that is a DNS error with \<open>IsNotFound\<close> gives one
  candidate with status NXDOMAIN, any other DNS error one with status SERVFAIL; a target
  that matches no pattern gives no candidate, whatever the error; no error gives no
  candidate. The same through \<open>DNSResolve\<close>: when every queued host is processed, a
  host of a duplicate-free queue whose stored CNAME matches and whose address lookup
  fails with a DNS error has exactly one candidate in the output, with the status of the
  error; a host whose CNAME does not match has none, and a host whose address lookup
  succeeds has none, for every context and concurrency.
\<close>

theorem dangling_classification:
  "(matchesPattern (ToLower cname) \<longrightarrow>
      checkDangling host cname (Some (DNSError True msg)) =
        Some \<lparr>dc_Host = host, dc_CNAME = cname, dc_Status = ''NXDOMAIN''\<rparr> \<and>
      checkDangling host cname (Some (DNSError False msg)) =
        Some \<lparr>dc_Host = host, dc_CNAME = cname, dc_Status = ''SERVFAIL''\<rparr>) \<and>
   (\<not> matchesPattern (ToLower cname) \<longrightarrow> checkDangling host cname lookupErr = None) \<and>
   checkDangling host cname None = None \<and>
   (0 < concurrency \<and> distinct hosts \<and> host \<in> set hosts \<and>
    record_CNAME w host = cname \<and> matchesPattern (ToLower cname) \<and>
    LookupHost w host = Inl (DNSError nf msg) \<longrightarrow>
      danglings_of (DNSResolve w Background hosts concurrency) host =
        [\<lparr>dc_Host = host, dc_CNAME = cname,
          dc_Status = (if nf then ''NXDOMAIN'' else ''SERVFAIL'')\<rparr>]) \<and>
   (\<not> matchesPattern (ToLower (record_CNAME w host)) \<longrightarrow>
      danglings_of (DNSResolve w ctx hosts concurrency) host = []) \<and>
   ((\<exists>ips. LookupHost w host = Inr ips) \<longrightarrow>
      danglings_of (DNSResolve w ctx hosts concurrency) host = [])"
proof (intro conjI impI)
  assume "matchesPattern (ToLower cname)"
  then show "checkDangling host cname (Some (DNSError True msg)) =
        Some \<lparr>dc_Host = host, dc_CNAME = cname, dc_Status = ''NXDOMAIN''\<rparr>"
    and "checkDangling host cname (Some (DNSError False msg)) =
        Some \<lparr>dc_Host = host, dc_CNAME = cname, dc_Status = ''SERVFAIL''\<rparr>"
    by (simp_all add: checkDangling_DNSError)
next
  assume "\<not> matchesPattern (ToLower cname)"
  then show "checkDangling host cname lookupErr = None" by (rule checkDangling_no_match)
next
  show "checkDangling host cname None = None" by (rule checkDangling_nil)
next
  assume a: "0 < concurrency \<and> distinct hosts \<and> host \<in> set hosts \<and>
    record_CNAME w host = cname \<and> matchesPattern (ToLower cname) \<and>
    LookupHost w host = Inl (DNSError nf msg)"
  then have "cname \<noteq> []" using matchesPattern_empty by auto
  with a have "snd (resolve_host w host) =
      Some \<lparr>dc_Host = host, dc_CNAME = cname, dc_Status = (if nf then ''NXDOMAIN'' else ''SERVFAIL'')\<rparr>"
    by (simp add: resolve_host_failed checkDangling_DNSError)
  with a show "danglings_of (DNSResolve w Background hosts concurrency) host =
        [\<lparr>dc_Host = host, dc_CNAME = cname,
          dc_Status = (if nf then ''NXDOMAIN'' else ''SERVFAIL'')\<rparr>]"
    by (simp add: danglings_of_one)
next
  assume "\<not> matchesPattern (ToLower (record_CNAME w host))"
  then show "danglings_of (DNSResolve w ctx hosts concurrency) host = []"
    by (simp add: danglings_of_none resolve_host_no_match)
next
  assume "\<exists>ips. LookupHost w host = Inr ips"
  then show "danglings_of (DNSResolve w ctx hosts concurrency) host = []"
    by (auto simp add: danglings_of_none resolve_host_resolved)
qed

theorem dangling_classification_witness:
  "danglings_of (DNSResolve example_world Background example_hosts 10) ''old.example.com'' =
     [\<lparr>dc_Host = ''old.example.com'', dc_CNAME = ''old-app.herokuapp.com'', dc_Status = ''NXDOMAIN''\<rparr>] \<and>
   danglings_of (DNSResolve example_world Background example_hosts 10) ''docs.example.com'' =
     [\<lparr>dc_Host = ''docs.example.com'', dc_CNAME = ''example.github.io'', dc_Status = ''SERVFAIL''\<rparr>] \<and>
   danglings_of (DNSResolve example_world Background example_hosts 10) ''cdn.example.com'' = [] \<and>
   danglings_of (DNSResolve example_world Background example_hosts 10) ''example.com'' = [] \<and>
   checkDangling ''blog.example.com'' ''old-blog.herokuapp.com'' (Some (DNSError True ''no such host'')) =
     Some \<lparr>dc_Host = ''blog.example.com'', dc_CNAME = ''old-blog.herokuapp.com'', dc_Status = ''NXDOMAIN''\<rparr> \<and>
   checkDangling ''cdn.example.com'' ''cdn.someother.com'' (Some (DNSError True ''no such host'')) = None"
proof -
  let ?out = "DNSResolve example_world Background example_hosts 10"
  have old: "0 < (10::int) \<and> distinct example_hosts \<and> ''old.example.com'' \<in> set example_hosts \<and>
      record_CNAME example_world ''old.example.com'' = ''old-app.herokuapp.com'' \<and>
      matchesPattern (ToLower ''old-app.herokuapp.com'') \<and>
      LookupHost example_world ''old.example.com'' =
        Inl (DNSError True ''lookup old.example.com: no such host'')"
    by code_simp
  have docs: "0 < (10::int) \<and> distinct example_hosts \<and> ''docs.example.com'' \<in> set example_hosts \<and>
      record_CNAME example_world ''docs.example.com'' = ''example.github.io'' \<and>
      matchesPattern (ToLower ''example.github.io'') \<and>
      LookupHost example_world ''docs.example.com'' =
        Inl (DNSError False ''lookup docs.example.com: server misbehaving'')"
    by code_simp
  have cdn: "\<not> matchesPattern (ToLower (record_CNAME example_world ''cdn.example.com''))"
    by code_simp
  have apex: "\<exists>ips. LookupHost example_world ''example.com'' = Inr ips"
    by (simp add: example_world_def)
  have blog: "matchesPattern (ToLower ''old-blog.herokuapp.com'')"
    by code_simp
  have other: "\<not> matchesPattern (ToLower ''cdn.someother.com'')"
    by code_simp
  have "danglings_of ?out ''old.example.com'' =
     [\<lparr>dc_Host = ''old.example.com'', dc_CNAME = ''old-app.herokuapp.com'',
       dc_Status = (if True then ''NXDOMAIN'' else ''SERVFAIL'')\<rparr>]"
    using dangling_classification [where w = example_world and hosts = example_hosts
        and host = "''old.example.com''" and cname = "''old-app.herokuapp.com''"
        and concurrency = "10" and nf = "True" and msg = "''lookup old.example.com: no such host''"] old
    by blast
  moreover have "danglings_of ?out ''docs.example.com'' =
     [\<lparr>dc_Host = ''docs.example.com'', dc_CNAME = ''example.github.io'',
       dc_Status = (if False then ''NXDOMAIN'' else ''SERVFAIL'')\<rparr>]"
    using dangling_classification [where w = example_world and hosts = example_hosts
        and host = "''docs.example.com''" and cname = "''example.github.io''"
        and concurrency = "10" and nf = "False" and msg = "''lookup docs.example.com: server misbehaving''"] docs
    by blast
  moreover have "danglings_of ?out ''cdn.example.com'' = []"
    using dangling_classification [where w = example_world and hosts = example_hosts
        and host = "''cdn.example.com''" and ctx = Background and concurrency = "10"] cdn
    by blast
  moreover have "danglings_of ?out ''example.com'' = []"
    using dangling_classification [where w = example_world and hosts = example_hosts
        and host = "''example.com''" and ctx = Background and concurrency = "10"] apex
    by blast
  moreover have "checkDangling ''blog.example.com'' ''old-blog.herokuapp.com''
      (Some (DNSError True ''no such host'')) =
     Some \<lparr>dc_Host = ''blog.example.com'', dc_CNAME = ''old-blog.herokuapp.com'', dc_Status = ''NXDOMAIN''\<rparr>"
    using dangling_classification [where host = "''blog.example.com''"
        and cname = "''old-blog.herokuapp.com''" and msg = "''no such host''"] blog
    by blast
  moreover have "checkDangling ''cdn.example.com'' ''cdn.someother.com''
      (Some (DNSError True ''no such host'')) = None"
    using dangling_classification [where host = "''cdn.example.com''"
        and cname = "''cdn.someother.com''" and lookupErr = "Some (DNSError True ''no such host'')"] other
    by blast
  ultimately show ?thesis by simp
qed

subsection \<open>C4: scheme selection of the HTTP prober\<close>

text \<open>
  C4. For every open port, \<open>probePort\<close> tries \<open>https\<close> and then \<open>http\<close> when the port
  is one of \<open>tlsFirstPorts\<close>, and \<open>http\<close> and then \<open>https\<close> otherwise; it returns what
  the first of the two calls of \<open>probeURL\<close> returns if that is a service, else what the
  second returns. \<open>probeURL\<close> returns a service for every response of the client, with
  the response's status code whatever it is, the URL and the scheme that were tried,
  and the host, address and port of the open port; it returns nothing when the client
  gives no response. A port that gives no response under either scheme yields nothing.
  The services of \<open>HTTPProbe\<close> are the services \<open>probePort\<close> returns for the ports of
  an initial part of the queue (all of it when the context is never cancelled and a
  worker exists), one at most for each port, so never more than there are open ports.
\<close>

theorem probe_scheme_selection:
  "(tlsFirstPorts (pr_Port pr) \<longrightarrow>
      probePort w pr ua =
        (case probeURL w (probe_url ''https'' pr) pr ''https'' ua of
           Some r \<Rightarrow> Some r
         | None \<Rightarrow> probeURL w (probe_url ''http'' pr) pr ''http'' ua)) \<and>
   (\<not> tlsFirstPorts (pr_Port pr) \<longrightarrow>
      probePort w pr ua =
        (case probeURL w (probe_url ''http'' pr) pr ''http'' ua of
           Some r \<Rightarrow> Some r
         | None \<Rightarrow> probeURL w (probe_url ''https'' pr) pr ''https'' ua)) \<and>
   (client_Do w url = Inr resp \<longrightarrow>
      (\<exists>svc pd. probeURL w url pr scheme ua = Some (svc, pd) \<and> svc_URL svc = url \<and>
         svc_Scheme svc = scheme \<and> svc_StatusCode svc = resp_StatusCode resp \<and>
         svc_Host svc = pr_Host pr \<and> svc_IP svc = pr_IP pr \<and> svc_Port svc = pr_Port pr)) \<and>
   (client_Do w url = Inl err \<longrightarrow> probeURL w url pr scheme ua = None) \<and>
   ((\<exists>e1. client_Do w (probe_url ''http'' pr) = Inl e1) \<and>
    (\<exists>e2. client_Do w (probe_url ''https'' pr) = Inl e2) \<longrightarrow> probePort w pr ua = None) \<and>
   (\<exists>n. services_of (HTTPProbe w ctx openPorts concurrency timeout ua) =
      List.map_filter (\<lambda>pr. map_option fst (probePort w pr ua)) (take n openPorts)) \<and>
   length (services_of (HTTPProbe w ctx openPorts concurrency timeout ua)) \<le> length openPorts \<and>
   (0 < concurrency \<longrightarrow>
      services_of (HTTPProbe w Background openPorts concurrency timeout ua) =
        List.map_filter (\<lambda>pr. map_option fst (probePort w pr ua)) openPorts)"
proof (intro conjI impI)
  assume "tlsFirstPorts (pr_Port pr)"
  then show "probePort w pr ua =
        (case probeURL w (probe_url ''https'' pr) pr ''https'' ua of
           Some r \<Rightarrow> Some r
         | None \<Rightarrow> probeURL w (probe_url ''http'' pr) pr ''http'' ua)"
    by (rule probePort_tls)
next
  assume "\<not> tlsFirstPorts (pr_Port pr)"
  then show "probePort w pr ua =
        (case probeURL w (probe_url ''http'' pr) pr ''http'' ua of
           Some r \<Rightarrow> Some r
         | None \<Rightarrow> probeURL w (probe_url ''https'' pr) pr ''https'' ua)"
    by (rule probePort_plain)
next
  assume "client_Do w url = Inr resp"
  then show "\<exists>svc pd. probeURL w url pr scheme ua = Some (svc, pd) \<and> svc_URL svc = url \<and>
         svc_Scheme svc = scheme \<and> svc_StatusCode svc = resp_StatusCode resp \<and>
         svc_Host svc = pr_Host pr \<and> svc_IP svc = pr_IP pr \<and> svc_Port svc = pr_Port pr"
    by (rule probeURL_response)
next
  assume "client_Do w url = Inl err"
  then show "probeURL w url pr scheme ua = None" by (rule probeURL_no_response)
next
  assume "(\<exists>e1. client_Do w (probe_url ''http'' pr) = Inl e1) \<and>
    (\<exists>e2. client_Do w (probe_url ''https'' pr) = Inl e2)"
  then have "probeURL w (probe_url ''http'' pr) pr ''http'' ua = None"
    and "probeURL w (probe_url ''https'' pr) pr ''https'' ua = None"
    by (auto simp: probeURL_no_response)
  then show "probePort w pr ua = None"
    by (cases "tlsFirstPorts (pr_Port pr)") (simp_all add: probePort_tls probePort_plain)
next
  show "\<exists>n. services_of (HTTPProbe w ctx openPorts concurrency timeout ua) =
      List.map_filter (\<lambda>pr. map_option fst (probePort w pr ua)) (take n openPorts)"
    by (rule HTTPProbe_take)
next
  obtain n where "services_of (HTTPProbe w ctx openPorts concurrency timeout ua) =
      List.map_filter (\<lambda>pr. map_option fst (probePort w pr ua)) (take n openPorts)"
    using HTTPProbe_take [of w ctx openPorts concurrency timeout ua] by blast
  moreover have "length (List.map_filter (\<lambda>pr. map_option fst (probePort w pr ua)) (take n openPorts))
      \<le> length (take n openPorts)"
    by (rule length_map_filter_le)
  ultimately show "length (services_of (HTTPProbe w ctx openPorts concurrency timeout ua)) \<le> length openPorts"
    by simp
next
  assume "0 < concurrency"
  then show "services_of (HTTPProbe w Background openPorts concurrency timeout ua) =
        List.map_filter (\<lambda>pr. map_option fst (probePort w pr ua)) openPorts"
    by (rule HTTPProbe_Background)
qed

theorem probe_scheme_selection_witness:
  "(\<exists>svc pd. probePort example_world example_port_tls ''sweep'' = Some (svc, pd) \<and>
      svc_URL svc = ''https://example.com:443'' \<and> svc_Scheme svc = ''https'' \<and>
      svc_StatusCode svc = 200) \<and>
   (\<exists>svc pd. probePort example_world example_port_plain ''sweep'' = Some (svc, pd) \<and>
      svc_URL svc = ''http://www.example.com:80'' \<and> svc_Scheme svc = ''http'' \<and>
      svc_StatusCode svc = 400) \<and>
   probePort example_world example_port_silent ''sweep'' = None \<and>
   length (services_of (HTTPProbe example_world Background example_ports 5 2 ''sweep'')) \<le> 3"
proof (intro conjI)
  let ?resp = "\<lparr>resp_StatusCode = 200,
                  resp_Header = [(''Server'', [''nginx/1.24.0'']), (''Cf-Ray'', [''''])],
                  resp_Body = ''<html><title> Example </title></html>'',
                  resp_ContentLength = 37, resp_Cookies = []\<rparr>"
  have url: "probe_url ''https'' example_port_tls = ''https://example.com:443''"
    by (simp add: probe_url_def example_port_tls_def Itoa_eval)
  have tls: "tlsFirstPorts (pr_Port example_port_tls)"
    by (simp add: tlsFirstPorts_def example_port_tls_def)
  have resp: "client_Do example_world ''https://example.com:443'' = Inr ?resp"
    by (simp add: example_world_def)
  note T = probe_scheme_selection [where w = example_world and pr = example_port_tls
      and ua = "''sweep''" and url = "''https://example.com:443''" and scheme = "''https''"
      and resp = ?resp]
  from T [THEN conjunct2, THEN conjunct2, THEN conjunct1, rule_format, OF resp] obtain svc pd where
    "probeURL example_world ''https://example.com:443'' example_port_tls ''https'' ''sweep'' = Some (svc, pd)"
    "svc_URL svc = ''https://example.com:443''" "svc_Scheme svc = ''https''"
    "svc_StatusCode svc = resp_StatusCode ?resp"
    by blast
  moreover from T [THEN conjunct1, rule_format, OF tls]
  have "probePort example_world example_port_tls ''sweep'' =
      (case probeURL example_world (probe_url ''https'' example_port_tls) example_port_tls ''https'' ''sweep'' of
         Some r \<Rightarrow> Some r
       | None \<Rightarrow> probeURL example_world (probe_url ''http'' example_port_tls) example_port_tls ''http'' ''sweep'')" .
  ultimately show "\<exists>svc pd. probePort example_world example_port_tls ''sweep'' = Some (svc, pd) \<and>
      svc_URL svc = ''https://example.com:443'' \<and> svc_Scheme svc = ''https'' \<and>
      svc_StatusCode svc = 200"
    by (simp add: url)
next
  let ?resp = "\<lparr>resp_StatusCode = 400, resp_Header = [(''Cf-Ray'', [''8a1b2c3d''])],
                  resp_Body = ''Bad Request /wp-content/'', resp_ContentLength = 24,
                  resp_Cookies = [''PHPSESSID'']\<rparr>"
  have url: "probe_url ''http'' example_port_plain = ''http://www.example.com:80''"
    by (simp add: probe_url_def example_port_plain_def Itoa_eval)
  have plain: "\<not> tlsFirstPorts (pr_Port example_port_plain)"
    by (simp add: tlsFirstPorts_def example_port_plain_def)
  have resp: "client_Do example_world ''http://www.example.com:80'' = Inr ?resp"
    by (simp add: example_world_def)
  note T = probe_scheme_selection [where w = example_world and pr = example_port_plain
      and ua = "''sweep''" and url = "''http://www.example.com:80''" and scheme = "''http''"
      and resp = ?resp]
  from T [THEN conjunct2, THEN conjunct2, THEN conjunct1, rule_format, OF resp] obtain svc pd where
    "probeURL example_world ''http://www.example.com:80'' example_port_plain ''http'' ''sweep'' = Some (svc, pd)"
    "svc_URL svc = ''http://www.example.com:80''" "svc_Scheme svc = ''http''"
    "svc_StatusCode svc = resp_StatusCode ?resp"
    by blast
  moreover from T [THEN conjunct2, THEN conjunct1, rule_format, OF plain]
  have "probePort example_world example_port_plain ''sweep'' =
      (case probeURL example_world (probe_url ''http'' example_port_plain) example_port_plain ''http'' ''sweep'' of
         Some r \<Rightarrow> Some r
       | None \<Rightarrow> probeURL example_world (probe_url ''https'' example_port_plain) example_port_plain ''https'' ''sweep'')" .
  ultimately show "\<exists>svc pd. probePort example_world example_port_plain ''sweep'' = Some (svc, pd) \<and>
      svc_URL svc = ''http://www.example.com:80'' \<and> svc_Scheme svc = ''http'' \<and>
      svc_StatusCode svc = 400"
    by (simp add: url)
next
  have "probe_url ''http'' example_port_silent = ''http://www.example.com:8443''"
    by (simp add: probe_url_def example_port_silent_def Itoa_eval)
  moreover have "probe_url ''https'' example_port_silent = ''https://www.example.com:8443''"
    by (simp add: probe_url_def example_port_silent_def Itoa_eval)
  ultimately have "(\<exists>e1. client_Do example_world (probe_url ''http'' example_port_silent) = Inl e1) \<and>
    (\<exists>e2. client_Do example_world (probe_url ''https'' example_port_silent) = Inl e2)"
    by (simp add: example_world_def)
  from probe_scheme_selection [where w = example_world and pr = example_port_silent and ua = "''sweep''",
      THEN conjunct2, THEN conjunct2, THEN conjunct2, THEN conjunct2, THEN conjunct1, rule_format, OF this]
  show "probePort example_world example_port_silent ''sweep'' = None" .
next
  have "length example_ports = 3" by (simp add: example_ports_def)
  with probe_scheme_selection [where w = example_world and ctx = Background
      and openPorts = example_ports and concurrency = "5" and timeout = "2" and ua = "''sweep''",
      THEN conjunct2, THEN conjunct2, THEN conjunct2, THEN conjunct2, THEN conjunct2, THEN conjunct2, THEN conjunct1]
  show "length (services_of (HTTPProbe example_world Background example_ports 5 2 ''sweep'')) \<le> 3"
    by simp
qed

subsection \<open>C5: the aggregate\<close>

text \<open>
  C5. Let the source goroutines of one invocation of \<open>Enumerate\<close> run in any order.
  Every entry of the returned list has a host without an upper-case letter (none of its
  bytes lies in \<open>A\<close>..\<open>Z\<close>) and a non-empty source list without repetition, and
  each name in that list is either \<open>root\<close>, on the entry of the
  lower-cased domain, or the name of a source that was started in this invocation,
  returned without error and reported this host. The hosts of the list are pairwise
  distinct. Provenance is additive: every host that a started source reports without
  error has an entry, and that entry carries the source's name; so a host reported by
  two sources carries both.
\<close>

theorem aggregate_invariant:
  assumes sched: "set sched = set (launched e)"
  shows
   "(\<forall>sd \<in> set (subdomains_of (Enumerate w e ctx domain concurrency sched)).
       (\<forall>c \<in> set (sd_Host sd). \<not> (CHR ''A'' \<le> c \<and> c \<le> CHR ''Z'')) \<and>
       sd_Sources sd \<noteq> [] \<and> distinct (sd_Sources sd) \<and>
       (\<forall>name \<in> set (sd_Sources sd).
          name = ''root'' \<and> sd_Host sd = ToLower domain \<or>
          (\<exists>src \<in> set (launched e). name = source_name src \<and>
             (\<exists>hosts. source_hosts w e ctx domain concurrency src = Some hosts \<and>
                      sd_Host sd \<in> set hosts)))) \<and>
    distinct (map sd_Host (subdomains_of (Enumerate w e ctx domain concurrency sched))) \<and>
    (\<forall>src \<in> set (launched e). \<forall>hosts.
       source_hosts w e ctx domain concurrency src = Some hosts \<longrightarrow>
       (\<forall>h \<in> set hosts.
          \<exists>sd \<in> set (subdomains_of (Enumerate w e ctx domain concurrency sched)).
            sd_Host sd = h \<and> source_name src \<in> set (sd_Sources sd)))"
proof (intro conjI ballI allI impI)
  let ?subs = "subdomains_of (Enumerate w e ctx domain concurrency sched)"
  let ?M = "final_hostSources w e ctx domain concurrency sched"
  show "distinct (map sd_Host ?subs)" by (rule Enumerate_distinct)
  {
    fix sd c assume sd: "sd \<in> set ?subs" and c: "c \<in> set (sd_Host sd)"
    from sd have "sd_Host sd \<in> sd_Host ` set ?subs" by simp
    then have "sd_Host sd = ToLower domain \<or>
        (\<exists>src \<in> set sched. \<exists>hosts. source_hosts w e ctx domain concurrency src = Some hosts \<and>
           sd_Host sd \<in> set hosts)"
      unfolding Enumerate_hosts by auto
    then have "lower_cased (sd_Host sd)"
      using lower_cased_source_hosts by (auto simp del: source_hosts.simps)
    with c show "\<not> (CHR ''A'' \<le> c \<and> c \<le> CHR ''Z'')" unfolding lower_cased_def by blast
  }
  {
    fix sd assume sd: "sd \<in> set ?subs"
    then obtain k ss where kss: "(k, ss) \<in> set ?M"
      "sd = \<lparr>sd_Host = k, sd_Sources = deduplicateSources ss\<rparr>"
      unfolding Enumerate_member by blast
    from final_hostSources_ok [of w e ctx domain concurrency sched] kss(1) have "ss \<noteq> []"
      by (auto simp: host_map_ok_def)
    then have "deduplicateSources ss \<noteq> []"
      using set_deduplicateSources [of ss] by (metis set_empty)
    with kss(2) show "sd_Sources sd \<noteq> []" by simp
    from kss(2) show "distinct (sd_Sources sd)" by simp
    fix name assume "name \<in> set (sd_Sources sd)"
    with Enumerate_sources [OF sd]
    show "name = ''root'' \<and> sd_Host sd = ToLower domain \<or>
          (\<exists>src \<in> set (launched e). name = source_name src \<and>
             (\<exists>hosts. source_hosts w e ctx domain concurrency src = Some hosts \<and>
                      sd_Host sd \<in> set hosts))"
      unfolding sched [symmetric] by (auto split: if_splits simp del: source_hosts.simps)
  }
  fix src hosts h
  assume src: "src \<in> set (launched e)"
    and hosts: "source_hosts w e ctx domain concurrency src = Some hosts"
    and h: "h \<in> set hosts"
  from src sched have s: "src \<in> set sched" by simp
  with hosts h have "h \<in> sd_Host ` set ?subs"
    unfolding Enumerate_hosts by (auto simp del: source_hosts.simps)
  then obtain sd where sd: "sd \<in> set ?subs" "sd_Host sd = h" by auto
  from s hosts h sd(2) have "source_name src \<in> set (sd_Sources sd)"
    unfolding Enumerate_sources [OF sd(1)] by (auto simp del: source_hosts.simps)
  with sd show "\<exists>sd \<in> set ?subs. sd_Host sd = h \<and> source_name src \<in> set (sd_Sources sd)"
    by blast
qed

theorem aggregate_invariant_witness:
  "distinct (map sd_Host (subdomains_of (Enumerate example_world (rs_Enumerator example_state)
      Background ''example.com'' 10 example_sched))) \<and>
   (\<exists>sd \<in> set (subdomains_of (Enumerate example_world (rs_Enumerator example_state)
      Background ''example.com'' 10 example_sched)).
      sd_Host sd = ''www.example.com'' \<and> ''hackertarget'' \<in> set (sd_Sources sd) \<and>
      ''brute'' \<in> set (sd_Sources sd) \<and> sd_Sources sd \<noteq> [] \<and> distinct (sd_Sources sd)) \<and>
   DefaultClient_Do example_world ''https://api.hackertarget.com/hostsearch/?q=example.com'' 0 =
     Reply 200 (Inr (''www.example.com,93.184.216.35'' @ [CHR 0x0A] @
                     ''API.example.com,93.184.216.36'' @ [CHR 0x0A])) \<and>
   (\<exists>sd \<in> set (subdomains_of (Enumerate example_world (rs_Enumerator example_state)
      Background ''example.com'' 10 example_sched)).
      sd_Host sd = ''api.example.com'' \<and> ''hackertarget'' \<in> set (sd_Sources sd)) \<and>
   ''API.example.com'' \<notin> sd_Host ` set (subdomains_of (Enumerate example_world
      (rs_Enumerator example_state) Background ''example.com'' 10 example_sched)) \<and>
   ''example.com'' \<in> sd_Host ` set (subdomains_of (Enumerate example_world
      (rs_Enumerator example_state) Background ''Example.com'' 10 example_sched)) \<and>
   ''Example.com'' \<notin> sd_Host ` set (subdomains_of (Enumerate example_world
      (rs_Enumerator example_state) Background ''Example.com'' 10 example_sched))"
proof -
  let ?e = "rs_Enumerator example_state"
  let ?subs = "subdomains_of (Enumerate example_world ?e Background ''example.com'' 10 example_sched)"
  let ?subs' = "subdomains_of (Enumerate example_world ?e Background ''Example.com'' 10 example_sched)"
  have sched: "set example_sched = set (launched ?e)"
    by (auto simp: example_sched_def launched_def example_state_def)
  note T = aggregate_invariant [where w = example_world and ctx = Background
      and domain = "''example.com''" and concurrency = "10", OF sched]
  note T' = aggregate_invariant [where w = example_world and ctx = Background
      and domain = "''Example.com''" and concurrency = "10", OF sched]
  have upper: "CHR ''A'' \<le> CHR ''A'' \<and> CHR ''A'' \<le> CHR ''Z''"
    "CHR ''A'' \<le> CHR ''E'' \<and> CHR ''E'' \<le> CHR ''Z''"
    by (simp_all add: less_eq_char_def)
  have ht: "source_hosts example_world ?e Background ''example.com'' 10 Hackertarget =
      Some [''www.example.com'', ''api.example.com'']"
    by (simp add: HackertargetEnumerate_def hackertargetFetch_def hackertargetDoRequest_def
        hackertargetRateMsg_def hackertargetMaxBody_def parseHackertargetResponse_def
        example_world_def TrimSpace_def space_runes_def before_comma_def ToLower_eval HasSuffix_def
        suffix_to_prefix append_unseen_def Let_def)
  have br: "source_hosts example_world ?e Background ''example.com'' 10 Brute =
      Some [''www.example.com'']"
    by (simp add: BruteEnumerate_def run_workers_def brute_body_def example_world_def Quo_def
        ToLower_eval Let_def)
  have l1: "Hackertarget \<in> set (launched ?e)" and l2: "Brute \<in> set (launched ?e)"
    by (simp_all add: launched_def)
  have d: "distinct (map sd_Host ?subs)"
    using T by (rule conjunct2 [THEN conjunct1])
  from T [THEN conjunct2, THEN conjunct2, rule_format, OF l1 ht, of "''www.example.com''"]
  obtain sd1 where sd1: "sd1 \<in> set ?subs" "sd_Host sd1 = ''www.example.com''"
    "source_name Hackertarget \<in> set (sd_Sources sd1)"
    by auto
  from T [THEN conjunct2, THEN conjunct2, rule_format, OF l2 br, of "''www.example.com''"]
  obtain sd2 where sd2: "sd2 \<in> set ?subs" "sd_Host sd2 = ''www.example.com''"
    "source_name Brute \<in> set (sd_Sources sd2)"
    by auto
  from T [THEN conjunct2, THEN conjunct2, rule_format, OF l1 ht, of "''api.example.com''"]
  obtain sd3 where sd3: "sd3 \<in> set ?subs" "sd_Host sd3 = ''api.example.com''"
    "source_name Hackertarget \<in> set (sd_Sources sd3)"
    by auto
  from d sd1(1,2) sd2(1,2) have "sd1 = sd2"
    by (metis distinct_map inj_onD)
  with sd2(3) have b: "''brute'' \<in> set (sd_Sources sd1)" by simp
  from sd1(3) have h: "''hackertarget'' \<in> set (sd_Sources sd1)" by simp
  from T [THEN conjunct1, rule_format, OF sd1(1)]
  have "sd_Sources sd1 \<noteq> []" "distinct (sd_Sources sd1)"
    by simp_all
  with sd1(1,2) b h have www: "\<exists>sd \<in> set ?subs.
      sd_Host sd = ''www.example.com'' \<and> ''hackertarget'' \<in> set (sd_Sources sd) \<and>
      ''brute'' \<in> set (sd_Sources sd) \<and> sd_Sources sd \<noteq> [] \<and> distinct (sd_Sources sd)"
    by blast
  have raw: "DefaultClient_Do example_world ''https://api.hackertarget.com/hostsearch/?q=example.com'' 0 =
     Reply 200 (Inr (''www.example.com,93.184.216.35'' @ [CHR 0x0A] @
                     ''API.example.com,93.184.216.36'' @ [CHR 0x0A]))"
    by (simp add: example_world_def)
  from sd3 have api: "\<exists>sd \<in> set ?subs.
      sd_Host sd = ''api.example.com'' \<and> ''hackertarget'' \<in> set (sd_Sources sd)"
    by auto
  have no_api: "''API.example.com'' \<notin> sd_Host ` set ?subs"
  proof
    assume "''API.example.com'' \<in> sd_Host ` set ?subs"
    then obtain sd where sd: "sd \<in> set ?subs" "sd_Host sd = ''API.example.com''" by auto
    from T [THEN conjunct1, rule_format, OF sd(1)]
    have "\<forall>c \<in> set (sd_Host sd). \<not> (CHR ''A'' \<le> c \<and> c \<le> CHR ''Z'')" by (rule conjunct1)
    then have "\<not> (CHR ''A'' \<le> CHR ''A'' \<and> CHR ''A'' \<le> CHR ''Z'')"
      unfolding sd(2) by simp
    with upper(1) show False by (rule notE [rotated])
  qed
  have "ToLower ''Example.com'' = ''example.com''" by (simp add: ToLower_eval)
  then have root: "''example.com'' \<in> sd_Host ` set ?subs'"
    unfolding Enumerate_hosts by simp
  have no_root: "''Example.com'' \<notin> sd_Host ` set ?subs'"
  proof
    assume "''Example.com'' \<in> sd_Host ` set ?subs'"
    then obtain sd where sd: "sd \<in> set ?subs'" "sd_Host sd = ''Example.com''" by auto
    from T' [THEN conjunct1, rule_format, OF sd(1)]
    have "\<forall>c \<in> set (sd_Host sd). \<not> (CHR ''A'' \<le> c \<and> c \<le> CHR ''Z'')" by (rule conjunct1)
    then have "\<not> (CHR ''A'' \<le> CHR ''E'' \<and> CHR ''E'' \<le> CHR ''Z'')"
      unfolding sd(2) by simp
    with upper(2) show False by (rule notE [rotated])
  qed
  from d www raw api no_api root no_root show ?thesis by (intro conjI)
qed


subsection \<open>C6: the retry of a fetch\<close>

text \<open>
  C6 at a response with status 404, on a context that is never cancelled: each of the
  three fetches waits out its back-off and sends a second request. The error of the
  first request is not a server-side error; the fetch retries because the text of the
  error does not contain \<open>429\<close>.
\<close>

theorem client_error_is_retried:
  "crtshFetch not_found_world Background ''https://crt.sh/?q=%25.example.com&output=json'' ''sweep'' =
     (Inl (OtherError ''crt.sh returned status 404''),
      [Request ''https://crt.sh/?q=%25.example.com&output=json'' 0, Backoff 3,
       Request ''https://crt.sh/?q=%25.example.com&output=json'' 1]) \<and>
   hackertargetFetch not_found_world Background ''https://api.hackertarget.com/hostsearch/?q=example.com'' ''sweep'' =
     (Inl (OtherError ''hackertarget returned status 404''),
      [Request ''https://api.hackertarget.com/hostsearch/?q=example.com'' 0, Backoff 2,
       Request ''https://api.hackertarget.com/hostsearch/?q=example.com'' 1]) \<and>
   otxFetch not_found_world Background ''https://otx.alienvault.com/api/v1/indicators/domain/example.com/passive_dns'' ''sweep'' =
     (Inl (OtherError ''otx returned status 404''),
      [Request ''https://otx.alienvault.com/api/v1/indicators/domain/example.com/passive_dns'' 0, Backoff 3,
       Request ''https://otx.alienvault.com/api/v1/indicators/domain/example.com/passive_dns'' 1])"
proof (intro conjI)
  have reply: "DefaultClient_Do not_found_world url n = Reply 404 (Inr '''')" for url n
    by (simp add: not_found_world_def)
  have code: "Itoa 404 = ''404''" by (simp add: Itoa_eval)
  show "crtshFetch not_found_world Background ''https://crt.sh/?q=%25.example.com&output=json'' ''sweep'' =
     (Inl (OtherError ''crt.sh returned status 404''),
      [Request ''https://crt.sh/?q=%25.example.com&output=json'' 0, Backoff 3,
       Request ''https://crt.sh/?q=%25.example.com&output=json'' 1])"
    by (simp add: crtshFetch_def crtshDoRequest_def crtshRetryDelay_def reply code)
  show "hackertargetFetch not_found_world Background ''https://api.hackertarget.com/hostsearch/?q=example.com'' ''sweep'' =
     (Inl (OtherError ''hackertarget returned status 404''),
      [Request ''https://api.hackertarget.com/hostsearch/?q=example.com'' 0, Backoff 2,
       Request ''https://api.hackertarget.com/hostsearch/?q=example.com'' 1])"
    by (simp add: hackertargetFetch_def hackertargetDoRequest_def hackertargetRetryDelay_def
        hackertargetRateMsg_def reply code)
  show "otxFetch not_found_world Background ''https://otx.alienvault.com/api/v1/indicators/domain/example.com/passive_dns'' ''sweep'' =
     (Inl (OtherError ''otx returned status 404''),
      [Request ''https://otx.alienvault.com/api/v1/indicators/domain/example.com/passive_dns'' 0, Backoff 3,
       Request ''https://otx.alienvault.com/api/v1/indicators/domain/example.com/passive_dns'' 1])"
    by (simp add: otxFetch_def otxDoRequest_def otxRetryDelay_def reply code)
qed


subsection \<open>C7: early termination without live hosts\<close>

text \<open>
  C7. When the enumerator returns a non-empty list without error and no record returned
  by the resolver has an address, \<open>Run\<close> returns a result and no error, whether or not
  the resolver reported an error. It calls neither the scanner nor the prober nor the
  fingerprinter: none of the three occurs among the calls it makes, and replacing them by
  any other implementations changes nothing of what \<open>Run\<close> returns. The result holds
  the subdomains, the DNS records, the dangling CNAMEs, and the zone transfers and
  warnings of the enumerator; it has no open ports and no HTTP services. Its summary is
  \<open>buildSummary\<close> of the returned result itself, the counts of exactly these
  collections.
\<close>

theorem early_termination_without_live_hosts:
  assumes enum: "Enumerator_Enumerate stages s ctx (cfg_Target cfg) (cfg_Concurrency cfg) =
      ((subdomains, None), s1)"
    and nonempty: "subdomains \<noteq> []"
    and resolve: "Resolver_Resolve stages s1 ctx (map sd_Host subdomains) (cfg_Concurrency cfg) =
      ((dnsRecords, danglings, err), s2)"
    and dead: "\<forall>r \<in> set dnsRecords. dns_IPs r = []"
  shows "\<exists>result evs.
     Run ctx cfg stages s started now = ((Some result, None), evs, s2) \<and>
     Invoke Scanner \<notin> set evs \<and> Invoke Prober \<notin> set evs \<and> Invoke Fingerprinter \<notin> set evs \<and>
     res_Subdomains result = subdomains \<and> res_DNSRecords result = dnsRecords \<and>
     res_DanglingCNAMEs result = danglings \<and>
     res_ZoneTransfers result =
       (case Enumerator_GetZoneTransfers stages of None \<Rightarrow> [] | Some get \<Rightarrow> get s1) \<and>
     res_Warnings result =
       (case Enumerator_GetWarnings stages of None \<Rightarrow> [] | Some get \<Rightarrow> get s1) \<and>
     res_OpenPorts result = [] \<and> res_HTTPServices result = [] \<and>
     res_Summary result = buildSummary result \<and>
     res_Summary result =
       \<lparr>sum_SubdomainsFound = length subdomains, sum_LiveHosts = 0, sum_OpenPortCount = 0,
        sum_HTTPServiceCount = 0, sum_TechCount = 0, sum_DanglingCNAMEs = length danglings,
        sum_ZoneTransferCount = length (filter zt_Success (res_ZoneTransfers result))\<rparr> \<and>
     Run ctx cfg (stages\<lparr>Scanner_Scan := scan, Prober_Probe := probe,
                         Fingerprinter_Fingerprint := fingerprint\<rparr>) s started now =
       Run ctx cfg stages s started now"
proof -
  let ?r0 = "\<lparr>res_Target = cfg_Target cfg, res_StartedAt = started, res_CompletedAt = 0,
                     res_Duration = 0, res_Subdomains = [], res_DNSRecords = [], res_OpenPorts = [],
                     res_HTTPServices = [], res_DanglingCNAMEs = [], res_ZoneTransfers = [],
                     res_Warnings = [],
                     res_Summary = \<lparr>sum_SubdomainsFound = 0, sum_LiveHosts = 0, sum_OpenPortCount = 0,
                                     sum_HTTPServiceCount = 0, sum_TechCount = 0, sum_DanglingCNAMEs = 0,
                                     sum_ZoneTransferCount = 0\<rparr>\<rparr>"
  let ?r1 = "?r0\<lparr>res_Subdomains := subdomains\<rparr>"
  let ?r2 = "(case Enumerator_GetZoneTransfers stages of
                None \<Rightarrow> ?r1 | Some get \<Rightarrow> ?r1\<lparr>res_ZoneTransfers := get s1\<rparr>)"
  let ?r3 = "(case Enumerator_GetWarnings stages of
                None \<Rightarrow> ?r2 | Some get \<Rightarrow> ?r2\<lparr>res_Warnings := get s1\<rparr>)"
  let ?evs1 = "[Stage 1 totalStages ''Enumerating subdomains...'', Invoke Enumerator,
                Detail (''Found '' @ Itoa (int (length subdomains)) @ '' unique subdomains'')]"
  let ?result = "complete now (?r3\<lparr>res_DNSRecords := dnsRecords, res_DanglingCNAMEs := danglings\<rparr>)"
  let ?evs = "?evs1 @ [Stage 2 totalStages ''Resolving DNS records...'', Invoke Resolver] @
        (case err of None \<Rightarrow> [] | Some e \<Rightarrow> [Warn (''DNS resolution error: '' @ Error e)]) @
        [Detail (Itoa 0 @ '' hosts resolved, '' @ Itoa (int (length danglings)) @ '' dangling CNAMEs detected''),
         Warn ''No live hosts found, skipping port scan and HTTP probe'']"
  from dead have live: "liveHostCount dnsRecords = 0" by (simp add: liveHostCount_zero)
  have run: "Run ctx cfg stages s started now = ((Some ?result, None), ?evs, s2)"
    using enum nonempty run_resolve_no_live [OF resolve live, of now ?r3 ?evs1]
    by (simp add: Run_def Let_def)
  let ?stages' = "stages\<lparr>Scanner_Scan := scan, Prober_Probe := probe,
                         Fingerprinter_Fingerprint := fingerprint\<rparr>"
  have enum': "Enumerator_Enumerate ?stages' s ctx (cfg_Target cfg) (cfg_Concurrency cfg) =
      ((subdomains, None), s1)"
    using enum by simp
  have resolve': "Resolver_Resolve ?stages' s1 ctx (map sd_Host subdomains) (cfg_Concurrency cfg) =
      ((dnsRecords, danglings, err), s2)"
    using resolve by simp
  have run': "Run ctx cfg ?stages' s started now = ((Some ?result, None), ?evs, s2)"
    using enum' nonempty run_resolve_no_live [OF resolve' live, of now ?r3 ?evs1]
    by (simp add: Run_def Let_def)
  have ev: "Invoke Scanner \<notin> set ?evs" "Invoke Prober \<notin> set ?evs" "Invoke Fingerprinter \<notin> set ?evs"
    by (simp_all split: option.splits)
  have f1: "res_Subdomains ?result = subdomains" "res_DNSRecords ?result = dnsRecords"
    "res_DanglingCNAMEs ?result = danglings" "res_OpenPorts ?result = []" "res_HTTPServices ?result = []"
    by (simp_all add: complete_fields split: option.splits)
  have f2: "res_ZoneTransfers ?result =
       (case Enumerator_GetZoneTransfers stages of None \<Rightarrow> [] | Some get \<Rightarrow> get s1)"
    "res_Warnings ?result =
       (case Enumerator_GetWarnings stages of None \<Rightarrow> [] | Some get \<Rightarrow> get s1)"
    by (simp_all add: complete_fields split: option.splits)
  have s1: "res_Summary ?result = buildSummary ?result" by (rule complete_Summary)
  have nolive: "filter (\<lambda>r. 0 < length (dns_IPs r)) dnsRecords = []"
    using dead by (simp add: filter_empty_conv)
  have s2: "res_Summary ?result =
       \<lparr>sum_SubdomainsFound = length subdomains, sum_LiveHosts = 0, sum_OpenPortCount = 0,
        sum_HTTPServiceCount = 0, sum_TechCount = 0, sum_DanglingCNAMEs = length danglings,
        sum_ZoneTransferCount = length (filter zt_Success (res_ZoneTransfers ?result))\<rparr>"
    unfolding s1 by (simp only: buildSummary_def f1 nolive) simp
  have indep: "Run ctx cfg ?stages' s started now = Run ctx cfg stages s started now"
    by (simp only: run run')
  show ?thesis
    by (rule exI [where x = ?result], rule exI [where x = ?evs])
       (intro conjI run ev f1 f2 s1 s2 indep)
qed

theorem early_termination_without_live_hosts_witness:
  "\<exists>result evs.
     Run Background example_config mock_stages () 0 1 = ((Some result, None), evs, ()) \<and>
     Invoke Scanner \<notin> set evs \<and> Invoke Prober \<notin> set evs \<and>
     res_Subdomains result = [\<lparr>sd_Host = ''dead.example.com'', sd_Sources = [''brute'']\<rparr>] \<and>
     res_OpenPorts result = [] \<and>
     res_Warnings result = [''otx: otx rate limited (429)''] \<and>
     res_Summary result =
       \<lparr>sum_SubdomainsFound = 1, sum_LiveHosts = 0, sum_OpenPortCount = 0,
        sum_HTTPServiceCount = 0, sum_TechCount = 0, sum_DanglingCNAMEs = 1,
        sum_ZoneTransferCount = 0\<rparr>"
proof -
  let ?subdomains = "[\<lparr>sd_Host = ''dead.example.com'', sd_Sources = [''brute'']\<rparr>]"
  let ?records = "[\<lparr>dns_Host = ''dead.example.com'', dns_IPs = [], dns_CNAME = ''dead.herokuapp.com''\<rparr>]"
  let ?danglings = "[\<lparr>dc_Host = ''dead.example.com'', dc_CNAME = ''dead.herokuapp.com'',
                      dc_Status = ''NXDOMAIN''\<rparr>]"
  have enum: "Enumerator_Enumerate mock_stages () Background (cfg_Target example_config)
      (cfg_Concurrency example_config) = ((?subdomains, None), ())"
    by (simp add: mock_stages_def)
  have nonempty: "?subdomains \<noteq> []" by simp
  have resolve: "Resolver_Resolve mock_stages () Background (map sd_Host ?subdomains)
      (cfg_Concurrency example_config) = ((?records, ?danglings, None), ())"
    by (simp add: mock_stages_def)
  have dead: "\<forall>r \<in> set ?records. dns_IPs r = []" by simp
  from early_termination_without_live_hosts [OF enum nonempty resolve dead, of 0 1]
  obtain result evs where
    "Run Background example_config mock_stages () 0 1 = ((Some result, None), evs, ())"
    "Invoke Scanner \<notin> set evs" "Invoke Prober \<notin> set evs"
    "res_Subdomains result = ?subdomains" "res_OpenPorts result = []"
    "res_ZoneTransfers result =
       (case Enumerator_GetZoneTransfers mock_stages of None \<Rightarrow> [] | Some get \<Rightarrow> get ())"
    "res_Warnings result =
       (case Enumerator_GetWarnings mock_stages of None \<Rightarrow> [] | Some get \<Rightarrow> get ())"
    "res_Summary result =
       \<lparr>sum_SubdomainsFound = length ?subdomains, sum_LiveHosts = 0, sum_OpenPortCount = 0,
        sum_HTTPServiceCount = 0, sum_TechCount = 0, sum_DanglingCNAMEs = length ?danglings,
        sum_ZoneTransferCount = length (filter zt_Success (res_ZoneTransfers result))\<rparr>"
    by blast
  then have "Run Background example_config mock_stages () 0 1 = ((Some result, None), evs, ()) \<and>
     Invoke Scanner \<notin> set evs \<and> Invoke Prober \<notin> set evs \<and>
     res_Subdomains result = ?subdomains \<and> res_OpenPorts result = [] \<and>
     res_Warnings result = [''otx: otx rate limited (429)''] \<and>
     res_Summary result =
       \<lparr>sum_SubdomainsFound = 1, sum_LiveHosts = 0, sum_OpenPortCount = 0,
        sum_HTTPServiceCount = 0, sum_TechCount = 0, sum_DanglingCNAMEs = 1,
        sum_ZoneTransferCount = 0\<rparr>"
    by (simp add: mock_stages_def)
  then show ?thesis by blast
qed


subsection \<open>C8: fingerprint rules\<close>

text \<open>
  C8, as the code has it. A rule fires exactly when one of its conditions matches: a
  header condition, when the probe data has a value under the lower-cased header name
  and either the compiled pattern matches the value or the pattern is empty and the
  value is not empty; a body condition, when the lower-cased body contains the
  lower-cased substring; a cookie condition, when some cookie name equals it after
  lower-casing both. The pattern of a header condition is compiled with the prefix
  \<open>(?i)\<close>. Every rule that fires on the data of a service contributes its technology
  record to that service, in the order of the rule table.
\<close>

theorem fingerprint_rule_semantics:
  "(matchesRule rule data \<longleftrightarrow>
      (\<exists>hm \<in> set (rule_Headers rule). \<exists>v. pd_headers data (ToLower (hm_Name hm)) = Some v \<and>
         ((\<exists>re. hm_regex hm = Some re \<and> re v) \<or> (hm_Pattern hm = '''' \<and> v \<noteq> ''''))) \<or>
      (\<exists>substr \<in> set (rule_Body rule). Contains (ToLower (pd_body data)) (ToLower substr)) \<or>
      (\<exists>cookieName \<in> set (rule_Cookies rule). \<exists>c \<in> set (pd_cookies data).
         ToLower c = ToLower cookieName)) \<and>
   (fst (Unmarshal_rules w) = None \<longrightarrow>
      (\<forall>r \<in> set (loadFingerprints w). \<forall>hm \<in> set (rule_Headers r).
         hm_regex hm =
           (if hm_Pattern hm \<noteq> '''' then regexp_Compile w (''(?i)'' @ hm_Pattern hm) else None))) \<and>
   map svc_Technologies (FingerprintServices w services probeResults) =
     map (\<lambda>svc. map technology_of
                  (filter (\<lambda>r. matchesRule r (service_data probeResults svc)) (loadFingerprints w)))
       services"
proof (intro conjI impI ballI)
  show "matchesRule rule data \<longleftrightarrow>
      (\<exists>hm \<in> set (rule_Headers rule). \<exists>v. pd_headers data (ToLower (hm_Name hm)) = Some v \<and>
         ((\<exists>re. hm_regex hm = Some re \<and> re v) \<or> (hm_Pattern hm = '''' \<and> v \<noteq> ''''))) \<or>
      (\<exists>substr \<in> set (rule_Body rule). Contains (ToLower (pd_body data)) (ToLower substr)) \<or>
      (\<exists>cookieName \<in> set (rule_Cookies rule). \<exists>c \<in> set (pd_cookies data).
         ToLower c = ToLower cookieName)"
    unfolding matchesRule_def match_headers_iff match_body_iff match_cookies_iff by auto
next
  fix r hm
  assume "fst (Unmarshal_rules w) = None" "r \<in> set (loadFingerprints w)" "hm \<in> set (rule_Headers r)"
  then show "hm_regex hm =
      (if hm_Pattern hm \<noteq> '''' then regexp_Compile w (''(?i)'' @ hm_Pattern hm) else None)"
    by (rule loadFingerprints_regex)
next
  have "technology_of = (\<lambda>r. \<lparr>tech_Name = rule_Name r, tech_Category = rule_Category r\<rparr>)"
    by (rule ext) (simp add: technology_of_def)
  then show "map svc_Technologies (FingerprintServices w services probeResults) =
     map (\<lambda>svc. map technology_of
                  (filter (\<lambda>r. matchesRule r (service_data probeResults svc)) (loadFingerprints w)))
       services"
    by (simp add: FingerprintServices_def collect_techs_filter comp_def)
qed

theorem fingerprint_rule_semantics_witness:
  "matchesRule example_cloudflare_rule example_plain_data \<and>
   matchesRule example_wordpress_rule example_plain_data \<and>
   map hm_regex (rule_Headers (hd (loadFingerprints example_world))) =
     [regexp_Compile example_world ''(?i)nginx''] \<and>
   map svc_Technologies
     (FingerprintServices example_world [example_plain_service]
        [''http://www.example.com:80'' \<mapsto> example_plain_data]) =
     [[\<lparr>tech_Name = ''Cloudflare'', tech_Category = ''cdn-waf''\<rparr>,
       \<lparr>tech_Name = ''WordPress'', tech_Category = ''cms''\<rparr>]]"
proof (intro conjI)
  have "\<exists>hm \<in> set (rule_Headers example_cloudflare_rule).
      \<exists>v. pd_headers example_plain_data (ToLower (hm_Name hm)) = Some v \<and>
        ((\<exists>re. hm_regex hm = Some re \<and> re v) \<or> (hm_Pattern hm = '''' \<and> v \<noteq> ''''))"
    by (simp add: example_cloudflare_rule_def example_plain_data_def ToLower_eval)
  with fingerprint_rule_semantics [where rule = example_cloudflare_rule and data = example_plain_data,
      THEN conjunct1]
  show cf: "matchesRule example_cloudflare_rule example_plain_data" by blast
  have "\<exists>substr \<in> set (rule_Body example_wordpress_rule).
      Contains (ToLower (pd_body example_plain_data)) (ToLower substr)"
    by (simp add: example_wordpress_rule_def example_plain_data_def ToLower_eval)
  with fingerprint_rule_semantics [where rule = example_wordpress_rule and data = example_plain_data,
      THEN conjunct1]
  show wp: "matchesRule example_wordpress_rule example_plain_data" by blast
  have dec: "fst (Unmarshal_rules example_world) = None" by (simp add: example_world_def)
  have load: "loadFingerprints example_world =
      [example_nginx_rule\<lparr>rule_Headers := [\<lparr>hm_Name = ''Server'', hm_Pattern = ''nginx'',
          hm_regex = regexp_Compile example_world ''(?i)nginx''\<rparr>]\<rparr>,
       example_cloudflare_rule, example_wordpress_rule]"
    by (simp add: loadFingerprints_def example_world_def example_nginx_rule_def
        example_cloudflare_rule_def example_wordpress_rule_def compile_header_def decoded_header_def)
  then have hd: "hd (loadFingerprints example_world) \<in> set (loadFingerprints example_world)"
    by simp
  obtain hm where hs: "rule_Headers (hd (loadFingerprints example_world)) = [hm]"
    and pat: "hm_Pattern hm = ''nginx''"
    by (simp add: load example_nginx_rule_def)
  then have hm: "hm \<in> set (rule_Headers (hd (loadFingerprints example_world)))" by simp
  from fingerprint_rule_semantics [where w = example_world, THEN conjunct2, THEN conjunct1,
      rule_format, OF dec hd hm]
  have "hm_regex hm =
      (if hm_Pattern hm \<noteq> '''' then regexp_Compile example_world (''(?i)'' @ hm_Pattern hm) else None)" .
  with pat have "hm_regex hm = regexp_Compile example_world ''(?i)nginx''" by simp
  with hs show "map hm_regex (rule_Headers (hd (loadFingerprints example_world))) =
      [regexp_Compile example_world ''(?i)nginx'']" by simp
  have ng: "\<not> matchesRule (example_nginx_rule\<lparr>rule_Headers := [\<lparr>hm_Name = ''Server'', hm_Pattern = ''nginx'',
          hm_regex = regexp_Compile example_world ''(?i)nginx''\<rparr>]\<rparr>) example_plain_data"
    by (simp add: matchesRule_def example_nginx_rule_def example_plain_data_def ToLower_eval)
  have data: "service_data [''http://www.example.com:80'' \<mapsto> example_plain_data] example_plain_service =
      example_plain_data"
    by (simp add: service_data_def example_plain_service_def)
  have flt: "filter (\<lambda>r. matchesRule r example_plain_data) (loadFingerprints example_world) =
      [example_cloudflare_rule, example_wordpress_rule]"
    by (simp add: load ng cf wp)
  from fingerprint_rule_semantics [where w = example_world and services = "[example_plain_service]"
      and probeResults = "[''http://www.example.com:80'' \<mapsto> example_plain_data]",
      THEN conjunct2, THEN conjunct2]
  show "map svc_Technologies
     (FingerprintServices example_world [example_plain_service]
        [''http://www.example.com:80'' \<mapsto> example_plain_data]) =
     [[\<lparr>tech_Name = ''Cloudflare'', tech_Category = ''cdn-waf''\<rparr>,
       \<lparr>tech_Name = ''WordPress'', tech_Category = ''cms''\<rparr>]]"
    by (simp add: data flt technology_of_def example_cloudflare_rule_def
        example_wordpress_rule_def del: fun_upd_apply)
qed


text \<open>
  C8 as stated fails on the empty-pattern condition: the probe data of the example
  world's HTTPS response has the header \<open>Cf-Ray\<close>, with an empty value, and the rule
  whose only header condition names that header with an empty pattern does not fire.
\<close>

theorem empty_header_value_counterexample:
  "map_option snd (probeURL example_world ''https://example.com:443'' example_port_tls ''https'' ''sweep'') =
     Some example_tls_data \<and>
   rule_Headers example_cloudflare_rule = [\<lparr>hm_Name = ''CF-RAY'', hm_Pattern = '''', hm_regex = None\<rparr>] \<and>
   pd_headers example_tls_data (ToLower ''CF-RAY'') = Some '''' \<and>
   \<not> matchesRule example_cloudflare_rule example_tls_data"
proof (intro conjI)
  show "map_option snd (probeURL example_world ''https://example.com:443'' example_port_tls ''https'' ''sweep'') =
     Some example_tls_data"
    by (simp add: probeURL_def example_world_def example_tls_data_def httpProbeMaxBody_def
        ToLower_eval Let_def)
  show "rule_Headers example_cloudflare_rule = [\<lparr>hm_Name = ''CF-RAY'', hm_Pattern = '''', hm_regex = None\<rparr>]"
    by (simp add: example_cloudflare_rule_def)
  show "pd_headers example_tls_data (ToLower ''CF-RAY'') = Some ''''"
    by (simp add: example_tls_data_def ToLower_eval)
  show "\<not> matchesRule example_cloudflare_rule example_tls_data"
    by (simp add: example_cloudflare_rule_def example_tls_data_def matchesRule_def ToLower_eval)
qed


subsection \<open>C9: the zone-transfer stage\<close>

text \<open>
  C9, as the code has it. \<open>AttemptZoneTransfers\<close> returns an error exactly when the
  nameserver lookup fails, or yields no nameserver, or the context is found cancelled
  before one of the nameservers is attempted. After a lookup that yields nameservers it
  returns a result with one entry for each nameserver attempted, in order: all of them
  when it returns no error, those before the cancellation otherwise. The entry of a
  nameserver carries its name without the trailing dot; its success flag is set exactly
  when the AXFR of that nameserver completed, and its record count is the number of
  names harvested then and zero otherwise. A failed AXFR is no error of the stage.
\<close>

theorem zone_transfer_contract:
  "(snd (AttemptZoneTransfers w ctx domain) \<noteq> None \<longleftrightarrow>
      (\<exists>err. LookupNS w domain = Inl err) \<or> LookupNS w domain = Inr [] \<or>
      (\<exists>nss. LookupNS w domain = Inr nss \<and> (\<exists>k < length nss. ctx_Done ctx k))) \<and>
   (LookupNS w domain = Inr nameservers \<and> nameservers \<noteq> [] \<longrightarrow>
      (\<exists>r. fst (AttemptZoneTransfers w ctx domain) = Some r \<and>
           ztr_Transfers r =
             map (transfer_entry w domain) (take (attempted ctx nameservers) nameservers))) \<and>
   (LookupNS w domain = Inr nameservers \<and> snd (AttemptZoneTransfers w ctx domain) = None \<longrightarrow>
      (\<exists>r. fst (AttemptZoneTransfers w ctx domain) = Some r \<and>
           ztr_Transfers r = map (transfer_entry w domain) nameservers)) \<and>
   zt_Nameserver (transfer_entry w domain ns) = TrimSuffix ns ''.'' \<and>
   (zt_Success (transfer_entry w domain ns) \<longleftrightarrow>
      (\<exists>hostnames. attemptAXFR w domain (TrimSuffix ns ''.'') = Inr hostnames)) \<and>
   zt_Records (transfer_entry w domain ns) =
     (case attemptAXFR w domain (TrimSuffix ns ''.'') of
        Inl err \<Rightarrow> 0 | Inr hostnames \<Rightarrow> length hostnames)"
proof (intro conjI impI)
  show "snd (AttemptZoneTransfers w ctx domain) \<noteq> None \<longleftrightarrow>
      (\<exists>err. LookupNS w domain = Inl err) \<or> LookupNS w domain = Inr [] \<or>
      (\<exists>nss. LookupNS w domain = Inr nss \<and> (\<exists>k < length nss. ctx_Done ctx k))"
    by (rule AttemptZoneTransfers_error_iff)
next
  assume "LookupNS w domain = Inr nameservers \<and> nameservers \<noteq> []"
  then have "LookupNS w domain = Inr nameservers" "nameservers \<noteq> []" by simp_all
  from AttemptZoneTransfers_run [OF this, of ctx]
  show "\<exists>r. fst (AttemptZoneTransfers w ctx domain) = Some r \<and>
           ztr_Transfers r =
             map (transfer_entry w domain) (take (attempted ctx nameservers) nameservers)"
    by auto
next
  assume a: "LookupNS w domain = Inr nameservers \<and> snd (AttemptZoneTransfers w ctx domain) = None"
  then have ns: "LookupNS w domain = Inr nameservers" by simp
  from a have ne: "nameservers \<noteq> []" by (auto simp: AttemptZoneTransfers_def)
  from AttemptZoneTransfers_run [OF ns ne, of ctx] obtain r where
    r: "AttemptZoneTransfers w ctx domain =
           (Some r, if attempted ctx nameservers < length nameservers then Some context_Canceled else None)"
       "ztr_Transfers r = map (transfer_entry w domain) (take (attempted ctx nameservers) nameservers)"
    by blast
  with a have "\<not> attempted ctx nameservers < length nameservers" by (auto split: if_splits)
  with attempted_le [of ctx nameservers] have "attempted ctx nameservers = length nameservers" by simp
  with r show "\<exists>r. fst (AttemptZoneTransfers w ctx domain) = Some r \<and>
           ztr_Transfers r = map (transfer_entry w domain) nameservers"
    by simp
next
  show "zt_Nameserver (transfer_entry w domain ns) = TrimSuffix ns ''.''"
    by (simp add: transfer_entry_def split: sum.splits)
  show "zt_Success (transfer_entry w domain ns) \<longleftrightarrow>
      (\<exists>hostnames. attemptAXFR w domain (TrimSuffix ns ''.'') = Inr hostnames)"
    by (simp add: transfer_entry_def split: sum.splits)
  show "zt_Records (transfer_entry w domain ns) =
     (case attemptAXFR w domain (TrimSuffix ns ''.'') of
        Inl err \<Rightarrow> 0 | Inr hostnames \<Rightarrow> length hostnames)"
    by (simp add: transfer_entry_def split: sum.splits)
qed

theorem zone_transfer_contract_witness:
  "snd (AttemptZoneTransfers example_world Background ''example.com'') = None \<and>
   (\<exists>r. fst (AttemptZoneTransfers example_world Background ''example.com'') = Some r \<and>
        ztr_Transfers r =
          [\<lparr>zt_Nameserver = ''ns1.example.com'', zt_Success = True, zt_Records = 3\<rparr>,
           \<lparr>zt_Nameserver = ''ns2.example.com'', zt_Success = False, zt_Records = 0\<rparr>]) \<and>
   snd (AttemptZoneTransfers example_world Background ''example.org'') \<noteq> None"
proof -
  let ?nss = "[''ns1.example.com.'', ''ns2.example.com.'']"
  note T = zone_transfer_contract [where w = example_world and ctx = Background
      and domain = "''example.com''" and nameservers = ?nss]
  have ns: "LookupNS example_world ''example.com'' = Inr ?nss"
    by (simp add: example_world_def)
  have "\<not> ((\<exists>err. LookupNS example_world ''example.com'' = Inl err) \<or>
      LookupNS example_world ''example.com'' = Inr [] \<or>
      (\<exists>nss. LookupNS example_world ''example.com'' = Inr nss \<and> (\<exists>k < length nss. ctx_Done Background k)))"
    by (simp add: ns)
  with T [THEN conjunct1] have c1: "snd (AttemptZoneTransfers example_world Background ''example.com'') = None"
    by blast
  from ns c1 have "LookupNS example_world ''example.com'' = Inr ?nss \<and>
      snd (AttemptZoneTransfers example_world Background ''example.com'') = None"
    by (rule conjI)
  from T [THEN conjunct2, THEN conjunct2, THEN conjunct1, rule_format, OF this]
  obtain r where r: "fst (AttemptZoneTransfers example_world Background ''example.com'') = Some r"
    "ztr_Transfers r = map (transfer_entry example_world ''example.com'') ?nss"
    by blast
  have "map (transfer_entry example_world ''example.com'') ?nss =
      [\<lparr>zt_Nameserver = ''ns1.example.com'', zt_Success = True, zt_Records = 3\<rparr>,
       \<lparr>zt_Nameserver = ''ns2.example.com'', zt_Success = False, zt_Records = 0\<rparr>]"
    by (simp add: transfer_entry_def example_trim example_axfr_ns1 example_axfr_ns2)
  with r have c2: "\<exists>r. fst (AttemptZoneTransfers example_world Background ''example.com'') = Some r \<and>
        ztr_Transfers r =
          [\<lparr>zt_Nameserver = ''ns1.example.com'', zt_Success = True, zt_Records = 3\<rparr>,
           \<lparr>zt_Nameserver = ''ns2.example.com'', zt_Success = False, zt_Records = 0\<rparr>]"
    by simp
  have "\<exists>err. LookupNS example_world ''example.org'' = Inl err"
    by (simp add: example_world_def)
  with zone_transfer_contract [where w = example_world and ctx = Background
      and domain = "''example.org''", THEN conjunct1]
  have c3: "snd (AttemptZoneTransfers example_world Background ''example.org'') \<noteq> None"
    by blast
  from c1 c2 c3 show ?thesis by (intro conjI)
qed


text \<open>
  C9 as stated fails: the lookup yields two nameservers, the context is cancelled after
  the first attempt, and the stage returns an error and a single entry.
\<close>

theorem cancelled_zone_transfer_counterexample:
  "LookupNS example_world ''example.com'' = Inr [''ns1.example.com.'', ''ns2.example.com.''] \<and>
   snd (AttemptZoneTransfers example_world (CancelledFrom 1) ''example.com'') = Some context_Canceled \<and>
   map_option ztr_Transfers (fst (AttemptZoneTransfers example_world (CancelledFrom 1) ''example.com'')) =
     Some [\<lparr>zt_Nameserver = ''ns1.example.com'', zt_Success = True, zt_Records = 3\<rparr>]"
proof -
  let ?nss = "[''ns1.example.com.'', ''ns2.example.com.'']"
  have ns: "LookupNS example_world ''example.com'' = Inr ?nss"
    by (simp add: example_world_def)
  have ne: "?nss \<noteq> []" by simp
  from AttemptZoneTransfers_run [OF ns ne, of "CancelledFrom 1"] obtain r where
    "AttemptZoneTransfers example_world (CancelledFrom 1) ''example.com'' = (Some r, Some context_Canceled)"
    "ztr_Transfers r = map (transfer_entry example_world ''example.com'') (take 1 ?nss)"
    by (auto simp: attempted_def)
  then show ?thesis
    by (simp add: ns transfer_entry_def example_trim example_axfr_ns1)
qed


subsection \<open>C10: the later stages return no error\<close>

text \<open>
  C10. For every environment, context (a cancelled one included), input and concurrency,
  \<open>DNSResolve\<close>, \<open>PortScan\<close> and \<open>HTTPProbe\<close> return the \<^verbatim>\<open>nil\<close> error. Every
  record they return comes from an item of their input whose lookup, connection or probe
  succeeded; when every queued item is processed the output is exactly the input items
  that succeeded, in order, so a failure only leaves its item out. On a context cancelled
  before the call the outputs are empty. Hence a run of the orchestrator on the stages
  of package recon never reports a stage error through its reporter.
\<close>

theorem later_stages_return_nil_error:
  "snd (snd (DNSResolve w ctx hosts concurrency)) = None \<and>
   snd (PortScan w ctx dnsRecords ports concurrency timeout) = None \<and>
   snd (HTTPProbe w ctx openPorts concurrency timeout ua) = None \<and>
   (\<forall>r \<in> set (fst (DNSResolve w ctx hosts concurrency)).
      dns_Host r \<in> set hosts \<and> resolves w (dns_Host r)) \<and>
   (\<forall>p \<in> set (fst (PortScan w ctx dnsRecords ports concurrency timeout)).
      (pr_Host p, pr_IP p, pr_Port p) \<in> set (scan_targets dnsRecords ports) \<and>
      connects w (pr_Host p, pr_IP p, pr_Port p)) \<and>
   (\<forall>svc \<in> set (services_of (HTTPProbe w ctx openPorts concurrency timeout ua)).
      \<exists>pr \<in> set openPorts. \<exists>pd. probePort w pr ua = Some (svc, pd)) \<and>
   (0 < concurrency \<longrightarrow>
      map dns_Host (fst (DNSResolve w Background hosts concurrency)) = filter (resolves w) hosts \<and>
      fst (PortScan w Background dnsRecords ports concurrency timeout) =
        map open_port (filter (connects w) (scan_targets dnsRecords ports)) \<and>
      services_of (HTTPProbe w Background openPorts concurrency timeout ua) =
        List.map_filter (\<lambda>pr. map_option fst (probePort w pr ua)) openPorts) \<and>
   DNSResolve w (CancelledFrom 0) hosts concurrency = ([], [], None) \<and>
   PortScan w (CancelledFrom 0) dnsRecords ports concurrency timeout = ([], None) \<and>
   HTTPProbe w (CancelledFrom 0) openPorts concurrency timeout ua =
     (\<lparr>hp_Services = [], hp_ProbeData = Map.empty\<rparr>, None) \<and>
   filter stage_error_warning (fst (snd (Run ctx cfg (recon_stages w sched) s started now))) = []"
proof (intro conjI ballI impI)
  show "snd (snd (DNSResolve w ctx hosts concurrency)) = None" by (rule DNSResolve_no_error)
  show "snd (PortScan w ctx dnsRecords ports concurrency timeout) = None" by (rule PortScan_no_error)
  show "snd (HTTPProbe w ctx openPorts concurrency timeout ua) = None" by (rule HTTPProbe_no_error)
  show "DNSResolve w (CancelledFrom 0) hosts concurrency = ([], [], None)"
    by (simp add: DNSResolve_def run_workers_cancelled)
  show "PortScan w (CancelledFrom 0) dnsRecords ports concurrency timeout = ([], None)"
    by (simp add: PortScan_def run_workers_cancelled)
  show "HTTPProbe w (CancelledFrom 0) openPorts concurrency timeout ua =
     (\<lparr>hp_Services = [], hp_ProbeData = Map.empty\<rparr>, None)"
    by (simp add: HTTPProbe_def run_workers_cancelled)
  show "filter stage_error_warning (fst (snd (Run ctx cfg (recon_stages w sched) s started now))) = []"
    by (rule Run_recon_warnings)
next
  fix r assume r: "r \<in> set (fst (DNSResolve w ctx hosts concurrency))"
  from DNSResolve_sound [OF r] show "dns_Host r \<in> set hosts" and "resolves w (dns_Host r)"
    by (auto simp: resolves_def)
next
  fix p assume p: "p \<in> set (fst (PortScan w ctx dnsRecords ports concurrency timeout))"
  from PortScan_sound [OF p]
  show "(pr_Host p, pr_IP p, pr_Port p) \<in> set (scan_targets dnsRecords ports)"
    and "connects w (pr_Host p, pr_IP p, pr_Port p)"
    by (simp_all add: connects_def)
next
  fix svc assume "svc \<in> set (services_of (HTTPProbe w ctx openPorts concurrency timeout ua))"
  then show "\<exists>pr \<in> set openPorts. \<exists>pd. probePort w pr ua = Some (svc, pd)"
    by (rule HTTPProbe_sound)
next
  assume c: "0 < concurrency"
  then show "map dns_Host (fst (DNSResolve w Background hosts concurrency)) = filter (resolves w) hosts"
    by (simp add: DNSResolve_Background map_filter_hosts)
  have "open_port = (\<lambda>(host, ip, port). \<lparr>pr_Host = host, pr_IP = ip, pr_Port = port\<rparr>)"
    by (rule ext) (simp add: open_port_def)
  with c show "fst (PortScan w Background dnsRecords ports concurrency timeout) =
        map open_port (filter (connects w) (scan_targets dnsRecords ports))"
    by (simp add: PortScan_Background)
  from c show "services_of (HTTPProbe w Background openPorts concurrency timeout ua) =
        List.map_filter (\<lambda>pr. map_option fst (probePort w pr ua)) openPorts"
    by (rule HTTPProbe_Background)
qed

theorem later_stages_return_nil_error_witness:
  "snd (snd (DNSResolve example_world Background example_hosts 10)) = None \<and>
   map dns_Host (fst (DNSResolve example_world Background example_hosts 10)) = [''example.com''] \<and>
   resolves example_world ''example.com'' \<and>
   fst (PortScan example_world Background example_records [80, 443] 10 2) =
     [\<lparr>pr_Host = ''example.com'', pr_IP = ''93.184.216.34'', pr_Port = 443\<rparr>,
      \<lparr>pr_Host = ''www.example.com'', pr_IP = ''93.184.216.35'', pr_Port = 80\<rparr>] \<and>
   connects example_world (''example.com'', ''93.184.216.34'', 443) \<and>
   (\<exists>svc \<in> set (services_of (HTTPProbe example_world Background example_ports 5 2 ''sweep'')).
      \<exists>pr \<in> set example_ports. \<exists>pd. probePort example_world pr ''sweep'' = Some (svc, pd)) \<and>
   DNSResolve example_world (CancelledFrom 0) example_hosts 10 = ([], [], None) \<and>
   filter stage_error_warning
     (fst (snd (Run Background example_config (recon_stages example_world example_sched)
                  example_state 0 1))) = []"
proof -
  note T = later_stages_return_nil_error [where w = example_world and ctx = Background
      and hosts = example_hosts and concurrency = "10" and dnsRecords = example_records
      and ports = "[80, 443]" and timeout = "2" and openPorts = example_ports and ua = "''sweep''"
      and cfg = example_config and sched = example_sched and s = example_state
      and started = "0" and now = "1"]
  have pos: "0 < (10::int)" by simp
  note B = T [THEN conjunct2, THEN conjunct2, THEN conjunct2, THEN conjunct2, THEN conjunct2,
      THEN conjunct2, THEN conjunct1, rule_format, OF pos]
  have c1: "snd (snd (DNSResolve example_world Background example_hosts 10)) = None"
    using T by (rule conjunct1)
  have hosts: "map dns_Host (fst (DNSResolve example_world Background example_hosts 10)) = [''example.com'']"
    using B [THEN conjunct1] by (simp add: resolves_def example_world_def example_hosts_def)
  then obtain r where r: "r \<in> set (fst (DNSResolve example_world Background example_hosts 10))"
    "dns_Host r = ''example.com''"
    by (cases "fst (DNSResolve example_world Background example_hosts 10)") auto
  from T [THEN conjunct2, THEN conjunct2, THEN conjunct2, THEN conjunct1, rule_format, OF r(1)] r(2)
  have c3: "resolves example_world ''example.com''" by simp
  have targets: "scan_targets example_records [80, 443] =
     [(''example.com'', ''93.184.216.34'', 80), (''example.com'', ''93.184.216.34'', 443),
      (''www.example.com'', ''93.184.216.35'', 80), (''www.example.com'', ''93.184.216.35'', 443)]"
    by (simp add: scan_targets_def example_records_def)
  have ports: "fst (PortScan example_world Background example_records [80, 443] 10 2) =
     [\<lparr>pr_Host = ''example.com'', pr_IP = ''93.184.216.34'', pr_Port = 443\<rparr>,
      \<lparr>pr_Host = ''www.example.com'', pr_IP = ''93.184.216.35'', pr_Port = 80\<rparr>]"
    using B [THEN conjunct2, THEN conjunct1]
    by (simp add: targets connects_def dial_addr_def open_port_def example_world_def Itoa_eval)
  then have "\<lparr>pr_Host = ''example.com'', pr_IP = ''93.184.216.34'', pr_Port = 443\<rparr>
      \<in> set (fst (PortScan example_world Background example_records [80, 443] 10 2))"
    by simp
  from T [THEN conjunct2, THEN conjunct2, THEN conjunct2, THEN conjunct2, THEN conjunct1,
      rule_format, OF this]
  have c5: "connects example_world (''example.com'', ''93.184.216.34'', 443)" by simp
  have "client_Do example_world (probe_url ''https'' example_port_tls) =
      Inr \<lparr>resp_StatusCode = 200,
            resp_Header = [(''Server'', [''nginx/1.24.0'']), (''Cf-Ray'', [''''])],
            resp_Body = ''<html><title> Example </title></html>'',
            resp_ContentLength = 37, resp_Cookies = []\<rparr>"
    by (simp add: probe_url_def example_port_tls_def example_world_def Itoa_eval)
  from probeURL_response [OF this, of example_port_tls "''https''" "''sweep''"]
  obtain svc pd where "probeURL example_world (probe_url ''https'' example_port_tls)
      example_port_tls ''https'' ''sweep'' = Some (svc, pd)"
    by blast
  moreover have "tlsFirstPorts (pr_Port example_port_tls)"
    by (simp add: tlsFirstPorts_def example_port_tls_def)
  ultimately have "probePort example_world example_port_tls ''sweep'' = Some (svc, pd)"
    by (simp add: probePort_tls)
  then have "svc \<in> set (services_of (HTTPProbe example_world Background example_ports 5 2 ''sweep''))"
    using later_stages_return_nil_error [where w = example_world and concurrency = "5"
        and timeout = "2" and openPorts = example_ports and ua = "''sweep''",
        THEN conjunct2, THEN conjunct2, THEN conjunct2, THEN conjunct2, THEN conjunct2,
        THEN conjunct2, THEN conjunct1, rule_format, THEN conjunct2, THEN conjunct2]
    by (simp add: example_ports_def List.map_filter_simps)
  moreover from later_stages_return_nil_error [where w = example_world and ctx = Background
        and concurrency = "5" and timeout = "2" and openPorts = example_ports and ua = "''sweep''",
        THEN conjunct2, THEN conjunct2, THEN conjunct2, THEN conjunct2, THEN conjunct2,
        THEN conjunct1, rule_format, OF this]
  have "\<exists>pr \<in> set example_ports. \<exists>pd. probePort example_world pr ''sweep'' = Some (svc, pd)" .
  ultimately have c6: "\<exists>svc \<in> set (services_of (HTTPProbe example_world Background example_ports 5 2 ''sweep'')).
      \<exists>pr \<in> set example_ports. \<exists>pd. probePort example_world pr ''sweep'' = Some (svc, pd)"
    by blast
  have c7: "DNSResolve example_world (CancelledFrom 0) example_hosts 10 = ([], [], None)"
    using T [THEN conjunct2, THEN conjunct2, THEN conjunct2, THEN conjunct2, THEN conjunct2,
      THEN conjunct2, THEN conjunct2, THEN conjunct1] .
  have c8: "filter stage_error_warning
     (fst (snd (Run Background example_config (recon_stages example_world example_sched)
                  example_state 0 1))) = []"
    using T [THEN conjunct2, THEN conjunct2, THEN conjunct2, THEN conjunct2, THEN conjunct2,
      THEN conjunct2, THEN conjunct2, THEN conjunct2, THEN conjunct2, THEN conjunct2] .
  from c1 hosts c3 ports c5 c6 c7 c8 show ?thesis by (intro conjI)
qed

end
